theory Spec2Isabelle
  imports Complex_Main "HOL-Library.While_Combinator"
begin

section \<open>Gear tooth-profile meshing (app/gearx/gear.py)\<close>

text \<open>
  The development follows \<^verbatim>\<open>src/app/gearx/gear.py\<close>: the constructors of
  \<^verbatim>\<open>Gear\<close>, \<^verbatim>\<open>ExternalGear\<close> and \<^verbatim>\<open>InternalGear\<close>, the profile builders
  \<^verbatim>\<open>get_profile_points\<close>, and \<^verbatim>\<open>generate_mesh\<close> with its rotational stitching.
  numpy's float64 values are idealised as \<^typ>\<open>real\<close>; Python's unbounded integers are
  \<^typ>\<open>int\<close>. numpy division never raises (it yields inf or nan), so a division of
  floats has no error branch; a division of two plain Python numbers raises
  ZeroDivisionError and does have one.  A call that does not return is the value
  \<open>Inl Diverges\<close>.
\<close>

subsection \<open>Errors and results\<close>

datatype error =
  TypeError | NameError | IndexError | ValueError | ZeroDivisionError | Diverges

definition bnd :: "error + 'a \<Rightarrow> ('a \<Rightarrow> error + 'b) \<Rightarrow> error + 'b" where
  "bnd m f = (case m of Inl e \<Rightarrow> Inl e | Inr x \<Rightarrow> f x)"

text \<open>A Python value, as far as \<^verbatim>\<open>isinstance(z, int)\<close> can tell values apart.\<close>

datatype pyval = PyInt int | PyFloat real | PyBool bool | PyStr string | PyNone

fun isinstance_int :: "pyval \<Rightarrow> bool" where
  "isinstance_int (PyInt _) = True"
| "isinstance_int (PyBool _) = True"
| "isinstance_int _ = False"

fun isinstance_float :: "pyval \<Rightarrow> bool" where
  "isinstance_float (PyFloat _) = True"
| "isinstance_float _ = False"

fun float_is_integer :: "pyval \<Rightarrow> bool" where
  "float_is_integer (PyFloat x) = (x \<in> \<int>)"
| "float_is_integer _ = False"

fun int_of_pyval :: "pyval \<Rightarrow> int" where
  "int_of_pyval (PyInt i) = i"
| "int_of_pyval (PyBool b) = (if b then 1 else 0)"
| "int_of_pyval _ = 0"

text \<open>
  The arguments the constructor computes with (module, angles, profile shift) are Python
  values as well: they come from \<^verbatim>\<open>json.load\<close>.  A number is an int, a float or a
  bool; comparing or dividing anything else with a float raises TypeError.
\<close>

fun is_number :: "pyval \<Rightarrow> bool" where
  "is_number (PyInt _) = True"
| "is_number (PyFloat _) = True"
| "is_number (PyBool _) = True"
| "is_number _ = False"

fun float_of :: "pyval \<Rightarrow> real" where
  "float_of (PyInt i) = real_of_int i"
| "float_of (PyFloat x) = x"
| "float_of (PyBool b) = (if b then 1 else 0)"
| "float_of _ = 0"

subsection \<open>Gear.__init__\<close>

type_synonym point = "real \<times> real"

type_synonym mesh = "point list \<times> int list list"

definition radians :: "real \<Rightarrow> real" where
  "radians x = x * (pi / 180)"

text \<open>
  The Python expression \<^verbatim>\<open>2 * pi\<close> of lines 33 and 34.  \<^verbatim>\<open>pi\<close> is the double nearest
  to \<open>\<pi>\<close>, which is \<open>884279719003555 / 2 ^ 48\<close>, and doubling it is exact; the product
  is a little less than \<open>2 * \<pi>\<close>.  The angles are compared with this constant.
\<close>

definition two_pi_float :: real where
  "two_pi_float = 884279719003555 / 140737488355328"

record gear =
  m_n :: real
  z :: int
  alpha_n :: real
  beta :: real
  x_n :: real
  hac :: real
  cc :: real
  rcc :: real
  jn :: real
  n1 :: int
  n2 :: int
  n3 :: int
  na :: int
  nf :: int
  mesh :: "mesh option"
  x_t :: real
  alpha_t :: real
  m_t :: real
  d :: real
  r :: real
  d_b :: real
  r_b :: real

text \<open>
  Line 29 rejects a tooth count that is not an int.  Lines 33 and 34 compare the angles
  with \<^verbatim>\<open>2 * pi\<close>, line 49 divides \<^verbatim>\<open>x_n\<close> and line 53 divides \<^verbatim>\<open>m_n\<close> by a numpy
  float: each raises TypeError for an argument that is not a number.  The other arguments
  are only stored.
\<close>

definition Gear_init ::
  "pyval \<Rightarrow> pyval \<Rightarrow> pyval \<Rightarrow> pyval \<Rightarrow> pyval \<Rightarrow> real \<Rightarrow> real \<Rightarrow> real \<Rightarrow> real \<Rightarrow>
   int \<Rightarrow> int \<Rightarrow> int \<Rightarrow> int \<Rightarrow> int \<Rightarrow> error + gear" where
  "Gear_init m_n' z' alpha_n' beta' x_n' hac' cc' rcc' jn' n1' n2' n3' na' nf' =
    (if \<not> isinstance_int z' \<or> (isinstance_float z' \<and> \<not> float_is_integer z')
     then Inl TypeError
     else if \<not> is_number alpha_n' \<or> \<not> is_number beta' \<or> \<not> is_number x_n'
             \<or> \<not> is_number m_n'
     then Inl TypeError
     else
       let alpha_n'' = (if float_of alpha_n' < two_pi_float then float_of alpha_n'
                        else radians (float_of alpha_n'));
           beta'' = (if float_of beta' < two_pi_float then float_of beta'
                     else radians (float_of beta'));
           x_t' = float_of x_n' / cos beta'';
           alpha_t' = arctan (tan alpha_n'' / cos beta'');
           m_t' = float_of m_n' / cos beta'';
           d' = m_t' * real_of_int (int_of_pyval z');
           r' = d' / 2;
           d_b' = d' * cos alpha_t';
           r_b' = d_b' / 2
       in Inr \<lparr> m_n = float_of m_n', z = int_of_pyval z', alpha_n = alpha_n'', beta = beta'',
                x_n = float_of x_n', hac = hac', cc = cc', rcc = rcc', jn = jn',
                n1 = n1', n2 = n2', n3 = n3', na = na', nf = nf', mesh = None,
                x_t = x_t', alpha_t = alpha_t', m_t = m_t', d = d', r = r',
                d_b = d_b', r_b = r_b' \<rparr>)"

subsection \<open>ExternalGear.__init__\<close>

text \<open>
  The arguments that only the two subclass constructors compute with (\<^verbatim>\<open>hac\<close>, \<^verbatim>\<open>cc\<close>,
  \<^verbatim>\<open>rcc\<close>, the diameters and the cutter data) are numbers in the model.
\<close>

record external_gear = gear +
  inner_diam :: real
  chamfer_dia :: real
  d_a :: real
  r_a :: real
  d_f :: real
  r_f :: real
  effective_da :: real
  effective_ra :: real
  ha_cutter :: real
  rc :: real

definition ExternalGear_init ::
  "pyval \<Rightarrow> pyval \<Rightarrow> pyval \<Rightarrow> pyval \<Rightarrow> pyval \<Rightarrow> real \<Rightarrow> real \<Rightarrow> real \<Rightarrow> real \<Rightarrow>
   int \<Rightarrow> int \<Rightarrow> int \<Rightarrow> int \<Rightarrow> int \<Rightarrow> real \<Rightarrow> real \<Rightarrow> error + external_gear" where
  "ExternalGear_init m_n' z' alpha_n' beta' x_n' hac' cc' rcc' jn' n1' n2' n3' na' nf'
       chamfer_dia' inner_diam' =
    bnd (Gear_init m_n' z' alpha_n' beta' x_n' hac' cc' rcc' jn' n1' n2' n3' na' nf')
      (\<lambda>g.
        let ha = m_n g * (hac g + x_t g);
            d_a' = d g + 2 * ha;
            r_a' = d_a' / 2;
            hf = m_n g * (hac g + cc g - x_t g);
            d_f' = d g - 2 * hf;
            r_f' = d_f' / 2;
            effective_da' = d_a' - chamfer_dia';
            effective_ra' = effective_da' / 2;
            ha_cutter' = (hac g + cc g) * m_n g;
            rc' = m_n g * rcc g
        in Inr (gear.extend g
             (external_gear.fields inner_diam' chamfer_dia' d_a' r_a' d_f' r_f'
                effective_da' effective_ra' ha_cutter' rc')))"

subsection \<open>InternalGear.__init__\<close>

text \<open>
  \<^verbatim>\<open>scipy.optimize.fsolve\<close> is a parameter of the model: a function from the residual
  function and the initial guess to the returned array.  scipy returns an array of the
  shape of the initial guess and does not raise when the iteration fails to converge.
  In \<^verbatim>\<open>pi / self.z_cutter\<close> both operands are plain Python numbers, so a cutter tooth
  count of 0 raises ZeroDivisionError there (the division two lines before it has a numpy
  numerator and only warns).
\<close>

type_synonym solver = "(real list \<Rightarrow> real list) \<Rightarrow> real list \<Rightarrow> real list"

definition shape_preserving :: "solver \<Rightarrow> bool" where
  "shape_preserving fsolve = (\<forall>f x0. length (fsolve f x0) = length x0)"

record internal_gear = gear +
  outer_diam :: real
  z_cutter :: int
  xn_cutter :: real
  d_a :: real
  r_a :: real
  d_f :: real
  r_f :: real
  d_cutter :: real
  r_cutter :: real
  db_cutter :: real
  rb_cutter :: real
  da_cutter :: real
  ra_cutter :: real
  df_cutter :: real
  rf_cutter :: real
  etab :: real
  rc :: real
  t :: "real list"

definition init_func :: "real \<Rightarrow> real \<Rightarrow> real \<Rightarrow> real list \<Rightarrow> real list" where
  "init_func rb_c etab' ra_c t' =
    [ rb_c * cos etab' * (sin (t' ! 0) - t' ! 0 * cos (t' ! 0))
        - rb_c * sin etab' * (cos (t' ! 0) + t' ! 0 * sin (t' ! 0)) - t' ! 2 * cos (t' ! 1),
      rb_c * cos etab' * (cos (t' ! 0) + t' ! 0 * sin (t' ! 0))
        + rb_c * sin etab' * (sin (t' ! 0) - t' ! 0 * cos (t' ! 0))
        - (t' ! 2 * sin (t' ! 1) + ra_c - t' ! 2),
      (rb_c * t' ! 0 * sin etab' * sin (t' ! 0) + rb_c * t' ! 0 * cos etab' * cos (t' ! 0))
        / (rb_c * t' ! 0 * cos etab' * sin (t' ! 0) - rb_c * t' ! 0 * cos (t' ! 0) * sin etab')
        + cos (t' ! 1) / sin (t' ! 1) ]"

definition InternalGear_init ::
  "solver \<Rightarrow> pyval \<Rightarrow> pyval \<Rightarrow> pyval \<Rightarrow> pyval \<Rightarrow> pyval \<Rightarrow> real \<Rightarrow> real \<Rightarrow> real \<Rightarrow> real \<Rightarrow>
   int \<Rightarrow> int \<Rightarrow> int \<Rightarrow> int \<Rightarrow> int \<Rightarrow> real \<Rightarrow> int \<Rightarrow> real \<Rightarrow> error + internal_gear" where
  "InternalGear_init fsolve m_n' z' alpha_n' beta' x_n' hac' cc' rcc' jn' n1' n2' n3' na' nf'
       outer_diam' z_cutter' xn_cutter' =
    bnd (Gear_init m_n' z' alpha_n' beta' x_n' hac' cc' rcc' jn' n1' n2' n3' na' nf')
      (\<lambda>g.
        let ha = m_n g * (hac g - x_n g);
            d_a' = d g - 2 * ha;
            r_a' = d_a' / 2;
            hf = m_n g * (hac g + cc g + x_n g);
            d_f' = d g + 2 * hf;
            r_f' = d_f' / 2;
            d_cutter' = m_t g * real_of_int z_cutter';
            r_cutter' = d_cutter' / 2;
            db_cutter' = d_cutter' * cos (alpha_t g);
            rb_cutter' = db_cutter' / 2;
            ha_cutter' = m_n g * (hac g + cc g + xn_cutter');
            da_cutter' = d_cutter' + 2 * ha_cutter';
            ra_cutter' = da_cutter' / 2;
            hf_cutter = m_n g * (hac g - xn_cutter');
            df_cutter' = d_cutter' - 2 * hf_cutter;
            rf_cutter' = df_cutter' / 2;
            eta = (pi - 4 * xn_cutter' * tan (alpha_n g)) / (2 * real_of_int z_cutter');
            etab' = pi / real_of_int z_cutter' - (eta - (tan (alpha_t g) - alpha_t g));
            rc' = m_n g * rcc g;
            t' = fsolve (init_func rb_cutter' etab' ra_cutter') [1, 0.75 * pi, 0.25 * m_n g]
        in if z_cutter' = 0 then Inl ZeroDivisionError
           else Inr (gear.extend g
             (internal_gear.fields outer_diam' z_cutter' xn_cutter' d_a' r_a' d_f' r_f'
                d_cutter' r_cutter' db_cutter' rb_cutter' da_cutter' ra_cutter'
                df_cutter' rf_cutter' etab' rc' t')))"


subsection \<open>numpy arrays as lists\<close>

text \<open>
  A one-dimensional array is a list.  An integer index counts from the end when it is
  negative and raises IndexError out of range; the bounds of a slice are clipped to the
  array and never raise.
\<close>

definition py_index :: "nat \<Rightarrow> int \<Rightarrow> error + nat" where
  "py_index n i =
    (if 0 \<le> i \<and> i < int n then Inr (nat i)
     else if - int n \<le> i \<and> i < 0 then Inr (nat (i + int n))
     else Inl IndexError)"

definition getitem :: "'a list \<Rightarrow> int \<Rightarrow> error + 'a" where
  "getitem xs i = bnd (py_index (length xs) i) (\<lambda>k. Inr (xs ! k))"

definition setitem :: "'a list \<Rightarrow> int \<Rightarrow> 'a \<Rightarrow> error + 'a list" where
  "setitem xs i v = bnd (py_index (length xs) i) (\<lambda>k. Inr (xs[k := v]))"

text \<open>\<^verbatim>\<open>xs[dst] = ys[src]\<close>\<close>

definition copy_item :: "'a list \<Rightarrow> int \<Rightarrow> 'a list \<Rightarrow> int \<Rightarrow> error + 'a list" where
  "copy_item xs dst ys src = bnd (getitem ys src) (\<lambda>v. setitem xs dst v)"

definition slice_bound :: "nat \<Rightarrow> int \<Rightarrow> nat" where
  "slice_bound n i = (if i < 0 then nat (max 0 (i + int n)) else min (nat i) n)"

text \<open>\<^verbatim>\<open>xs[a:b]\<close> and \<^verbatim>\<open>xs[a:]\<close>\<close>

definition slice :: "'a list \<Rightarrow> int \<Rightarrow> int \<Rightarrow> 'a list" where
  "slice xs a b =
    (let lo = slice_bound (length xs) a; hi = slice_bound (length xs) b
     in take (hi - lo) (drop lo xs))"

definition slice_from :: "'a list \<Rightarrow> int \<Rightarrow> 'a list" where
  "slice_from xs a = drop (slice_bound (length xs) a) xs"

text \<open>
  \<^verbatim>\<open>xs[a:b] = ys\<close>: the shapes must agree, except that an array of one element is
  broadcast; otherwise numpy raises ValueError.
\<close>

definition slice_assign :: "'a list \<Rightarrow> int \<Rightarrow> int \<Rightarrow> 'a list \<Rightarrow> error + 'a list" where
  "slice_assign xs a b ys =
    (let lo = slice_bound (length xs) a; hi = slice_bound (length xs) b
     in if length ys = hi - lo
        then Inr (map (\<lambda>j. if lo \<le> j \<and> j < hi then ys ! (j - lo) else xs ! j) [0..<length xs])
        else if length ys = 1
        then Inr (map (\<lambda>j. if lo \<le> j \<and> j < hi then ys ! 0 else xs ! j) [0..<length xs])
        else Inl ValueError)"

text \<open>\<^verbatim>\<open>xs[a:b] += k\<close> and \<^verbatim>\<open>xs[a:] += k\<close>\<close>

definition slice_iadd :: "int list \<Rightarrow> int \<Rightarrow> int \<Rightarrow> int \<Rightarrow> int list" where
  "slice_iadd xs a b k =
    (let lo = slice_bound (length xs) a; hi = slice_bound (length xs) b
     in map (\<lambda>j. if lo \<le> j \<and> j < hi then xs ! j + k else xs ! j) [0..<length xs])"

definition slice_from_iadd :: "int list \<Rightarrow> int \<Rightarrow> int \<Rightarrow> int list" where
  "slice_from_iadd xs a k =
    (let lo = slice_bound (length xs) a
     in map (\<lambda>j. if lo \<le> j then xs ! j + k else xs ! j) [0..<length xs])"

primrec mapM :: "('a \<Rightarrow> error + 'b) \<Rightarrow> 'a list \<Rightarrow> error + 'b list" where
  "mapM f [] = Inr []"
| "mapM f (x # xs) = bnd (f x) (\<lambda>y. bnd (mapM f xs) (\<lambda>ys. Inr (y # ys)))"

text \<open>\<^verbatim>\<open>trans_matrix[cell]\<close> for a two-dimensional index array \<^verbatim>\<open>cell\<close>\<close>

definition take_cells :: "int list \<Rightarrow> int list list \<Rightarrow> error + int list list" where
  "take_cells tm cell = mapM (mapM (getitem tm)) cell"

definition arange :: "nat \<Rightarrow> int list" where
  "arange n = map int [0..<n]"

text \<open>\<^verbatim>\<open>np.linspace(a, b, num)\<close> and \<^verbatim>\<open>np.linspace(a, b, num, endpoint=False)\<close>\<close>

definition linspace :: "real \<Rightarrow> real \<Rightarrow> int \<Rightarrow> error + real list" where
  "linspace a b num =
    (if num < 0 then Inl ValueError
     else Inr (map (\<lambda>i. a + real i * ((b - a) / real (nat num - 1))) [0..<nat num]))"

definition linspace_open :: "real \<Rightarrow> real \<Rightarrow> int \<Rightarrow> error + real list" where
  "linspace_open a b num =
    (if num < 0 then Inl ValueError
     else Inr (map (\<lambda>i. a + real i * ((b - a) / real (nat num))) [0..<nat num]))"

text \<open>The product of the rotation matrix of angle \<open>phi\<close> with a node.\<close>

definition rotate :: "real \<Rightarrow> point \<Rightarrow> point" where
  "rotate phi p = (cos phi * fst p - sin phi * snd p, sin phi * fst p + cos phi * snd p)"

subsection \<open>Rotational stitching\<close>

text \<open>
  The four branches of \<^verbatim>\<open>generate_mesh\<close> assemble the wheel in the same way: the
  first copy ("left tooth") after the original tooth, the copies of the loop
  \<^verbatim>\<open>for i in range(2, z - 1)\<close>, and the closing copy ("right tooth").  They differ in
  the updates of \<^verbatim>\<open>trans_matrix\<close> and in the two node selections; these are the
  parameters of \<open>stitch\<close>.
\<close>

type_synonym remap = "int list \<Rightarrow> error + int list"

type_synonym stitch_state = "int list \<times> point list \<times> int list list"

fun copy_loop ::
  "remap \<Rightarrow> real list \<Rightarrow> point list \<Rightarrow> int list list \<Rightarrow> int list \<Rightarrow> stitch_state
   \<Rightarrow> error + stitch_state" where
  "copy_loop remap_mid rot_phi temp_node origin_cell [] s = Inr s"
| "copy_loop remap_mid rot_phi temp_node origin_cell (i # is) (tm, node, cell) =
     bnd (getitem rot_phi i) (\<lambda>phi.
     bnd (remap_mid tm) (\<lambda>tm'.
     bnd (take_cells tm' origin_cell) (\<lambda>new_cell.
       copy_loop remap_mid rot_phi temp_node origin_cell is
         (tm', node @ map (rotate phi) temp_node, cell @ new_cell))))"

definition stitch ::
  "remap \<Rightarrow> remap \<Rightarrow> remap \<Rightarrow> point list \<Rightarrow> point list \<Rightarrow> real list \<Rightarrow> int \<Rightarrow> mesh
   \<Rightarrow> error + mesh" where
  "stitch remap_left remap_mid remap_last temp_node temp_node_last rot_phi z' qm =
    (let tooth_node = fst qm; tooth_cell = snd qm
     in bnd (remap_left (arange (length tooth_node))) (\<lambda>tm.
        bnd (getitem rot_phi 1) (\<lambda>phi.
        bnd (take_cells tm tooth_cell) (\<lambda>new_cell.
        bnd (copy_loop remap_mid rot_phi temp_node tooth_cell [2..z' - 2]
               (tm, tooth_node @ map (rotate phi) temp_node, tooth_cell @ new_cell))
          (\<lambda>(tm, node, cell).
        bnd (getitem rot_phi (- 1)) (\<lambda>phi.
        bnd (remap_last tm) (\<lambda>tm.
        bnd (take_cells tm tooth_cell) (\<lambda>new_cell.
          Inr (node @ map (rotate phi) temp_node_last, cell @ new_cell)))))))))"

text \<open>
  ExternalGear, branch \<^verbatim>\<open>delta_angle < 1e-12\<close> (12 key points).  \<open>remap_reduced\<close> is the
  update of the left tooth (with offsets \<open>snn + n3 - 1\<close> and \<open>snn\<close>) and of the loop (with
  \<open>snn\<close> twice), where \<open>snn\<close> is \<^verbatim>\<open>single_node_num\<close>.
\<close>

definition remap_reduced :: "int \<Rightarrow> int \<Rightarrow> int \<Rightarrow> int \<Rightarrow> int \<Rightarrow> remap" where
  "remap_reduced n1' n2' n3' off_kp off_rest tm =
     bnd (copy_item tm 0 tm 11) (\<lambda>tm.
     bnd (copy_item tm 1 tm 4) (\<lambda>tm.
     bnd (slice_assign tm 12 (12 + n3' - 1)
            (slice tm (12 + 2 * (n3' + n1' + n2' - 3)) (12 + 2 * (n3' + n1' + n2' - 3) + n3' - 1)))
       (\<lambda>tm.
     Inr (slice_from_iadd (slice_iadd tm 2 12 off_kp) (12 + n3' - 1) off_rest))))"

definition last_reduced :: "int \<Rightarrow> int \<Rightarrow> int \<Rightarrow> int \<Rightarrow> int list \<Rightarrow> remap" where
  "last_reduced n1' n2' n3' snn origin_trans_matrix tm =
     bnd (copy_item tm 0 tm 11) (\<lambda>tm.
     bnd (copy_item tm 1 tm 4) (\<lambda>tm.
     bnd (copy_item tm 11 origin_trans_matrix 0) (\<lambda>tm.
     bnd (copy_item tm 4 origin_trans_matrix 1) (\<lambda>tm.
     bnd (slice_assign tm 12 (12 + n3' - 1)
            (slice tm (12 + 2 * (n3' + n1' + n2' - 3)) (12 + 2 * (n3' + n1' + n2' - 3) + n3' - 1)))
       (\<lambda>tm.
     bnd (slice_assign tm (12 + 2 * (n3' + n1' + n2' - 3)) (12 + 2 * (n3' + n1' + n2' - 3) + n3' - 1)
            (slice origin_trans_matrix 12 (12 + n3' - 1)))
       (\<lambda>tm.
     Inr (slice_from_iadd
            (slice_iadd
               (slice_iadd (slice_iadd tm 2 4 snn) 5 11 (snn - 1))
               (12 + (n3' - 1)) (12 + 2 * (n1' + n2' + n3' - 3)) (snn - 2))
            (12 + 2 * (n1' + n2' + n3' - 3) + n3' - 1) (snn - 2 - (n3' - 1)))))))))"

definition stitch_reduced :: "int \<Rightarrow> int \<Rightarrow> int \<Rightarrow> real list \<Rightarrow> int \<Rightarrow> mesh \<Rightarrow> error + mesh" where
  "stitch_reduced n1' n2' n3' rot_phi z' qm =
    (let tooth_node = fst qm;
         single_node_num = int (length tooth_node) - (n3' + 1);
         temp_node = slice tooth_node 2 12 @ slice_from tooth_node (12 + (n3' - 1));
         temp_node_last =
           slice tooth_node 2 4 @ slice tooth_node 5 11
           @ slice tooth_node (12 + (n3' - 1)) (12 + 2 * (n1' + n2' + n3' - 3))
           @ slice_from tooth_node (12 + 2 * (n1' + n2' + n3' - 3) + n3' - 1)
     in stitch
          (remap_reduced n1' n2' n3' (single_node_num + n3' - 1) single_node_num)
          (remap_reduced n1' n2' n3' single_node_num single_node_num)
          (last_reduced n1' n2' n3' single_node_num (arange (length tooth_node)))
          temp_node temp_node_last rot_phi z' qm)"

text \<open>ExternalGear, the other branch (16 key points).\<close>

definition edge_node_num_ext :: "int \<Rightarrow> int \<Rightarrow> int \<Rightarrow> int \<Rightarrow> int \<Rightarrow> int" where
  "edge_node_num_ext n1' n2' n3' na' nf' =
     (na' - 1) * 8 + (n2' - 1) * 3 + (n1' - 1) * 3 + (n3' - 1) * 5 + (nf' - 1) * 4"

definition remap_normal :: "int \<Rightarrow> int \<Rightarrow> int \<Rightarrow> int \<Rightarrow> int \<Rightarrow> int \<Rightarrow> remap" where
  "remap_normal n3' nf' edge_node_num off_kp off_edge off_rest tm =
     bnd (copy_item tm 12 tm 14) (\<lambda>tm.
     bnd (copy_item tm 13 tm 15) (\<lambda>tm.
     bnd (slice_assign tm
            (16 + edge_node_num - (4 * (nf' - 1) + 2 * (n3' - 1)))
            (16 + edge_node_num - (4 * (nf' - 1) + (n3' - 1)))
            (slice tm (16 + edge_node_num - (4 * (nf' - 1) + (n3' - 1)))
                      (16 + edge_node_num - (4 * (nf' - 1)))))
       (\<lambda>tm.
     Inr (slice_from_iadd
            (slice_iadd (slice_iadd tm 0 12 off_kp)
               14 (16 + edge_node_num - (4 * (nf' - 1) + 2 * (n3' - 1))) off_edge)
            (16 + edge_node_num - (4 * (nf' - 1) + (n3' - 1))) off_rest))))"

definition last_normal :: "int \<Rightarrow> int \<Rightarrow> int \<Rightarrow> int \<Rightarrow> int list \<Rightarrow> remap" where
  "last_normal n3' nf' edge_node_num snn origin_trans_matrix tm =
     bnd (copy_item tm 12 tm 14) (\<lambda>tm.
     bnd (copy_item tm 13 tm 15) (\<lambda>tm.
     bnd (copy_item tm 14 origin_trans_matrix 12) (\<lambda>tm.
     bnd (copy_item tm 15 origin_trans_matrix 13) (\<lambda>tm.
     bnd (slice_assign tm
            (16 + edge_node_num - (4 * (nf' - 1) + 2 * (n3' - 1)))
            (16 + edge_node_num - (4 * (nf' - 1) + (n3' - 1)))
            (slice tm (16 + edge_node_num - (4 * (nf' - 1) + (n3' - 1)))
                      (16 + edge_node_num - (4 * (nf' - 1)))))
       (\<lambda>tm.
     bnd (slice_assign tm
            (16 + edge_node_num - (4 * (nf' - 1) + (n3' - 1)))
            (16 + edge_node_num - (4 * (nf' - 1)))
            (slice origin_trans_matrix
               (16 + edge_node_num - (4 * (nf' - 1) + 2 * (n3' - 1)))
               (16 + edge_node_num - (4 * (nf' - 1) + (n3' - 1)))))
       (\<lambda>tm.
     Inr (slice_from_iadd
            (slice_iadd (slice_iadd tm 0 12 snn)
               16 (16 + edge_node_num - (4 * (nf' - 1) + 2 * (n3' - 1))) (snn - 2))
            (16 + edge_node_num - (4 * (nf' - 1))) (snn - (n3' - 1) - 2))))))))"

definition stitch_normal ::
  "int \<Rightarrow> int \<Rightarrow> int \<Rightarrow> int \<Rightarrow> int \<Rightarrow> real list \<Rightarrow> int \<Rightarrow> mesh \<Rightarrow> error + mesh" where
  "stitch_normal n1' n2' n3' na' nf' rot_phi z' qm =
    (let tooth_node = fst qm;
         edge_node_num = edge_node_num_ext n1' n2' n3' na' nf';
         single_node_num = int (length tooth_node) - (n3' + 1);
         temp_node =
           slice tooth_node 0 12
           @ slice tooth_node 14 (16 + edge_node_num - (4 * (nf' - 1) + 2 * (n3' - 1)))
           @ slice_from tooth_node (16 + edge_node_num - (4 * (nf' - 1) + (n3' - 1)));
         temp_node_last =
           slice tooth_node 0 12
           @ slice tooth_node 16 (16 + edge_node_num - (4 * (nf' - 1) + 2 * (n3' - 1)))
           @ slice_from tooth_node (16 + edge_node_num - (4 * (nf' - 1)))
     in stitch
          (remap_normal n3' nf' edge_node_num
             (single_node_num + (n3' - 1) + 2) (single_node_num + (n3' - 1)) single_node_num)
          (remap_normal n3' nf' edge_node_num single_node_num single_node_num single_node_num)
          (last_normal n3' nf' edge_node_num single_node_num (arange (length tooth_node)))
          temp_node temp_node_last rot_phi z' qm)"

text \<open>
  InternalGear: both branches run the same stitching code, with \<open>K = len(key_points)\<close>
  equal to 14 in the branch \<^verbatim>\<open>rc >= t[2]\<close> and to 18 in the other.
\<close>

definition remap_internal :: "int \<Rightarrow> int \<Rightarrow> int \<Rightarrow> int \<Rightarrow> int \<Rightarrow> int \<Rightarrow> remap" where
  "remap_internal K n1' n2' n3' off_kp off_rest tm =
     bnd (copy_item tm 0 tm 4) (\<lambda>tm.
     bnd (copy_item tm 1 tm 5) (\<lambda>tm.
     bnd (copy_item tm 2 tm 6) (\<lambda>tm.
     bnd (copy_item tm 3 tm 7) (\<lambda>tm.
     bnd (slice_assign tm K (K + (n1' + n2' + n3' - 3))
            (slice tm (K + (n1' + n2' + n3' - 3)) (K + 2 * (n1' + n2' + n3' - 3))))
       (\<lambda>tm.
     Inr (slice_from_iadd (slice_iadd tm 4 K off_kp) (K + (n1' + n2' + n3' - 3)) off_rest))))))"

definition last_internal :: "int \<Rightarrow> int \<Rightarrow> int \<Rightarrow> int \<Rightarrow> int \<Rightarrow> int list \<Rightarrow> remap" where
  "last_internal K n1' n2' n3' snn origin_trans_matrix tm =
     bnd (copy_item tm 0 tm 4) (\<lambda>tm.
     bnd (copy_item tm 1 tm 5) (\<lambda>tm.
     bnd (copy_item tm 2 tm 6) (\<lambda>tm.
     bnd (copy_item tm 3 tm 7) (\<lambda>tm.
     bnd (copy_item tm 4 origin_trans_matrix 0) (\<lambda>tm.
     bnd (copy_item tm 5 origin_trans_matrix 1) (\<lambda>tm.
     bnd (copy_item tm 6 origin_trans_matrix 2) (\<lambda>tm.
     bnd (copy_item tm 7 origin_trans_matrix 3) (\<lambda>tm.
     bnd (slice_assign tm K (K + (n1' + n2' + n3' - 3))
            (slice tm (K + (n1' + n2' + n3' - 3)) (K + 2 * (n1' + n2' + n3' - 3))))
       (\<lambda>tm.
     bnd (slice_assign tm (K + (n1' + n2' + n3' - 3)) (K + 2 * (n1' + n2' + n3' - 3))
            (slice origin_trans_matrix K (K + (n1' + n2' + n3' - 3))))
       (\<lambda>tm.
     Inr (slice_from_iadd (slice_iadd tm 8 K (snn - 4))
            (K + 2 * (n1' + n2' + n3' - 3)) (snn - (n1' + n2' + n3' + 1)))))))))))))"

definition stitch_internal ::
  "int \<Rightarrow> int \<Rightarrow> int \<Rightarrow> int \<Rightarrow> real list \<Rightarrow> int \<Rightarrow> mesh \<Rightarrow> error + mesh" where
  "stitch_internal K n1' n2' n3' rot_phi z' qm =
    (let tooth_node = fst qm;
         single_node_num = int (length tooth_node) - (n1' + n2' + n3' + 1);
         temp_node =
           slice tooth_node 4 K @ slice_from tooth_node (K + (n1' + n2' + n3' - 3));
         temp_node_last =
           slice tooth_node 8 K @ slice_from tooth_node (K + 2 * (n1' + n2' + n3' - 3))
     in stitch
          (remap_internal K n1' n2' n3' (single_node_num + (n1' + n2' + n3' - 3)) single_node_num)
          (remap_internal K n1' n2' n3' single_node_num single_node_num)
          (last_internal K n1' n2' n3' single_node_num (arange (length tooth_node)))
          temp_node temp_node_last rot_phi z' qm)"

subsection \<open>Auxiliary notions for the proofs\<close>

text \<open>Reading a list at an integer position known to be in range.\<close>

definition elt :: "'a list \<Rightarrow> int \<Rightarrow> 'a" where
  "elt xs i = xs ! nat i"

text \<open>Every entry of a remapping table of length \<open>N\<close> is a node index below \<open>M\<close>.\<close>

definition index_table :: "int \<Rightarrow> int \<Rightarrow> int list \<Rightarrow> bool" where
  "index_table N M tm =
    (int (length tm) = N \<and> (\<forall>i. 0 \<le> i \<and> i < N \<longrightarrow> 0 \<le> elt tm i \<and> elt tm i < M))"

text \<open>Every node index of every cell is a position of an array of \<open>M\<close> nodes.\<close>

definition cells_within :: "int \<Rightarrow> int list list \<Rightarrow> bool" where
  "cells_within M cell = (\<forall>c \<in> set cell. \<forall>i \<in> set c. 0 \<le> i \<and> i < M)"

text \<open>
  The successive values of \<^verbatim>\<open>temp\<close> in \<^verbatim>\<open>InternalGear.ainv\<close>, used to show that its
  loop ends.
\<close>

primrec ainv_seq :: "real \<Rightarrow> nat \<Rightarrow> real" where
  "ainv_seq x 0 = 0"
| "ainv_seq x (Suc k) = arctan (x + ainv_seq x k)"

subsection \<open>ExternalGear: geometry kernel and profile\<close>

text \<open>
  \<^verbatim>\<open>np.arctan2\<close>, written out by quadrants.
\<close>

definition arctan2 :: "real \<Rightarrow> real \<Rightarrow> real" where
  "arctan2 y x =
    (if 0 < x then arctan (y / x)
     else if x < 0 \<and> 0 \<le> y then arctan (y / x) + pi
     else if x < 0 then arctan (y / x) - pi
     else if 0 < y then pi / 2
     else if y < 0 then - (pi / 2)
     else 0)"

text \<open>
  The kernels are applied by numpy to a whole array of parameters; the model gives the
  point for one parameter and maps it over the array.
\<close>

definition ext_involute_point :: "external_gear \<Rightarrow> real \<Rightarrow> point" where
  "ext_involute_point g u =
    (let k = - (pi * m_n g / 4 + m_n g * x_t g * tan (alpha_t g));
         phi = (u * (cos (pi / 2 - alpha_t g))\<^sup>2 + k * cos (pi / 2 - alpha_t g)
                + u * (cos (beta g))\<^sup>2 * (sin (pi / 2 - alpha_t g))\<^sup>2)
               / (r g * cos (beta g) * cos (pi / 2 - alpha_t g));
         xt = r g * sin phi - phi * r g * cos phi
              + u * sin phi * sin (pi / 2 - alpha_t g)
              + (cos phi * (k + u * cos (pi / 2 - alpha_t g))) / cos (beta g);
         yt = r g * cos phi + phi * r g * sin phi
              + u * cos phi * sin (pi / 2 - alpha_t g)
              - (sin phi * (k + u * cos (pi / 2 - alpha_t g))) / cos (beta g)
     in (xt, yt))"

definition ExternalGear_get_involute_points :: "external_gear \<Rightarrow> real list \<Rightarrow> point list" where
  "ExternalGear_get_involute_points g us = map (ext_involute_point g) us"

definition ExternalGear_get_tip_intersection_points ::
  "external_gear \<Rightarrow> real list \<Rightarrow> real list" where
  "ExternalGear_get_tip_intersection_points g us =
     map (\<lambda>p. sqrt ((fst p)\<^sup>2 + (snd p)\<^sup>2)) (ExternalGear_get_involute_points g us)"

definition ext_transition_point :: "external_gear \<Rightarrow> real \<Rightarrow> point" where
  "ext_transition_point g u =
    (let x0 = - pi * m_n g / 2
              + (pi * m_n g / 4 - ha_cutter g * tan (alpha_t g)
                 - external_gear.rc g * tan (0.25 * pi - 0.5 * alpha_t g));
         y0 = - (ha_cutter g - external_gear.rc g) + m_n g * x_t g;
         phi = (x0 * sin u + external_gear.rc g * cos u * sin u
                - y0 * (cos (beta g))\<^sup>2 * cos u
                - external_gear.rc g * (cos (beta g))\<^sup>2 * cos u * sin u)
               / (r g * cos (beta g) * sin u);
         xt = r g * sin phi + sin phi * (y0 + external_gear.rc g * sin u)
              - phi * r g * cos phi
              + (cos phi * (x0 + external_gear.rc g * cos u)) / cos (beta g);
         yt = r g * cos phi + cos phi * (y0 + external_gear.rc g * sin u)
              + phi * r g * sin phi
              - (sin phi * (x0 + external_gear.rc g * cos u)) / cos (beta g)
     in (xt, yt))"

definition ExternalGear_get_transition_points :: "external_gear \<Rightarrow> real list \<Rightarrow> point list" where
  "ExternalGear_get_transition_points g us = map (ext_transition_point g) us"

text \<open>
  The profile array has three columns, of which the third is never written and stays 0;
  the model keeps the first two.  The two mirror assignments write one column each.
\<close>

definition ExternalGear_get_profile_points :: "solver \<Rightarrow> external_gear \<Rightarrow> error + point list" where
  "ExternalGear_get_profile_points fsolve g =
    (if (n1 g + n2 g + 1) * 2 < 0 then Inl ValueError
     else
      let points = replicate (nat ((n1 g + n2 g + 1) * 2)) (0, 0);
          t1 = (m_n g * x_t g
                - (ha_cutter g - external_gear.rc g + external_gear.rc g * sin (alpha_t g)))
               / cos (alpha_t g);
          involutecross =
            (\<lambda>t2. map (\<lambda>v. v - 0.5 * effective_da g)
                     (ExternalGear_get_tip_intersection_points g t2));
          t2 = fsolve involutecross [m_n g] ! 0;
          t3 = 2 * pi - alpha_t g;
          t4 = 1.5 * pi
      in bnd (linspace t4 t3 (n2 g + 1)) (\<lambda>us.
         bnd (slice_assign points 0 (n2 g + 1) (ExternalGear_get_transition_points g us))
           (\<lambda>points.
         bnd (linspace (t1 + (t2 - t1) / real_of_int (n1 g)) t2 (n1 g)) (\<lambda>us.
         bnd (slice_assign points (n2 g + 1) (n2 g + n1 g + 1)
                (ExternalGear_get_involute_points g us))
           (\<lambda>points.
         bnd (slice_assign (map fst points) (n2 g + n1 g + 1) (int (length points))
                (map uminus (slice (map fst points) 0 (n2 g + n1 g + 1))))
           (\<lambda>xs.
         bnd (slice_assign (map snd points) (n2 g + n1 g + 1) (int (length points))
                (slice (map snd points) 0 (n2 g + n1 g + 1)))
           (\<lambda>ys. Inr (zip xs ys))))))))"

subsection \<open>ExternalGear.generate_mesh\<close>

text \<open>
  The module's global names are a parameter: \<^verbatim>\<open>generate_mesh\<close> reads \<^verbatim>\<open>z\<close> without
  binding it, so Python looks it up among the globals of \<^verbatim>\<open>gear.py\<close>.  \<open>qm\<close> is what
  \<^verbatim>\<open>QuadrangleMesh.sub_domain_mesh_generator\<close> returns in this run.  The key points, the
  half-edge table and the boundary lines are floating-point data passed to that
  generator only; of their construction the model keeps what can raise:
  the indexing of the profile, the division by \<^verbatim>\<open>n_total\<close> of plain Python numbers,
  and \<^verbatim>\<open>np.linspace\<close> with a negative number of samples.  \<open>generator_contract\<close>
  states what the stitching expects of a mesh the generator returns for \<open>K\<close> key points
  and boundary lines with \<open>edge_nodes\<close> interior samples in all.
\<close>

definition generator_contract :: "int \<Rightarrow> int \<Rightarrow> mesh \<Rightarrow> bool" where
  \<comment> \<open>Modelled from the spec: QuadrangleMesh.sub_domain_mesh_generator is not among the
      sources.  By section 6 of the specification its nodes are the \<open>K\<close> key points in
      input order, then the interior nodes of the boundary lines, then the interior nodes
      of the sub-regions; its cells are quadrilaterals over these nodes.\<close>
  "generator_contract K edge_nodes qm =
    (K + edge_nodes \<le> int (length (fst qm)) \<and>
     (\<forall>c \<in> set (snd qm). length c = 4) \<and>
     cells_within (int (length (fst qm))) (snd qm))"

text \<open>
  Lines 240 to 297: everything up to the test that selects the topology.  The result is
  \<^verbatim>\<open>delta_angle\<close> together with \<^verbatim>\<open>rot_phi\<close> and the global \<^verbatim>\<open>z\<close> it was built from,
  which the stitching uses again.
\<close>

definition ExternalGear_delta_angle ::
  "(string \<Rightarrow> pyval option) \<Rightarrow> solver \<Rightarrow> external_gear \<Rightarrow> error + real \<times> real list \<times> int" where
  "ExternalGear_delta_angle G fsolve g =
     bnd (ExternalGear_get_profile_points fsolve g) (\<lambda>points.
     bnd (getitem points (- 1)) (\<lambda>kp_3.
     bnd (getitem points 0) (\<lambda>kp_4.
     bnd (getitem points (n1 g + n2 g + 1)) (\<lambda>kp_1.
     bnd (getitem points (2 * n1 g + n2 g + 1)) (\<lambda>kp_2.
     bnd (getitem points (n1 g)) (\<lambda>kp_5.
     bnd (getitem points (n1 g + n2 g)) (\<lambda>kp_6.
     if real_of_int (n1 g) * 1.236 + real_of_int (n2 g) * 0.618 + real_of_int (n3 g) = 0
     then Inl ZeroDivisionError
     else
     (case G ''z'' of
        None \<Rightarrow> Inl NameError
      | Some zv \<Rightarrow>
         if \<not> isinstance_int zv then Inl TypeError
         else
         bnd (linspace_open 0 (2 * pi) (int_of_pyval zv)) (\<lambda>rot_phi.
         bnd (getitem rot_phi 1) (\<lambda>phi1.
         let rot_kp_1 = rotate phi1 kp_1;
             angle0 = arctan2 (snd kp_1) (fst kp_1);
             angle1 = arctan2 (snd rot_kp_1) (fst rot_kp_1);
             angle2 = arctan2 (snd kp_4) (fst kp_4);
             delta_angle = \<bar>angle1 - angle2\<bar>
         in Inr (delta_angle, rot_phi, int_of_pyval zv)))))))))))"

text \<open>
  The number of interior samples of the 17 boundary lines of the 12-key-point topology
  (lines 351 to 369): three lines each of \<open>n1 + 1\<close>, \<open>n2 + 1\<close> and \<open>n3 + 1\<close> samples and
  eight of \<open>na + 1\<close>.  For the 16-key-point topology the source computes
  \<^verbatim>\<open>edge_node_num\<close> itself.
\<close>

definition edge_node_num_reduced :: "int \<Rightarrow> int \<Rightarrow> int \<Rightarrow> int \<Rightarrow> int" where
  "edge_node_num_reduced n1' n2' n3' na' =
     (n1' - 1) * 3 + (n2' - 1) * 3 + (n3' - 1) * 3 + (na' - 1) * 8"

definition ExternalGear_generate_mesh ::
  "(string \<Rightarrow> pyval option) \<Rightarrow> solver \<Rightarrow> error + mesh \<Rightarrow> external_gear
   \<Rightarrow> error + mesh \<times> external_gear" where
  "ExternalGear_generate_mesh G fsolve qm g =
     bnd (ExternalGear_delta_angle G fsolve g) (\<lambda>(delta_angle, rot_phi, z').
     if delta_angle < 1 / 10 ^ 12
     then
       if na g + 1 < 0 \<or> n3 g + 1 < 0 \<or> n1 g + 1 < 0 \<or> n2 g + 1 < 0
       then Inl ValueError
       else
         bnd qm (\<lambda>quad_mesh.
         bnd (stitch_reduced (n1 g) (n2 g) (n3 g) rot_phi z' quad_mesh)
           (\<lambda>t_mesh. Inr (t_mesh, g\<lparr>mesh := Some t_mesh\<rparr>)))
     else
       if na g + 1 < 0 \<or> n3 g + 1 < 0 \<or> n1 g + 1 < 0 \<or> n2 g + 1 < 0 \<or> nf g + 1 < 0
       then Inl ValueError
       else
         bnd qm (\<lambda>quad_mesh.
         bnd (stitch_normal (n1 g) (n2 g) (n3 g) (na g) (nf g) rot_phi z' quad_mesh)
           (\<lambda>t_mesh. Inr (t_mesh, g\<lparr>mesh := Some t_mesh\<rparr>))))"

text \<open>What the stitching of either topology expects of the single-tooth mesh.\<close>

definition ExternalGear_contract :: "real \<Rightarrow> external_gear \<Rightarrow> mesh \<Rightarrow> bool" where
  "ExternalGear_contract delta_angle g qm =
    (if delta_angle < 1 / 10 ^ 12
     then generator_contract 12 (edge_node_num_reduced (n1 g) (n2 g) (n3 g) (na g)) qm
     else generator_contract 16 (edge_node_num_ext (n1 g) (n2 g) (n3 g) (na g) (nf g)) qm)"

subsection \<open>InternalGear: geometry kernel and profile\<close>

text \<open>
  \<^verbatim>\<open>InternalGear.ainv\<close> iterates \<^verbatim>\<open>alpha = arctan(x + temp)\<close> until two successive
  values differ by at most \<^verbatim>\<open>1e-25\<close>; \<open>None\<close> stands for a loop that never ends.
\<close>

definition ainv :: "real \<Rightarrow> real option" where
  "ainv x =
     map_option snd
       (while_option (\<lambda>(temp, alpha). \<bar>alpha - temp\<bar> > 1 / 10 ^ 25)
          (\<lambda>(temp, alpha). (alpha, arctan (x + alpha)))
          (0, arctan x))"

text \<open>
  \<^verbatim>\<open>get_involute_points\<close> divides the Python float \<^verbatim>\<open>pi\<close> by the Python int \<^verbatim>\<open>z\<close>,
  which raises ZeroDivisionError for \<open>z = 0\<close>; the callers below test for it where the
  source first calls the method.
\<close>

definition int_involute_point :: "internal_gear \<Rightarrow> real \<Rightarrow> point" where
  "int_involute_point g u =
    (let eta = (pi - 4 * x_n g * tan (alpha_n g)) / (2 * real_of_int (z g));
         etab' = pi / real_of_int (z g) - (eta - (tan (alpha_t g) - alpha_t g));
         xt = r_b g * cos etab' * (sin u - u * cos u) - r_b g * sin etab' * (cos u + u * sin u);
         yt = r_b g * cos etab' * (cos u + u * sin u) + r_b g * sin etab' * (sin u - u * cos u)
     in (xt, yt))"

definition InternalGear_get_involute_points :: "internal_gear \<Rightarrow> real list \<Rightarrow> point list" where
  "InternalGear_get_involute_points g us = map (int_involute_point g) us"

definition InternalGear_get_tip_intersection_points ::
  "internal_gear \<Rightarrow> real list \<Rightarrow> real list" where
  "InternalGear_get_tip_intersection_points g us =
     map (\<lambda>p. sqrt ((fst p)\<^sup>2 + (snd p)\<^sup>2)) (InternalGear_get_involute_points g us)"

definition meshing_equation ::
  "real \<Rightarrow> real \<Rightarrow> real \<Rightarrow> real \<Rightarrow> real \<Rightarrow> real \<Rightarrow> real \<Rightarrow> real" where
  "meshing_equation E x0 y0 rc' ratio phi tt =
    (let cos_phi = cos (phi * (ratio - 1));
         sin_phi = sin (phi * (ratio - 1));
         term1 = - (rc' * cos_phi * cos tt + rc' * sin_phi * sin tt)
                 * (E * cos phi + sin_phi * (x0 + rc' * cos tt) * (ratio - 1)
                    - cos_phi * (y0 + rc' * sin tt) * (ratio - 1));
         term2 = - (rc' * cos_phi * sin tt - rc' * sin_phi * cos tt)
                 * (E * sin phi + cos_phi * (x0 + rc' * cos tt) * (ratio - 1)
                    + sin_phi * (y0 + rc' * sin tt) * (ratio - 1))
     in term1 + term2)"

definition int_transition_point ::
  "solver \<Rightarrow> real \<Rightarrow> real \<Rightarrow> real \<Rightarrow> real \<Rightarrow> real \<Rightarrow> real \<Rightarrow> point" where
  "int_transition_point fsolve E x0 y0 rc' ratio tt =
    (let phi = fsolve (\<lambda>p. [meshing_equation E x0 y0 rc' ratio (p ! 0) tt]) [0] ! 0;
         xt = sin (phi * (ratio - 1)) * (y0 + rc' * sin tt) - E * sin phi
              + cos (phi * (ratio - 1)) * (x0 + rc' * cos tt);
         yt = E * cos phi - sin (phi * (ratio - 1)) * (x0 + rc' * cos tt)
              + cos (phi * (ratio - 1)) * (y0 + rc' * sin tt)
     in (xt, yt))"

definition InternalGear_get_transition_points ::
  "solver \<Rightarrow> real \<Rightarrow> real \<Rightarrow> real \<Rightarrow> real \<Rightarrow> real \<Rightarrow> real list \<Rightarrow> point list" where
  "InternalGear_get_transition_points fsolve E x0 y0 rc' ratio us =
     map (int_transition_point fsolve E x0 y0 rc' ratio) us"

definition fillet_func :: "real \<Rightarrow> real \<Rightarrow> real \<Rightarrow> real \<Rightarrow> real list \<Rightarrow> real list" where
  "fillet_func rb_c etab' rc' ra_c t' =
    [ rb_c * cos etab' * (sin (t' ! 0) - t' ! 0 * cos (t' ! 0))
        - rb_c * sin etab' * (cos (t' ! 0) + t' ! 0 * sin (t' ! 0))
        - (rc' * cos (t' ! 1) + t' ! 2),
      rb_c * cos etab' * (cos (t' ! 0) + t' ! 0 * sin (t' ! 0))
        + rb_c * sin etab' * (sin (t' ! 0) - t' ! 0 * cos (t' ! 0))
        - (rc' * sin (t' ! 1) + t' ! 3),
      (rb_c * t' ! 0 * sin etab' * sin (t' ! 0) + rb_c * t' ! 0 * cos etab' * cos (t' ! 0))
        / (rb_c * t' ! 0 * cos etab' * sin (t' ! 0) - rb_c * t' ! 0 * cos (t' ! 0) * sin etab')
        + cos (t' ! 1) / sin (t' ! 1),
      (t' ! 2)\<^sup>2 + (t' ! 3)\<^sup>2 - (ra_c - rc')\<^sup>2 ]"

text \<open>The two assignments that build the mirrored half, reversed, one column each.\<close>

definition mirror_reversed :: "int \<Rightarrow> point list \<Rightarrow> error + point list" where
  "mirror_reversed h points =
     bnd (slice_assign (map fst points) (h + 1) (int (length points))
            (rev (map uminus (slice (map fst points) 0 h))))
       (\<lambda>xs.
     bnd (slice_assign (map snd points) (h + 1) (int (length points))
            (rev (slice (map snd points) 0 h)))
       (\<lambda>ys. Inr (zip xs ys)))"

text \<open>
  The tail shared by the two branches of \<^verbatim>\<open>get_profile_points\<close>: the two solves on the
  involute, which first evaluate \<^verbatim>\<open>get_tip_intersection_points\<close> and then read the
  profile point \<open>points[j]\<close>, and the sampling of the involute.
\<close>

definition involute_part :: "solver \<Rightarrow> internal_gear \<Rightarrow> int \<Rightarrow> point list \<Rightarrow> error + point list" where
  "involute_part fsolve g j points =
    (if z g = 0 then Inl ZeroDivisionError
     else
       bnd (getitem points j) (\<lambda>p.
       let func2 = (\<lambda>u. map (\<lambda>v. v - sqrt ((fst p)\<^sup>2 + (snd p)\<^sup>2))
                            (InternalGear_get_tip_intersection_points g u));
           t2 = fsolve func2 [1] ! 0;
           func1 = (\<lambda>u. map (\<lambda>v. v - 0.5 * internal_gear.d_a g)
                            (InternalGear_get_tip_intersection_points g u));
           t1 = fsolve func1 [1] ! 0
       in bnd (linspace_open t1 t2 (n1 g)) (\<lambda>us.
          slice_assign points 0 (n1 g) (InternalGear_get_involute_points g us))))"

definition InternalGear_get_profile_points ::
  "solver \<Rightarrow> internal_gear \<Rightarrow> error + point list \<times> internal_gear" where
  "InternalGear_get_profile_points fsolve g =
    (if z_cutter g = 0 then Inl ZeroDivisionError
     else
      let ratio = real_of_int (z g) / real_of_int (z_cutter g)
      in case ainv (2 * (x_n g - xn_cutter g) * tan (alpha_n g) / real_of_int (z g - z_cutter g)
                    + (tan (alpha_t g) - alpha_t g)) of
           None \<Rightarrow> Inl Diverges
         | Some alphawt \<Rightarrow>
            let E = 0.5 * (d g - d_cutter g)
                    + m_t g * (0.5 * real_of_int (z g - z_cutter g)
                               * (cos (alpha_t g) / cos alphawt - 1));
                df11 = 2 * (E + ra_cutter g)
            in bnd (getitem (t g) 2) (\<lambda>t_2.
               if internal_gear.rc g \<ge> t_2
               then
                 if 2 * (n1 g + n2 g) + 1 < 0 then Inl ValueError
                 else
                   let points = replicate (nat (2 * (n1 g + n2 g) + 1)) (0, 0);
                       x0 = 0;
                       y0 = ra_cutter g - internal_gear.rc g
                   in bnd (getitem (t g) 1) (\<lambda>t_1.
                      bnd (linspace_open t_1 (pi / 2) (n2 g)) (\<lambda>us.
                      bnd (slice_assign points (n1 g) (n1 g + n2 g)
                             (InternalGear_get_transition_points fsolve E x0 y0
                                (internal_gear.rc g) ratio us))
                        (\<lambda>points.
                      bnd (setitem points (n1 g + n2 g) (0, 0.5 * df11)) (\<lambda>points.
                      bnd (involute_part fsolve g (n1 g) points) (\<lambda>points.
                      bnd (mirror_reversed (n1 g + n2 g) points) (\<lambda>points.
                        Inr (points, g)))))))
               else
                 if 2 * (n1 g + n2 g + nf g) + 1 < 0 then Inl ValueError
                 else
                   let points = replicate (nat (2 * (n1 g + n2 g + nf g) + 1)) (0, 0);
                       t' = fsolve (fillet_func (rb_cutter g) (etab g) (internal_gear.rc g)
                                      (ra_cutter g))
                              [1, 0.75 * pi, 0, ra_cutter g];
                       g' = g\<lparr>t := t'\<rparr>
                   in bnd (getitem t' 2) (\<lambda>x0.
                      bnd (getitem t' 3) (\<lambda>y0.
                      bnd (getitem t' 1) (\<lambda>t4.
                      bnd (linspace_open t4 (pi / 2 - arctan (x0 / y0)) (n2 g)) (\<lambda>us.
                      bnd (slice_assign points (n1 g + 1) (n1 g + n2 g + 1)
                             (InternalGear_get_transition_points fsolve E x0 y0
                                (internal_gear.rc g) ratio us))
                        (\<lambda>points.
                      bnd (linspace_open (pi / 2 - arctan (x0 / y0)) (pi / 2) (nf g - 1)) (\<lambda>us.
                      bnd (slice_assign points (n1 g + n2 g + 1) (n1 g + n2 g + nf g)
                             (InternalGear_get_transition_points fsolve E 0 0
                                (ra_cutter g) ratio us))
                        (\<lambda>points.
                      bnd (setitem points (n1 g + n2 g + nf g) (0, 0.5 * df11)) (\<lambda>points.
                      bnd (involute_part fsolve g (n1 g + 1) points) (\<lambda>points.
                      bnd (getitem points (n1 g - 1)) (\<lambda>pa.
                      bnd (getitem points (n1 g + 1)) (\<lambda>pb.
                      bnd (setitem points (n1 g)
                             ((fst pa + fst pb) / 2, (snd pa + snd pb) / 2))
                        (\<lambda>points.
                      bnd (mirror_reversed (n1 g + n2 g + nf g) points) (\<lambda>points.
                        Inr (points, g'))))))))))))))))"

subsection \<open>InternalGear.generate_mesh\<close>

text \<open>
  \<^verbatim>\<open>generate_mesh\<close> reads \<^verbatim>\<open>outer_diam\<close> without binding it (the field is
  \<^verbatim>\<open>self.outer_diam\<close>), so it is looked up among the module's globals \<open>G\<close>; before
  that, \<^verbatim>\<open>2 * pi / z\<close> divides plain Python numbers.  As for the external gear, \<open>qm\<close>
  is what the mesh generator returns in this run.
\<close>

text \<open>\<^verbatim>\<open>edge_node_num\<close> as the two branches compute it.\<close>

definition edge_node_num_int14 :: "int \<Rightarrow> int \<Rightarrow> int \<Rightarrow> int \<Rightarrow> int" where
  "edge_node_num_int14 n1' n2' n3' na' = 4 * (n1' + n2' - 2) + 8 * (na' - 1) + 3 * (n3' - 1)"

definition edge_node_num_int18 :: "int \<Rightarrow> int \<Rightarrow> int \<Rightarrow> int \<Rightarrow> int \<Rightarrow> int" where
  "edge_node_num_int18 n1' n2' n3' na' nf' =
     4 * (n1' + n2' + nf' - 3) + 8 * (na' - 1) + 5 * (n3' - 1)"

definition internal_tail ::
  "(string \<Rightarrow> pyval option) \<Rightarrow> error + mesh \<Rightarrow> int \<Rightarrow> bool \<Rightarrow> internal_gear
   \<Rightarrow> error + mesh \<times> internal_gear" where
  "internal_tail G qm K uses_nf g =
    (if z g = 0 then Inl ZeroDivisionError
     else
      (case G ''outer_diam'' of
         None \<Rightarrow> Inl NameError
       | Some od \<Rightarrow>
          if \<not> is_number od then Inl TypeError
          else if na g + 1 < 0 \<or> n1 g + 1 < 0 \<or> n2 g + 1 < 0 \<or> n3 g + 1 < 0
                  \<or> (uses_nf \<and> nf g + 1 < 0)
          then Inl ValueError
          else
            bnd qm (\<lambda>quad_mesh.
            bnd (linspace_open 0 (2 * pi) (z g)) (\<lambda>rot_phi.
            bnd (stitch_internal K (n1 g) (n2 g) (n3 g) rot_phi (z g) quad_mesh)
              (\<lambda>t_mesh. Inr (t_mesh, g\<lparr>mesh := Some t_mesh\<rparr>))))))"

definition InternalGear_generate_mesh ::
  "(string \<Rightarrow> pyval option) \<Rightarrow> solver \<Rightarrow> error + mesh \<Rightarrow> internal_gear
   \<Rightarrow> error + mesh \<times> internal_gear" where
  "InternalGear_generate_mesh G fsolve qm g =
     bnd (getitem (t g) 2) (\<lambda>t_2.
     if internal_gear.rc g \<ge> t_2
     then bnd (InternalGear_get_profile_points fsolve g)
            (\<lambda>(points, g'). internal_tail G qm 14 False g')
     else bnd (InternalGear_get_profile_points fsolve g)
            (\<lambda>(points, g'). internal_tail G qm 18 True g'))"

text \<open>What the stitching of either topology expects of the single-tooth mesh.\<close>

definition InternalGear_contract :: "real \<Rightarrow> internal_gear \<Rightarrow> mesh \<Rightarrow> bool" where
  "InternalGear_contract t_2 g qm =
    (if internal_gear.rc g \<ge> t_2
     then generator_contract 14 (edge_node_num_int14 (n1 g) (n2 g) (n3 g) (na g)) qm
     else generator_contract 18 (edge_node_num_int18 (n1 g) (n2 g) (n3 g) (na g) (nf g)) qm)"

section \<open>Properties\<close>

subsection \<open>Auxiliary facts\<close>

lemma bnd_Inr_iff: "bnd m f = Inr y \<longleftrightarrow> (\<exists>x. m = Inr x \<and> f x = Inr y)"
  by (cases m) (auto simp: bnd_def)

lemma bnd_simps [simp]: "bnd (Inl e) f = Inl e" "bnd (Inr x) f = f x"
  by (simp_all add: bnd_def)

lemma two_pi_less_20: "2 * pi < 20"
  using pi_less_4 by linarith

lemma cos_pi_9: "cos (pi / 9) > 7 / 8"
proof (rule ccontr)
  assume "\<not> 7 / 8 < cos (pi / 9)"
  then have le: "cos (pi / 9) \<le> 7 / 8" by simp
  have ge: "0 \<le> cos (pi / 9)"
    by (rule cos_ge_zero) (use pi_gt_zero in linarith)+
  define c where "c = cos (pi / 9)"
  have c2: "c * c \<le> (7 / 8) * (7 / 8)"
    using le ge unfolding c_def by (intro mult_mono) auto
  have "c * (4 * (c * c) - 3) \<le> c * (1 / 16)"
    using c2 ge unfolding c_def by (intro mult_left_mono) auto
  moreover have "cos (3 * (pi / 9)) = 4 * c ^ 3 - 3 * c"
    unfolding c_def by (rule cos_treble_cos)
  moreover have "cos (3 * (pi / 9)) = 1 / 2"
    using cos_60 by simp
  ultimately have "1 / 2 \<le> c / 16"
    by (simp add: power3_eq_cube algebra_simps)
  with le show False unfolding c_def by simp
qed

lemma arctan_tan_pi_9: "arctan (tan (pi / 9)) = pi / 9"
  by (rule arctan_tan) (use pi_gt_zero in linarith)+


text \<open>
  The double \<^verbatim>\<open>2 * pi\<close> lies below \<open>2 * \<pi>\<close>.  The bound on \<open>\<pi>\<close> comes from Machin's
  formula and the partial sums of the arctangent series, which enclose its value.
\<close>

lemma arctan_partial_sums:
  fixes x :: real
  assumes x: "0 \<le> x" "x \<le> 1"
  shows "(\<Sum>k<2 * n. (- 1) ^ k * (1 / real (k * 2 + 1) * x ^ (k * 2 + 1))) \<le> arctan x"
    and "arctan x \<le> (\<Sum>k<2 * n + 1. (- 1) ^ k * (1 / real (k * 2 + 1) * x ^ (k * 2 + 1)))"
proof -
  define a where "a = (\<lambda>k. 1 / real (k * 2 + 1) * x ^ (k * 2 + 1))"
  have ax: "\<bar>x\<bar> \<le> 1" using x by simp
  have lim: "a \<longlonglongrightarrow> 0" unfolding a_def by (rule zeroseq_arctan_series [OF ax])
  have pos: "0 \<le> a k" for k unfolding a_def using x by simp
  have dec: "a (Suc k) \<le> a k" for k
  proof -
    have "1 / real (Suc k * 2 + 1) \<le> 1 / real (k * 2 + 1)" by (simp add: field_simps)
    moreover have "x ^ (Suc k * 2 + 1) \<le> x ^ (k * 2 + 1)"
      using x by (intro power_decreasing) simp_all
    ultimately show ?thesis unfolding a_def using x by (intro mult_mono) simp_all
  qed
  have s: "arctan x = (\<Sum>k. (- 1) ^ k * a k)" unfolding a_def by (rule arctan_series [OF ax])
  from summable_Leibniz'(2) [OF lim pos dec, of n]
  show "(\<Sum>k<2 * n. (- 1) ^ k * (1 / real (k * 2 + 1) * x ^ (k * 2 + 1))) \<le> arctan x"
    unfolding s a_def .
  from summable_Leibniz'(4) [OF lim pos dec, of n]
  show "arctan x \<le> (\<Sum>k<2 * n + 1. (- 1) ^ k * (1 / real (k * 2 + 1) * x ^ (k * 2 + 1)))"
    unfolding s a_def .
qed

lemma pi_lower: "884279719003555 / 281474976710656 < pi"
proof -
  have m: "pi = 16 * arctan (1 / 5) - 4 * arctan (1 / 239)" using machin by simp
  have l: "(\<Sum>k<2 * 6. (- 1) ^ k * (1 / real (k * 2 + 1) * (1 / 5) ^ (k * 2 + 1))) \<le> arctan (1 / 5)"
    by (rule arctan_partial_sums) simp_all
  have u: "arctan (1 / 239) \<le> (\<Sum>k<2 * 1 + 1. (- 1) ^ k * (1 / real (k * 2 + 1) * (1 / 239) ^ (k * 2 + 1)))"
    by (rule arctan_partial_sums) simp_all
  show ?thesis unfolding m using l u by (simp add: eval_nat_numeral)
qed

lemma two_pi_float_less: "two_pi_float < 2 * pi"
  using pi_lower by (simp add: two_pi_float_def)

lemma two_pi_float_bounds: "6 < two_pi_float" "two_pi_float < 7"
  by (simp_all add: two_pi_float_def)

subsection \<open>Construction\<close>

lemma Gear_init_Inr:
  "Gear_init m zz a b x h c rr j k1 k2 k3 ka kf = Inr g \<Longrightarrow>
     isinstance_int zz \<and> is_number m \<and> is_number a \<and> is_number b \<and> is_number x \<and>
     alpha_n g = (if float_of a < two_pi_float then float_of a else radians (float_of a)) \<and>
     beta g = (if float_of b < two_pi_float then float_of b else radians (float_of b)) \<and>
     m_n g = float_of m \<and> z g = int_of_pyval zz \<and> x_n g = float_of x \<and>
     hac g = h \<and> cc g = c \<and> rcc g = rr \<and>
     n1 g = k1 \<and> n2 g = k2 \<and> n3 g = k3 \<and> na g = ka \<and> nf g = kf \<and>
     x_t g = x_n g / cos (beta g) \<and> m_t g = m_n g / cos (beta g) \<and>
     alpha_t g = arctan (tan (alpha_n g) / cos (beta g)) \<and>
     d g = m_t g * real_of_int (z g) \<and> r g = d g / 2 \<and>
     d_b g = d g * cos (alpha_t g) \<and> r_b g = d_b g / 2"
  by (auto simp: Gear_init_def Let_def split: if_splits)

lemma Gear_init_derived:
  assumes "Gear_init m zz a b x h c rr j k1 k2 k3 ka kf = Inr g"
  shows "r g = m_n g / cos (beta g) * real_of_int (z g) / 2"
    and "r_b g = r g * cos (alpha_t g)"
    and "d g = 2 * r g"
  using assms by (auto simp: Gear_init_def Let_def split: if_splits)

lemma isinstance_int_not_float: "isinstance_int zz \<Longrightarrow> \<not> isinstance_float zz"
  by (cases zz) simp_all

lemma Gear_init_returns:
  assumes "isinstance_int zz" "is_number m" "is_number a" "is_number b" "is_number x"
  shows "\<exists>g. Gear_init m zz a b x h c rr j k1 k2 k3 ka kf = Inr g"
  using assms by (simp add: Gear_init_def Let_def isinstance_int_not_float)

lemma ExternalGear_init_Inr:
  "ExternalGear_init m zz a b x h c rr j k1 k2 k3 ka kf ch ind = Inr e \<Longrightarrow>
   \<exists>g. Gear_init m zz a b x h c rr j k1 k2 k3 ka kf = Inr g \<and>
        alpha_n e = alpha_n g \<and> beta e = beta g"
  by (auto simp: ExternalGear_init_def bnd_Inr_iff Let_def gear.defs external_gear.defs)

lemma InternalGear_init_Inr:
  "InternalGear_init fsolve m zz a b x h c rr j k1 k2 k3 ka kf od zc xc = Inr i \<Longrightarrow>
   \<exists>g. Gear_init m zz a b x h c rr j k1 k2 k3 ka kf = Inr g \<and>
        alpha_n i = alpha_n g \<and> beta i = beta g"
  by (auto simp: InternalGear_init_def bnd_Inr_iff Let_def gear.defs internal_gear.defs
        split: if_splits)

lemma ExternalGear_init_returns:
  assumes "Gear_init m zz a b x h c rr j k1 k2 k3 ka kf = Inr g"
  shows "\<exists>e. ExternalGear_init m zz a b x h c rr j k1 k2 k3 ka kf ch ind = Inr e"
  using assms by (simp add: ExternalGear_init_def Let_def)

lemma InternalGear_init_returns:
  assumes "Gear_init m zz a b x h c rr j k1 k2 k3 ka kf = Inr g" and "zc \<noteq> 0"
  shows "\<exists>i. InternalGear_init fsolve m zz a b x h c rr j k1 k2 k3 ka kf od zc xc = Inr i"
  using assms by (simp add: InternalGear_init_def Let_def)

text \<open>
  Claim C10, as amended. The constant the angles are compared with is the double
  \<^verbatim>\<open>2 * pi\<close>, which is less than \<open>2 * \<pi>\<close>.  For an int tooth count and numeric
  arguments each of the three constructors returns a gear (the internal one when the
  cutter has teeth), and in it each angle field (the normal pressure angle \<open>alpha_n\<close> and
  the helix angle \<open>beta\<close>) is the argument unchanged when the argument is strictly below
  that constant and the argument multiplied by \<open>\<pi> / 180\<close> when it is at least that
  constant; so every angle of at least \<open>2 * \<pi>\<close> is converted.
\<close>

theorem angle_normalisation:
  "two_pi_float < 2 * pi \<and>
   (isinstance_int zz \<and> is_number m \<and> is_number a \<and> is_number b \<and> is_number x \<longrightarrow>
     (\<exists>g. Gear_init m zz a b x h c rr j k1 k2 k3 ka kf = Inr g \<and>
        alpha_n g = (if float_of a < two_pi_float then float_of a else float_of a * (pi / 180)) \<and>
        beta g = (if float_of b < two_pi_float then float_of b else float_of b * (pi / 180))) \<and>
     (\<exists>e. ExternalGear_init m zz a b x h c rr j k1 k2 k3 ka kf ch ind = Inr e \<and>
        alpha_n e = (if float_of a < two_pi_float then float_of a else float_of a * (pi / 180)) \<and>
        beta e = (if float_of b < two_pi_float then float_of b else float_of b * (pi / 180))) \<and>
     (zc \<noteq> 0 \<longrightarrow>
       (\<exists>i. InternalGear_init fsolve m zz a b x h c rr j k1 k2 k3 ka kf od zc xc = Inr i \<and>
          alpha_n i = (if float_of a < two_pi_float then float_of a else float_of a * (pi / 180)) \<and>
          beta i = (if float_of b < two_pi_float then float_of b
                    else float_of b * (pi / 180)))))"
proof (intro conjI impI)
  show "two_pi_float < 2 * pi" by (rule two_pi_float_less)
next
  assume a: "isinstance_int zz \<and> is_number m \<and> is_number a \<and> is_number b \<and> is_number x"
  then obtain g where g: "Gear_init m zz a b x h c rr j k1 k2 k3 ka kf = Inr g"
    using Gear_init_returns by blast
  from Gear_init_Inr [OF g]
  show "\<exists>g. Gear_init m zz a b x h c rr j k1 k2 k3 ka kf = Inr g \<and>
        alpha_n g = (if float_of a < two_pi_float then float_of a else float_of a * (pi / 180)) \<and>
        beta g = (if float_of b < two_pi_float then float_of b else float_of b * (pi / 180))"
    using g by (auto simp: radians_def)
next
  assume a: "isinstance_int zz \<and> is_number m \<and> is_number a \<and> is_number b \<and> is_number x"
  then obtain g where g: "Gear_init m zz a b x h c rr j k1 k2 k3 ka kf = Inr g"
    using Gear_init_returns by blast
  from ExternalGear_init_returns [OF g] obtain e where
    e: "ExternalGear_init m zz a b x h c rr j k1 k2 k3 ka kf ch ind = Inr e" by blast
  from ExternalGear_init_Inr [OF e] g have "alpha_n e = alpha_n g" "beta e = beta g" by auto
  with Gear_init_Inr [OF g] e
  show "\<exists>e. ExternalGear_init m zz a b x h c rr j k1 k2 k3 ka kf ch ind = Inr e \<and>
        alpha_n e = (if float_of a < two_pi_float then float_of a else float_of a * (pi / 180)) \<and>
        beta e = (if float_of b < two_pi_float then float_of b else float_of b * (pi / 180))"
    by (auto simp: radians_def)
next
  assume a: "isinstance_int zz \<and> is_number m \<and> is_number a \<and> is_number b \<and> is_number x"
    and zc: "zc \<noteq> 0"
  from a obtain g where g: "Gear_init m zz a b x h c rr j k1 k2 k3 ka kf = Inr g"
    using Gear_init_returns by blast
  from InternalGear_init_returns [OF g zc] obtain i where
    i: "InternalGear_init fsolve m zz a b x h c rr j k1 k2 k3 ka kf od zc xc = Inr i" by blast
  from InternalGear_init_Inr [OF i] g have "alpha_n i = alpha_n g" "beta i = beta g" by auto
  with Gear_init_Inr [OF g] i
  show "\<exists>i. InternalGear_init fsolve m zz a b x h c rr j k1 k2 k3 ka kf od zc xc = Inr i \<and>
          alpha_n i = (if float_of a < two_pi_float then float_of a else float_of a * (pi / 180)) \<and>
          beta i = (if float_of b < two_pi_float then float_of b
                    else float_of b * (pi / 180))"
    by (auto simp: radians_def)
qed

theorem angle_normalisation_witness:
  "(\<exists>g. Gear_init (PyInt 2) (PyInt 20) (PyInt 20) (PyFloat (1/3)) (PyInt 0) 1 (1/4) (38/100) 0
          5 5 5 3 3 = Inr g \<and> alpha_n g = pi / 9 \<and> beta g = 1 / 3) \<and>
   (\<exists>e. ExternalGear_init (PyInt 2) (PyInt 20) (PyFloat (1/5)) (PyInt 45) (PyInt 0) 1 (1/4)
          (38/100) 0 5 5 5 3 3 0 30 = Inr e \<and> alpha_n e = 1 / 5 \<and> beta e = pi / 4) \<and>
   (\<exists>i. InternalGear_init (\<lambda>f x0. x0) (PyInt 2) (PyInt 20)
          (PyFloat (884279719003555 / 140737488355328)) (PyInt 0) (PyInt 0) 1 (1/4) (38/100) 0
          5 5 5 3 3 60 10 0 = Inr i \<and>
        alpha_n i = 884279719003555 / 140737488355328 * (pi / 180) \<and> beta i = 0)"
  using
    angle_normalisation [of "PyInt 20" "PyInt 2" "PyInt 20" "PyFloat (1/3)" "PyInt 0"
       1 "1/4" "38/100" 0 5 5 5 3 3 0 30 10 "\<lambda>f x0. x0" 60 0]
    angle_normalisation [of "PyInt 20" "PyInt 2" "PyFloat (1/5)" "PyInt 45" "PyInt 0"
       1 "1/4" "38/100" 0 5 5 5 3 3 0 30 10 "\<lambda>f x0. x0" 60 0]
    angle_normalisation [of "PyInt 20" "PyInt 2" "PyFloat (884279719003555 / 140737488355328)"
       "PyInt 0" "PyInt 0" 1 "1/4" "38/100" 0 5 5 5 3 3 0 30 10 "\<lambda>f x0. x0" 60 0]
  by (simp add: two_pi_float_def)

text \<open>
  Claim C10 as stated fails at the double \<^verbatim>\<open>2 * pi\<close> itself: this angle is strictly less
  than \<open>2 * \<pi>\<close>, and it is stored multiplied by \<open>\<pi> / 180\<close>, not unchanged.
\<close>

theorem angle_normalisation_counterexample:
  "884279719003555 / 140737488355328 < 2 * pi \<and>
   \<not> isl (Gear_init (PyInt 2) (PyInt 20) (PyFloat (884279719003555 / 140737488355328))
            (PyInt 0) (PyInt 0) 1 (1/4) (38/100) 0 5 5 5 3 3) \<and>
   alpha_n (projr (Gear_init (PyInt 2) (PyInt 20) (PyFloat (884279719003555 / 140737488355328))
                     (PyInt 0) (PyInt 0) 1 (1/4) (38/100) 0 5 5 5 3 3))
     = 884279719003555 / 140737488355328 * (pi / 180) \<and>
   alpha_n (projr (Gear_init (PyInt 2) (PyInt 20) (PyFloat (884279719003555 / 140737488355328))
                     (PyInt 0) (PyInt 0) 1 (1/4) (38/100) 0 5 5 5 3 3))
     \<noteq> 884279719003555 / 140737488355328"
proof -
  have "pi \<noteq> 180" using pi_less_4 by linarith
  then show ?thesis
    using two_pi_float_less
    by (simp add: Gear_init_def Let_def two_pi_float_def radians_def)
qed




text \<open>
  Claim C4, as amended. For an external gear with positive module, positive tooth count,
  a helix angle of positive cosine and non-negative addendum and dedendum heights
  (\<open>0 \<le> hac + x_t\<close> and \<open>x_t \<le> hac + cc\<close>), the radii satisfy
  \<open>r_b \<le> r\<close> and \<open>r_f \<le> r \<le> r_a\<close>; for an internal gear with positive module and
  \<open>x_n \<le> hac\<close>, \<open>0 \<le> hac + cc + x_n\<close> they satisfy \<open>r_a \<le> r \<le> r_f\<close>.
  No order between the base radius and the root radius is claimed.
\<close>

theorem radii_ordering:
  "(ExternalGear_init m zz a b x h c rr j k1 k2 k3 ka kf ch ind = Inr e \<longrightarrow>
      0 < m_n e \<longrightarrow> 0 < z e \<longrightarrow> 0 < cos (beta e) \<longrightarrow>
      0 \<le> hac e + x_t e \<longrightarrow> x_t e \<le> hac e + cc e \<longrightarrow>
      r_b e \<le> r e \<and> external_gear.r_f e \<le> r e \<and> r e \<le> external_gear.r_a e) \<and>
   (InternalGear_init fsolve m zz a b x h c rr j k1 k2 k3 ka kf od zc xc = Inr i \<longrightarrow>
      0 < m_n i \<longrightarrow> x_n i \<le> hac i \<longrightarrow> 0 \<le> hac i + cc i + x_n i \<longrightarrow>
      internal_gear.r_a i \<le> r i \<and> r i \<le> internal_gear.r_f i)"
proof (intro conjI impI)
  assume e: "ExternalGear_init m zz a b x h c rr j k1 k2 k3 ka kf ch ind = Inr e"
    and pos: "0 < m_n e" "0 < z e" "0 < cos (beta e)"
    and add: "0 \<le> hac e + x_t e" and ded: "x_t e \<le> hac e + cc e"
  from e obtain g where g: "Gear_init m zz a b x h c rr j k1 k2 k3 ka kf = Inr g"
    and eg: "r e = r g" "r_b e = r_b g" "m_n e = m_n g" "z e = z g" "beta e = beta g"
       "alpha_t e = alpha_t g"
    and ra: "external_gear.r_a e = (d g + 2 * (m_n g * (hac e + x_t e))) / 2"
    and rf: "external_gear.r_f e = (d g - 2 * (m_n g * (hac e + cc e - x_t e))) / 2"
    by (auto simp: ExternalGear_init_def bnd_Inr_iff Let_def gear.defs external_gear.defs)
  note G = Gear_init_derived [OF g]
  have "0 \<le> m_n g / cos (beta g) * real_of_int (z g)"
    using pos eg by (intro mult_nonneg_nonneg divide_nonneg_pos) auto
  then have r0: "0 \<le> r g" using G(1) by simp
  have "r g * cos (alpha_t g) \<le> r g * 1" using r0 by (intro mult_left_mono) auto
  then show "r_b e \<le> r e" using eg G(2) by simp
  have "0 \<le> m_n g * (hac e + cc e - x_t e)" using pos ded eg by simp
  then show "external_gear.r_f e \<le> r e" using rf G eg by simp
  have "0 \<le> m_n g * (hac e + x_t e)" using pos add eg by simp
  then show "r e \<le> external_gear.r_a e" using ra G eg by simp
next
  assume i: "InternalGear_init fsolve m zz a b x h c rr j k1 k2 k3 ka kf od zc xc = Inr i"
    and pos: "0 < m_n i" and add: "x_n i \<le> hac i" and ded: "0 \<le> hac i + cc i + x_n i"
  from i obtain g where g: "Gear_init m zz a b x h c rr j k1 k2 k3 ka kf = Inr g"
    and ig: "r i = r g" "m_n i = m_n g"
    and ra: "internal_gear.r_a i = (d g - 2 * (m_n g * (hac i - x_n i))) / 2"
    and rf: "internal_gear.r_f i = (d g + 2 * (m_n g * (hac i + cc i + x_n i))) / 2"
    by (auto simp: InternalGear_init_def bnd_Inr_iff Let_def gear.defs internal_gear.defs
          split: if_splits)
  note G = Gear_init_derived [OF g]
  have "0 \<le> m_n g * (hac i - x_n i)" using pos add ig by simp
  then show "internal_gear.r_a i \<le> r i" using ra G ig by simp
  have "0 \<le> m_n g * (hac i + cc i + x_n i)" using pos ded ig by simp
  then show "r i \<le> internal_gear.r_f i" using rf G ig by simp
qed

theorem radii_ordering_witness:
  "(\<exists>e. ExternalGear_init (PyInt 2) (PyInt 20) (PyInt 20) (PyInt 0) (PyInt 0) 1 (1/4) (38/100) 0 5 5 5 3 3 0 30 = Inr e \<and>
      r_b e \<le> r e \<and> external_gear.r_f e \<le> r e \<and> r e \<le> external_gear.r_a e) \<and>
   (\<exists>i. InternalGear_init (\<lambda>f x0. x0) (PyInt 2) (PyInt 20) (PyInt 20) (PyInt 0) (PyInt 0) 1 (1/4) (38/100) 0 5 5 5 3 3 60 10 0
          = Inr i \<and> internal_gear.r_a i \<le> r i \<and> r i \<le> internal_gear.r_f i)"
proof -
  obtain e where e: "ExternalGear_init (PyInt 2) (PyInt 20) (PyInt 20) (PyInt 0) (PyInt 0) 1 (1/4) (38/100) 0 5 5 5 3 3 0 30 = Inr e"
    by (simp add: ExternalGear_init_def Gear_init_def Let_def)
  obtain i where i: "InternalGear_init (\<lambda>f x0. x0) (PyInt 2) (PyInt 20) (PyInt 20) (PyInt 0) (PyInt 0) 1 (1/4) (38/100) 0 5 5 5 3 3 60 10 0
          = Inr i"
    by (simp add: InternalGear_init_def Gear_init_def Let_def)
  have n: "\<not> (20::real) < two_pi_float" "(0::real) < two_pi_float"
    by (simp_all add: two_pi_float_def)
  have fe: "m_n e = 2" "z e = 20" "beta e = 0" "hac e = 1" "x_t e = 0" "cc e = 1/4"
    using e n by (auto simp: ExternalGear_init_def Gear_init_def Let_def gear.defs external_gear.defs)
  have fi: "m_n i = 2" "x_n i = 0" "hac i = 1" "cc i = 1/4"
    using i n by (auto simp: InternalGear_init_def Gear_init_def Let_def gear.defs internal_gear.defs)
  show ?thesis
    using e i fe fi
      radii_ordering [of "PyInt 2" "PyInt 20" "PyInt 20" "PyInt 0" "PyInt 0" 1 "1/4" "38/100" 0 5 5 5 3 3 0 30 e
         "\<lambda>f x0. x0" 60 10 0 i]
    by simp
qed

text \<open>
  Claim C4 as stated fails: for module 2, 20 teeth, pressure angle 20 degrees, no helix
  and no shift, with \<open>hac = 1\<close> and \<open>cc = 1/4\<close>, the base radius \<open>20 * cos (pi / 9)\<close>
  exceeds the root radius \<open>17.5\<close>.
\<close>

theorem radii_ordering_counterexample:
  "\<not> isl (ExternalGear_init (PyInt 2) (PyInt 20) (PyInt 20) (PyInt 0) (PyInt 0) 1 (1/4) (38/100) 0 5 5 5 3 3 0 30) \<and>
   \<not> r_b (projr (ExternalGear_init (PyInt 2) (PyInt 20) (PyInt 20) (PyInt 0) (PyInt 0) 1 (1/4) (38/100) 0 5 5 5 3 3 0 30))
      \<le> external_gear.r_f
           (projr (ExternalGear_init (PyInt 2) (PyInt 20) (PyInt 20) (PyInt 0) (PyInt 0) 1 (1/4) (38/100) 0 5 5 5 3 3 0 30))"
proof -
  have n: "\<not> (20::real) < two_pi_float" "(0::real) < two_pi_float"
    by (simp_all add: two_pi_float_def)
  have "(20::real) * (pi / 180) = pi / 9" by simp
  then show ?thesis
    using cos_pi_9 n
    by (simp add: ExternalGear_init_def Gear_init_def Let_def gear.defs external_gear.defs
          radians_def arctan_tan_pi_9)
qed

subsection \<open>List operations\<close>

lemma py_index_in: "0 \<le> i \<Longrightarrow> i < int n \<Longrightarrow> py_index n i = Inr (nat i)"
  by (simp add: py_index_def)

lemma getitem_in: "0 \<le> i \<Longrightarrow> i < int (length xs) \<Longrightarrow> getitem xs i = Inr (elt xs i)"
  by (simp add: getitem_def py_index_in elt_def)

lemma getitem_Inr: "getitem xs i = Inr v \<Longrightarrow> - int (length xs) \<le> i \<and> i < int (length xs)"
  by (auto simp: getitem_def py_index_def split: if_splits)

lemma copy_item_in:
  "0 \<le> dst \<Longrightarrow> dst < int (length xs) \<Longrightarrow> 0 \<le> src \<Longrightarrow> src < int (length ys) \<Longrightarrow>
   copy_item xs dst ys src = Inr (xs[nat dst := elt ys src])"
  by (simp add: copy_item_def getitem_in setitem_def py_index_in)

lemma elt_list_update:
  "0 \<le> dst \<Longrightarrow> 0 \<le> i \<Longrightarrow> i < int (length xs) \<Longrightarrow>
   elt (xs[nat dst := v]) i = (if i = dst then v else elt xs i)"
  by (auto simp: elt_def nth_list_update)

lemma slice_bound_in: "0 \<le> i \<Longrightarrow> i \<le> int n \<Longrightarrow> slice_bound n i = nat i"
  by (simp add: slice_bound_def)

lemma length_slice:
  "0 \<le> a \<Longrightarrow> a \<le> int (length xs) \<Longrightarrow> 0 \<le> b \<Longrightarrow> b \<le> int (length xs) \<Longrightarrow>
   length (slice xs a b) = nat (b - a)"
  by (simp add: slice_def slice_bound_in Let_def)

lemma length_slice_from:
  "0 \<le> a \<Longrightarrow> a \<le> int (length xs) \<Longrightarrow> length (slice_from xs a) = nat (int (length xs) - a)"
  by (simp add: slice_from_def slice_bound_in)

lemma elt_slice:
  "0 \<le> a \<Longrightarrow> a \<le> int (length xs) \<Longrightarrow> 0 \<le> b \<Longrightarrow> b \<le> int (length xs) \<Longrightarrow>
   0 \<le> i \<Longrightarrow> i < b - a \<Longrightarrow> elt (slice xs a b) i = elt xs (a + i)"
  by (simp add: slice_def slice_bound_in Let_def elt_def nat_add_distrib) 

lemma elt_map_upt: "0 \<le> i \<Longrightarrow> i < int n \<Longrightarrow> elt (map f [0..<n]) i = f (nat i)"
  by (simp add: elt_def)

lemma slice_assign_in:
  assumes "0 \<le> a" "a \<le> b" "b \<le> int (length xs)" "int (length ys) = b - a"
  shows "\<exists>zs. slice_assign xs a b ys = Inr zs \<and> length zs = length xs \<and>
           (\<forall>i. 0 \<le> i \<and> i < int (length xs) \<longrightarrow>
              elt zs i = (if a \<le> i \<and> i < b then elt ys (i - a) else elt xs i))"
proof -
  have lo: "slice_bound (length xs) a = nat a" and hi: "slice_bound (length xs) b = nat b"
    using assms by (simp_all add: slice_bound_in)
  have len: "length ys = nat b - nat a" using assms by linarith
  show ?thesis
    using assms by (auto simp: slice_assign_def lo hi len Let_def elt_map_upt elt_def nat_diff_distrib)
qed

lemma length_slice_iadd [simp]: "length (slice_iadd xs a b k) = length xs"
  by (simp add: slice_iadd_def Let_def)

lemma length_slice_from_iadd [simp]: "length (slice_from_iadd xs a k) = length xs"
  by (simp add: slice_from_iadd_def Let_def)

lemma elt_slice_iadd:
  "0 \<le> a \<Longrightarrow> a \<le> int (length xs) \<Longrightarrow> 0 \<le> b \<Longrightarrow> b \<le> int (length xs) \<Longrightarrow>
   0 \<le> i \<Longrightarrow> i < int (length xs) \<Longrightarrow>
   elt (slice_iadd xs a b k) i = (if a \<le> i \<and> i < b then elt xs i + k else elt xs i)"
  by (auto simp: slice_iadd_def slice_bound_in Let_def elt_map_upt elt_def)

lemma elt_slice_from_iadd:
  "0 \<le> a \<Longrightarrow> a \<le> int (length xs) \<Longrightarrow> 0 \<le> i \<Longrightarrow> i < int (length xs) \<Longrightarrow>
   elt (slice_from_iadd xs a k) i = (if a \<le> i then elt xs i + k else elt xs i)"
  by (auto simp: slice_from_iadd_def slice_bound_in Let_def elt_map_upt elt_def)

lemma length_arange [simp]: "length (arange n) = n"
  by (simp add: arange_def)

lemma elt_arange: "0 \<le> i \<Longrightarrow> i < int n \<Longrightarrow> elt (arange n) i = i"
  by (simp add: arange_def elt_def)

lemma elt_update:
  "0 \<le> i \<Longrightarrow> i < int (length xs) \<Longrightarrow> elt (xs[k := v]) i = (if i = int k then v else elt xs i)"
  by (auto simp: elt_def nth_list_update)

lemma slice_assign_slice:
  assumes "0 \<le> a" "a \<le> b" "b \<le> int (length xs)" "0 \<le> c" "e \<le> int (length ys)"
    and "e - c = b - a"
  shows "\<exists>zs. slice_assign xs a b (slice ys c e) = Inr zs \<and> length zs = length xs \<and>
           (\<forall>i. 0 \<le> i \<and> i < int (length xs) \<longrightarrow>
              elt zs i = (if a \<le> i \<and> i < b then elt ys (i - a + c) else elt xs i))"
proof -
  have len: "int (length (slice ys c e)) = b - a"
    using assms by (simp add: length_slice)
  from slice_assign_in [OF assms(1-3) len] obtain zs where
    zs: "slice_assign xs a b (slice ys c e) = Inr zs" "length zs = length xs"
    and el: "\<And>i. 0 \<le> i \<Longrightarrow> i < int (length xs) \<Longrightarrow>
           elt zs i = (if a \<le> i \<and> i < b then elt (slice ys c e) (i - a) else elt xs i)"
    by blast
  have "elt zs i = (if a \<le> i \<and> i < b then elt ys (i - a + c) else elt xs i)"
    if "0 \<le> i" "i < int (length xs)" for i
  proof (cases "a \<le> i \<and> i < b")
    case True
    then have "elt (slice ys c e) (i - a) = elt ys (c + (i - a))"
      using assms by (intro elt_slice) auto
    then show ?thesis using el [OF that] True by (simp add: add.commute)
  next
    case False
    then show ?thesis using el [OF that] by auto
  qed
  with zs show ?thesis by blast
qed

subsection \<open>The stitching frame\<close>

lemma mapM_Inr:
  "mapM f xs = Inr ys \<Longrightarrow> list_all2 (\<lambda>x y. f x = Inr y) xs ys"
  by (induction xs arbitrary: ys) (auto simp: bnd_Inr_iff)

lemma take_cells_Inr:
  "take_cells tm cell = Inr new \<Longrightarrow>
   list_all2 (list_all2 (\<lambda>i v. getitem tm i = Inr v)) cell new"
  unfolding take_cells_def
  by (drule mapM_Inr) (erule list_all2_mono, erule mapM_Inr)

lemma list_all2_setR: "list_all2 Q xs ys \<Longrightarrow> y \<in> set ys \<Longrightarrow> \<exists>x \<in> set xs. Q x y"
  by (induction rule: list_all2_induct) auto

lemma take_cells_length: "take_cells tm cell = Inr new \<Longrightarrow> length new = length cell"
  by (drule take_cells_Inr) (rule list_all2_lengthD [symmetric])

lemma take_cells_within:
  assumes tc: "take_cells tm cell = Inr new" and tab: "index_table N M tm"
    and cw: "cells_within N cell"
  shows "cells_within M new"
  unfolding cells_within_def
proof (intro ballI)
  fix c v assume c: "c \<in> set new" and v: "v \<in> set c"
  from list_all2_setR [OF take_cells_Inr [OF tc] c] obtain c0 where c0: "c0 \<in> set cell"
    and l: "list_all2 (\<lambda>i v. getitem tm i = Inr v) c0 c"
    by blast
  from list_all2_setR [OF l v] obtain i where i: "i \<in> set c0" and g: "getitem tm i = Inr v"
    by blast
  from cw c0 i have r: "0 \<le> i" "i < N" by (auto simp: cells_within_def)
  with tab have "getitem tm i = Inr (elt tm i)" "0 \<le> elt tm i \<and> elt tm i < M"
    by (auto simp: index_table_def getitem_in)
  with g show "0 \<le> v \<and> v < M" by simp
qed

lemma cells_within_mono: "cells_within M c \<Longrightarrow> M \<le> M' \<Longrightarrow> cells_within M' c"
  by (fastforce simp: cells_within_def)

lemma cells_within_append:
  "cells_within M (xs @ ys) \<longleftrightarrow> cells_within M xs \<and> cells_within M ys"
  by (auto simp: cells_within_def)

lemma copy_loop_lengths:
  "copy_loop rm rot_phi temp ocell js (tm, node, cell) = Inr (tm', node', cell') \<Longrightarrow>
   length node' = length node + length js * length temp \<and>
   length cell' = length cell + length js * length ocell"
proof (induction js arbitrary: tm node cell)
  case Nil
  then show ?case by simp
next
  case (Cons j js)
  from Cons.prems obtain phi tm1 new where
    tc: "take_cells tm1 ocell = Inr new"
    and rest: "copy_loop rm rot_phi temp ocell js
                 (tm1, node @ map (rotate phi) temp, cell @ new) = Inr (tm', node', cell')"
    by (auto simp: bnd_Inr_iff)
  from Cons.IH [OF rest] take_cells_length [OF tc] show ?case by simp
qed

lemma stitch_Inr:
  assumes "stitch rl rm rlast temp temp_last rot_phi zz (tooth_node, tooth_cell) = Inr (node, cell)"
  shows "\<exists>tm1 phi1 new1 tm2 node2 cell2 phi3 tm3 new3.
    rl (arange (length tooth_node)) = Inr tm1 \<and>
    take_cells tm1 tooth_cell = Inr new1 \<and>
    copy_loop rm rot_phi temp tooth_cell [2..zz - 2]
                 (tm1, tooth_node @ map (rotate phi1) temp, tooth_cell @ new1)
               = Inr (tm2, node2, cell2) \<and>
    rlast tm2 = Inr tm3 \<and>
    take_cells tm3 tooth_cell = Inr new3 \<and>
    node = node2 @ map (rotate phi3) temp_last \<and> cell = cell2 @ new3"
  using assms unfolding stitch_def Let_def
  by (clarsimp simp: bnd_Inr_iff split: prod.splits) blast

lemma stitch_lengths:
  assumes "stitch rl rm rlast temp temp_last rot_phi zz (tooth_node, tooth_cell) = Inr (node, cell)"
  shows "length cell = (3 + nat (zz - 3)) * length tooth_cell"
    and "length node = length tooth_node + (1 + nat (zz - 3)) * length temp + length temp_last"
proof -
  from stitch_Inr [OF assms] obtain tm1 phi1 new1 tm2 node2 cell2 phi3 tm3 new3 where
    tc1: "take_cells tm1 tooth_cell = Inr new1"
    and loop: "copy_loop rm rot_phi temp tooth_cell [2..zz - 2]
                 (tm1, tooth_node @ map (rotate phi1) temp, tooth_cell @ new1)
               = Inr (tm2, node2, cell2)"
    and tc3: "take_cells tm3 tooth_cell = Inr new3"
    and res: "node = node2 @ map (rotate phi3) temp_last" "cell = cell2 @ new3"
    by blast
  have len: "length [2..zz - 2] = nat (zz - 3)" by simp
  from copy_loop_lengths [OF loop] take_cells_length [OF tc1] take_cells_length [OF tc3] res len
  show "length cell = (3 + nat (zz - 3)) * length tooth_cell"
    and "length node = length tooth_node + (1 + nat (zz - 3)) * length temp + length temp_last"
    by (simp_all add: algebra_simps)
qed

lemma copy_loop_inv:
  fixes N P :: int
  assumes mid: "\<And>k tm tm'. 1 \<le> k \<Longrightarrow> I k tm \<Longrightarrow> rm tm = Inr tm' \<Longrightarrow> I (k + 1) tm'"
    and bound: "\<And>k tm. 1 \<le> k \<Longrightarrow> I k tm \<Longrightarrow> index_table N (N + k * P) tm"
    and P: "int (length temp) = P" "0 \<le> P"
    and cw: "cells_within N ocell"
  shows "copy_loop rm rot_phi temp ocell js (tm, node, cell) = Inr (tm', node', cell') \<Longrightarrow>
     1 \<le> k \<Longrightarrow> I k tm \<Longrightarrow> int (length node) = N + k * P \<Longrightarrow>
     cells_within (N + k * P) cell \<Longrightarrow>
     I (k + int (length js)) tm' \<and>
     int (length node') = N + (k + int (length js)) * P \<and>
     cells_within (N + (k + int (length js)) * P) cell'"
proof (induction js arbitrary: tm node cell k)
  case Nil
  then show ?case by simp
next
  case (Cons j js)
  from Cons.prems(1) obtain phi tm1 new where
    rm: "rm tm = Inr tm1" and tc: "take_cells tm1 ocell = Inr new"
    and rest: "copy_loop rm rot_phi temp ocell js
                 (tm1, node @ map (rotate phi) temp, cell @ new) = Inr (tm', node', cell')"
    by (auto simp: bnd_Inr_iff)
  have I1: "I (k + 1) tm1" using mid [OF Cons.prems(2,3) rm] .
  have k1: "1 \<le> k + 1" using Cons.prems(2) by simp
  have le: "N + k * P \<le> N + (k + 1) * P" using P by (simp add: algebra_simps)
  have new: "cells_within (N + (k + 1) * P) new"
    using take_cells_within [OF tc bound [OF k1 I1] cw] .
  have cells: "cells_within (N + (k + 1) * P) (cell @ new)"
    using cells_within_mono [OF Cons.prems(5) le] new by (simp add: cells_within_append)
  have nodes: "int (length (node @ map (rotate phi) temp)) = N + (k + 1) * P"
    using Cons.prems(4) P by (simp add: algebra_simps)
  from Cons.IH [OF rest k1 I1 nodes cells] show ?case
    by (simp add: algebra_simps)
qed

lemma stitch_cells_within:
  fixes N P PL :: int
  assumes st: "stitch rl rm rlast temp temp_last rot_phi zz (tooth_node, tooth_cell) = Inr (node, cell)"
    and N: "int (length tooth_node) = N"
    and P: "int (length temp) = P" "0 \<le> P"
    and PL: "int (length temp_last) = PL" "0 \<le> PL"
    and cw: "cells_within N tooth_cell"
    and left: "\<And>tm. rl (arange (length tooth_node)) = Inr tm \<Longrightarrow> I 1 tm"
    and mid: "\<And>k tm tm'. 1 \<le> k \<Longrightarrow> I k tm \<Longrightarrow> rm tm = Inr tm' \<Longrightarrow> I (k + 1) tm'"
    and last: "\<And>k tm tm'. 1 \<le> k \<Longrightarrow> I k tm \<Longrightarrow> rlast tm = Inr tm' \<Longrightarrow>
                 index_table N (N + k * P + PL) tm'"
    and bound: "\<And>k tm. 1 \<le> k \<Longrightarrow> I k tm \<Longrightarrow> index_table N (N + k * P) tm"
  shows "cells_within (int (length node)) cell"
proof -
  from stitch_Inr [OF st] obtain tm1 phi1 new1 tm2 node2 cell2 phi3 tm3 new3 where
    rl: "rl (arange (length tooth_node)) = Inr tm1"
    and tc1: "take_cells tm1 tooth_cell = Inr new1"
    and loop: "copy_loop rm rot_phi temp tooth_cell [2..zz - 2]
                 (tm1, tooth_node @ map (rotate phi1) temp, tooth_cell @ new1)
               = Inr (tm2, node2, cell2)"
    and rlast: "rlast tm2 = Inr tm3"
    and tc3: "take_cells tm3 tooth_cell = Inr new3"
    and res: "node = node2 @ map (rotate phi3) temp_last" "cell = cell2 @ new3"
    by blast
  have I1: "I 1 tm1" using left [OF rl] .
  have b1: "index_table N (N + 1 * P) tm1" using bound [OF _ I1] by simp
  have c1: "cells_within (N + 1 * P) (tooth_cell @ new1)"
    using cells_within_mono [OF cw, of "N + 1 * P"] take_cells_within [OF tc1 b1 cw] P
    by (simp add: cells_within_append)
  have n1: "int (length (tooth_node @ map (rotate phi1) temp)) = N + 1 * P"
    using N P by simp
  define k where "k = 1 + int (length [2..zz - 2])"
  have k: "1 \<le> k" by (simp add: k_def)
  from copy_loop_inv [where I = I, OF mid bound P cw loop _ I1 n1 c1]
  have I2: "I k tm2" and n2: "int (length node2) = N + k * P"
    and c2: "cells_within (N + k * P) cell2"
    unfolding k_def by simp_all
  have t3: "index_table N (N + k * P + PL) tm3" using last [OF k I2 rlast] .
  have "cells_within (N + k * P + PL) (cell2 @ new3)"
    using cells_within_mono [OF c2, of "N + k * P + PL"] take_cells_within [OF tc3 t3 cw] PL
    by (simp add: cells_within_append)
  moreover have "int (length node) = N + k * P + PL"
    using res n2 PL by simp
  ultimately show ?thesis using res by simp
qed

subsection \<open>Remapping tables of the internal gear\<close>

lemma remap_internal_elt:
  assumes len: "int (length tm) = N" and K: "8 \<le> K" and S: "0 \<le> k1 + k2 + k3 - 3"
    and N: "K + 2 * (k1 + k2 + k3 - 3) \<le> N"
  shows "\<exists>tm'. remap_internal K k1 k2 k3 o1 o2 tm = Inr tm' \<and> int (length tm') = N \<and>
     (\<forall>i. 0 \<le> i \<and> i < N \<longrightarrow> elt tm' i =
        (if i < 4 then elt tm (i + 4)
         else if i < K then elt tm i + o1
         else if i < K + (k1 + k2 + k3 - 3) then elt tm (i + (k1 + k2 + k3 - 3))
         else elt tm i + o2))"
proof -
  define S where "S = k1 + k2 + k3 - 3"
  define tA where "tA = tm[0 := elt tm 4, 1 := elt tm 5, 2 := elt tm 6, 3 := elt tm 7]"
  have lenA: "int (length tA) = N" using len by (simp add: tA_def)
  have eltA: "elt tA i = (if i < 4 then elt tm (i + 4) else elt tm i)" if "0 \<le> i" "i < N" for i
  proof -
    have "i = 0 \<or> i = 1 \<or> i = 2 \<or> i = 3 \<or> 4 \<le> i" using that by linarith
    then show ?thesis using that len by (auto simp: tA_def elt_update)
  qed
  have c: "bnd (copy_item tm 0 tm 4) (\<lambda>tm. bnd (copy_item tm 1 tm 5) (\<lambda>tm.
            bnd (copy_item tm 2 tm 6) (\<lambda>tm. bnd (copy_item tm 3 tm 7) f))) = f tA" for f
    using len K S N by (simp add: copy_item_in tA_def elt_update)
  obtain tB where tB: "slice_assign tA K (K + S) (slice tA (K + S) (K + 2 * S)) = Inr tB"
    and lenB: "length tB = length tA"
    and eltB: "\<And>i. 0 \<le> i \<Longrightarrow> i < N \<Longrightarrow>
        elt tB i = (if K \<le> i \<and> i < K + S then elt tA (i - K + (K + S)) else elt tA i)"
    using slice_assign_slice [of K "K + S" tA "K + S" "K + 2 * S" tA] lenA K S N
    unfolding S_def by auto
  let ?r = "slice_from_iadd (slice_iadd tB 4 K o1) (K + S) o2"
  have "remap_internal K k1 k2 k3 o1 o2 tm = Inr ?r"
    unfolding remap_internal_def c S_def [symmetric] by (simp add: tB)
  moreover have "int (length ?r) = N" using lenA lenB by simp
  moreover have "elt ?r i =
        (if i < 4 then elt tm (i + 4)
         else if i < K then elt tm i + o1
         else if i < K + S then elt tm (i + S)
         else elt tm i + o2)" if "0 \<le> i" "i < N" for i
  proof -
    have "elt tA (i - K + (K + S)) = elt tm (i + S)" if "K \<le> i" "i < K + S"
      using eltA [of "i + S"] that K S N unfolding S_def by (simp add: algebra_simps)
    then show ?thesis
      using that lenA lenB K S N eltB [OF that] eltA [OF that] unfolding S_def
      by (auto simp: elt_slice_from_iadd elt_slice_iadd)
  qed
  ultimately show ?thesis unfolding S_def by blast
qed

lemma last_internal_elt:
  assumes len: "int (length tm) = N" and K: "8 \<le> K" and S: "0 \<le> k1 + k2 + k3 - 3"
    and N: "K + 2 * (k1 + k2 + k3 - 3) \<le> N"
  shows "\<exists>tm'. last_internal K k1 k2 k3 snn (arange (length tm)) tm = Inr tm' \<and>
     int (length tm') = N \<and>
     (\<forall>i. 0 \<le> i \<and> i < N \<longrightarrow> elt tm' i =
        (if i < 4 then elt tm (i + 4)
         else if i < 8 then i - 4
         else if i < K then elt tm i + (snn - 4)
         else if i < K + (k1 + k2 + k3 - 3) then elt tm (i + (k1 + k2 + k3 - 3))
         else if i < K + 2 * (k1 + k2 + k3 - 3) then i - (k1 + k2 + k3 - 3)
         else elt tm i + (snn - (k1 + k2 + k3 + 1))))"
proof -
  define S where "S = k1 + k2 + k3 - 3"
  define og where "og = arange (length tm)"
  have og: "int (length og) = N" "\<And>i. 0 \<le> i \<Longrightarrow> i < N \<Longrightarrow> elt og i = i"
    using len by (auto simp: og_def elt_arange)
  define tA where "tA = tm[0 := elt tm 4, 1 := elt tm 5, 2 := elt tm 6, 3 := elt tm 7,
                           4 := 0, 5 := 1, 6 := 2, 7 := 3]"
  have lenA: "int (length tA) = N" using len by (simp add: tA_def)
  have eltA: "elt tA i = (if i < 4 then elt tm (i + 4) else if i < 8 then i - 4 else elt tm i)"
    if "0 \<le> i" "i < N" for i
  proof -
    have "i = 0 \<or> i = 1 \<or> i = 2 \<or> i = 3 \<or> i = 4 \<or> i = 5 \<or> i = 6 \<or> i = 7 \<or> 8 \<le> i"
      using that by linarith
    then show ?thesis using that len by (auto simp: tA_def elt_update)
  qed
  have c: "bnd (copy_item tm 0 tm 4) (\<lambda>tm. bnd (copy_item tm 1 tm 5) (\<lambda>tm.
            bnd (copy_item tm 2 tm 6) (\<lambda>tm. bnd (copy_item tm 3 tm 7) (\<lambda>tm.
            bnd (copy_item tm 4 og 0) (\<lambda>tm. bnd (copy_item tm 5 og 1) (\<lambda>tm.
            bnd (copy_item tm 6 og 2) (\<lambda>tm. bnd (copy_item tm 7 og 3) f))))))) = f tA" for f
    using len K S N og by (simp add: copy_item_in tA_def elt_update)
  obtain tB where tB: "slice_assign tA K (K + S) (slice tA (K + S) (K + 2 * S)) = Inr tB"
    and lenB: "length tB = length tA"
    and eltB: "\<And>i. 0 \<le> i \<Longrightarrow> i < N \<Longrightarrow>
        elt tB i = (if K \<le> i \<and> i < K + S then elt tA (i - K + (K + S)) else elt tA i)"
    using slice_assign_slice [of K "K + S" tA "K + S" "K + 2 * S" tA] lenA K S N
    unfolding S_def by auto
  obtain tC where tC: "slice_assign tB (K + S) (K + 2 * S) (slice og K (K + S)) = Inr tC"
    and lenC: "length tC = length tB"
    and eltC: "\<And>i. 0 \<le> i \<Longrightarrow> i < N \<Longrightarrow>
        elt tC i = (if K + S \<le> i \<and> i < K + 2 * S then elt og (i - (K + S) + K) else elt tB i)"
    using slice_assign_slice [of "K + S" "K + 2 * S" tB K "K + S" og] lenA lenB og(1) K S N
    unfolding S_def by auto
  let ?r = "slice_from_iadd (slice_iadd tC 8 K (snn - 4)) (K + 2 * S) (snn - (k1 + k2 + k3 + 1))"
  have "last_internal K k1 k2 k3 snn (arange (length tm)) tm = Inr ?r"
    unfolding last_internal_def og_def [symmetric] c S_def [symmetric] by (simp add: tB tC)
  moreover have "int (length ?r) = N" using lenA lenB lenC by simp
  moreover have "elt ?r i =
        (if i < 4 then elt tm (i + 4)
         else if i < 8 then i - 4
         else if i < K then elt tm i + (snn - 4)
         else if i < K + S then elt tm (i + S)
         else if i < K + 2 * S then i - S
         else elt tm i + (snn - (k1 + k2 + k3 + 1)))" if "0 \<le> i" "i < N" for i
  proof -
    have 1: "elt tA (i - K + (K + S)) = elt tm (i + S)" if "K \<le> i" "i < K + S"
      using eltA [of "i + S"] that K S N unfolding S_def by (simp add: algebra_simps)
    have 2: "elt og (i - (K + S) + K) = i - S" if "K + S \<le> i" "i < K + 2 * S"
      using og(2) [of "i - S"] that K S N unfolding S_def by (simp add: algebra_simps)
    show ?thesis
      using that lenA lenB lenC K S N eltC [OF that] eltB [OF that] eltA [OF that] 1 2
      unfolding S_def
      by (auto simp: elt_slice_from_iadd elt_slice_iadd)
  qed
  ultimately show ?thesis unfolding S_def by blast
qed

lemma stitch_internal_within:
  assumes st: "stitch_internal K k1 k2 k3 rot_phi zz (tooth_node, tooth_cell) = Inr (node, cell)"
    and K: "8 \<le> K" and ks: "1 \<le> k1" "1 \<le> k2" "1 \<le> k3"
    and N: "K + 2 * (k1 + k2 + k3 - 3) \<le> int (length tooth_node)"
    and cw: "cells_within (int (length tooth_node)) tooth_cell"
  shows "cells_within (int (length node)) cell"
proof -
  define N where "N = int (length tooth_node)"
  define S where "S = k1 + k2 + k3 - 3"
  define P where "P = N - (k1 + k2 + k3 + 1)"
  define PL where "PL = N - 8 - 2 * S"
  define temp where "temp = slice tooth_node 4 K @ slice_from tooth_node (K + (k1 + k2 + k3 - 3))"
  define temp_last where
    "temp_last = slice tooth_node 8 K @ slice_from tooth_node (K + 2 * (k1 + k2 + k3 - 3))"
  define I where "I = (\<lambda>k tm. int (length tm) = N \<and>
      (\<forall>i. 0 \<le> i \<and> i < N \<longrightarrow> 0 \<le> elt tm i \<and> elt tm i < N + k * P) \<and>
      (\<forall>i. 4 \<le> i \<and> i < K \<longrightarrow> elt tm i = i + N - 4 + (k - 1) * P) \<and>
      (\<forall>i. K + S \<le> i \<and> i < N \<longrightarrow> elt tm i = i + k * P))"
  have S0: "0 \<le> S" and KN: "K + 2 * S \<le> N" using ks N by (simp_all add: S_def N_def)
  have PS: "P = N - S - 4" by (simp add: P_def S_def)
  have P0: "0 \<le> P" "K - 4 \<le> P" using KN S0 K by (simp_all add: PS)
  have lt: "int (length temp) = P"
    using K S0 KN unfolding temp_def S_def [symmetric] N_def PS
    by (simp add: length_slice length_slice_from)
  have ltl: "int (length temp_last) = PL"
    using K S0 KN unfolding temp_last_def S_def [symmetric] N_def PL_def
    by (simp add: length_slice length_slice_from)
  have PL0: "0 \<le> PL" using K S0 KN by (simp add: PL_def)
  have st': "stitch
          (remap_internal K k1 k2 k3 (P + S) P)
          (remap_internal K k1 k2 k3 P P)
          (last_internal K k1 k2 k3 P (arange (length tooth_node)))
          temp temp_last rot_phi zz (tooth_node, tooth_cell) = Inr (node, cell)"
    using st unfolding stitch_internal_def Let_def temp_def temp_last_def P_def N_def S_def
    by simp
  show ?thesis
  proof (rule stitch_cells_within [where I = I, OF st' N_def [symmetric] lt P0(1) ltl PL0])
    show "cells_within N tooth_cell" using cw by (simp add: N_def)
  next
    fix tm assume a: "remap_internal K k1 k2 k3 (P + S) P (arange (length tooth_node)) = Inr tm"
    have len: "int (length (arange (length tooth_node))) = N" by (simp add: N_def)
    from remap_internal_elt [OF len K, of k1 k2 k3 "P + S" P] S0 KN a
    have l: "int (length tm) = N"
      and e: "\<And>i. 0 \<le> i \<Longrightarrow> i < N \<Longrightarrow> elt tm i =
        (if i < 4 then elt (arange (length tooth_node)) (i + 4)
         else if i < K then elt (arange (length tooth_node)) i + (P + S)
         else if i < K + S then elt (arange (length tooth_node)) (i + S)
         else elt (arange (length tooth_node)) i + P)"
      unfolding S_def by auto
    have ar: "elt (arange (length tooth_node)) i = i" if "0 \<le> i" "i < N" for i
      using that by (simp add: elt_arange N_def)
    have e': "elt tm i =
        (if i < 4 then i + 4 else if i < K then i + (P + S) else if i < K + S then i + S
         else i + P)" if "0 \<le> i" "i < N" for i
      using e [OF that] that K S0 KN by (auto simp: ar)
    show "I 1 tm"
      unfolding I_def using l K S0 KN P0 by (auto simp: e' PS)
  next
    fix k tm tm' assume k: "(1::int) \<le> k" and I: "I k tm"
      and a: "remap_internal K k1 k2 k3 P P tm = Inr tm'"
    from I have len: "int (length tm) = N" by (simp add: I_def)
    from remap_internal_elt [OF len K, of k1 k2 k3 P P] S0 KN a
    have l: "int (length tm') = N"
      and e: "\<And>i. 0 \<le> i \<Longrightarrow> i < N \<Longrightarrow> elt tm' i =
        (if i < 4 then elt tm (i + 4)
         else if i < K then elt tm i + P
         else if i < K + S then elt tm (i + S)
         else elt tm i + P)"
      unfolding S_def by auto
    have b: "0 \<le> elt tm i \<and> elt tm i < N + k * P" if "0 \<le> i" "i < N" for i
      using I that by (simp add: I_def)
    have m: "elt tm i = i + N - 4 + (k - 1) * P" if "4 \<le> i" "i < K" for i
      using I that by (simp add: I_def)
    have h: "elt tm i = i + k * P" if "K + S \<le> i" "i < N" for i
      using I that by (simp add: I_def)
    have B: "0 \<le> elt tm' i \<and> elt tm' i < N + (k + 1) * P" if i: "0 \<le> i \<and> i < N" for i
    proof -
      consider "i < 4" | "4 \<le> i" "i < K" | "K \<le> i" "i < K + S" | "K + S \<le> i" by linarith
      then show ?thesis
      proof cases
        case 1
        then have "elt tm' i = elt tm (i + 4)" using e i by simp
        moreover have "0 \<le> elt tm (i + 4) \<and> elt tm (i + 4) < N + k * P"
          using b [of "i + 4"] i 1 K KN S0 by simp
        ultimately show ?thesis
          using P0 by (simp add: algebra_simps)
      next
        case 2
        then have "elt tm' i = i + N - 4 + (k - 1) * P + P" using e i m by simp
        then show ?thesis
          using 2 i P0 k b [of i] m [OF 2] by (simp add: algebra_simps)
      next
        case 3
        then have "elt tm' i = elt tm (i + S)" using e i K by simp
        moreover have "0 \<le> elt tm (i + S) \<and> elt tm (i + S) < N + k * P"
          using b [of "i + S"] i 3 K KN S0 by simp
        ultimately show ?thesis
          using P0 by (simp add: algebra_simps)
      next
        case 4
        then have "elt tm' i = i + k * P + P" using e i h K S0 by simp
        then show ?thesis
          using 4 i b [of i] h [of i] P0 by (simp add: algebra_simps)
      qed
    qed
    have M: "elt tm' i = i + N - 4 + (k + 1 - 1) * P" if i: "4 \<le> i \<and> i < K" for i
    proof -
      have "elt tm' i = elt tm i + P" using i e [of i] KN S0 by simp
      then show ?thesis using m i by (simp add: algebra_simps)
    qed
    have H: "elt tm' i = i + (k + 1) * P" if i: "K + S \<le> i \<and> i < N" for i
    proof -
      have "elt tm' i = elt tm i + P" using i e [of i] K S0 by simp
      then show ?thesis using h i by (simp add: algebra_simps)
    qed
    show "I (k + 1) tm'"
      unfolding I_def using l B M H by blast
  next
    fix k tm tm' assume k: "(1::int) \<le> k" and I: "I k tm"
      and a: "last_internal K k1 k2 k3 P (arange (length tooth_node)) tm = Inr tm'"
    from I have len: "int (length tm) = N" by (simp add: I_def)
    then have leq: "length tm = length tooth_node" by (simp add: N_def)
    from last_internal_elt [OF len K, of k1 k2 k3 P] S0 KN a
    have l: "int (length tm') = N"
      and e: "\<And>i. 0 \<le> i \<Longrightarrow> i < N \<Longrightarrow> elt tm' i =
        (if i < 4 then elt tm (i + 4)
         else if i < 8 then i - 4
         else if i < K then elt tm i + (P - 4)
         else if i < K + S then elt tm (i + S)
         else if i < K + 2 * S then i - S
         else elt tm i + (P - (k1 + k2 + k3 + 1)))"
      unfolding S_def leq by auto
    have b: "0 \<le> elt tm i \<and> elt tm i < N + k * P" if "0 \<le> i" "i < N" for i
      using I that by (simp add: I_def)
    have m: "elt tm i = i + N - 4 + (k - 1) * P" if "4 \<le> i" "i < K" for i
      using I that by (simp add: I_def)
    have h: "elt tm i = i + k * P" if "K + S \<le> i" "i < N" for i
      using I that by (simp add: I_def)
    have kP: "0 \<le> k * P" using k P0 by simp
    have B: "0 \<le> elt tm' i \<and> elt tm' i < N + k * P + PL" if i: "0 \<le> i \<and> i < N" for i
    proof -
      consider "i < 4" | "4 \<le> i" "i < 8" | "8 \<le> i" "i < K" | "K \<le> i" "i < K + S"
        | "K + S \<le> i" "i < K + 2 * S" | "K + 2 * S \<le> i" by linarith
      then show ?thesis
      proof cases
        case 1
        then have "elt tm' i = elt tm (i + 4)" using e i by simp
        moreover have "0 \<le> elt tm (i + 4) \<and> elt tm (i + 4) < N + k * P"
          using b [of "i + 4"] i 1 K KN S0 by simp
        ultimately show ?thesis
          using PL0 by simp
      next
        case 2
        then have "elt tm' i = i - 4" using e i by simp
        then show ?thesis
          using 2 i PL0 kP by simp
      next
        case 3
        then have "elt tm' i = i + N - 4 + (k - 1) * P + (P - 4)" using e i m by simp
        then show ?thesis
          using 3 i kP K KN S0 by (simp add: algebra_simps PL_def)
      next
        case 4
        then have "elt tm' i = elt tm (i + S)" using e i K by simp
        moreover have "0 \<le> elt tm (i + S) \<and> elt tm (i + S) < N + k * P"
          using b [of "i + S"] i 4 K KN S0 by simp
        ultimately show ?thesis
          using PL0 by simp
      next
        case 5
        then have "elt tm' i = i - S" using e i K S0 by simp
        then show ?thesis
          using 5 i PL0 kP K S0 by simp
      next
        case 6
        then have "elt tm' i = i + k * P + (P - (k1 + k2 + k3 + 1))"
          using e i h K S0 by simp
        then show ?thesis
          using 6 i kP K KN S0 by (simp add: algebra_simps PL_def PS S_def)
      qed
    qed
    show "index_table N (N + k * P + PL) tm'"
      unfolding index_table_def using l B by blast
  next
    fix k tm assume "(1::int) \<le> k" "I k tm"
    then show "index_table N (N + k * P) tm" by (simp add: I_def index_table_def)
  qed
qed

subsection \<open>Remapping tables of the external gear, 12 key points\<close>

lemma remap_reduced_elt:
  assumes len: "int (length tm) = N" and E: "0 \<le> E" "E \<le> S2"
    and N: "12 + S2 + E \<le> N"
    and Edef: "E = k3 - 1" and Sdef: "S2 = 2 * (k3 + k1 + k2 - 3)"
  shows "\<exists>tm'. remap_reduced k1 k2 k3 o1 o2 tm = Inr tm' \<and> int (length tm') = N \<and>
     (\<forall>i. 0 \<le> i \<and> i < N \<longrightarrow> elt tm' i =
        (if i = 0 then elt tm 11
         else if i = 1 then elt tm 4
         else if i < 12 then elt tm i + o1
         else if i < 12 + E then elt tm (i + S2)
         else elt tm i + o2))"
proof -
  define tA where "tA = tm[0 := elt tm 11, 1 := elt tm 4]"
  have lenA: "int (length tA) = N" using len by (simp add: tA_def)
  have eltA: "elt tA i = (if i = 0 then elt tm 11 else if i = 1 then elt tm 4 else elt tm i)"
    if "0 \<le> i" "i < N" for i
    using that len by (auto simp: tA_def elt_update)
  have c: "bnd (copy_item tm 0 tm 11) (\<lambda>tm. bnd (copy_item tm 1 tm 4) f) = f tA" for f
    using len E N by (simp add: copy_item_in tA_def elt_update)
  have b1: "12 + k3 - 1 = 12 + E" and b2: "12 + 2 * (k3 + k1 + k2 - 3) = 12 + S2"
    and b3: "12 + S2 + k3 - 1 = 12 + S2 + E"
    by (simp_all add: Edef Sdef)
  obtain tB where tB: "slice_assign tA 12 (12 + E) (slice tA (12 + S2) (12 + S2 + E)) = Inr tB"
    and lenB: "length tB = length tA"
    and eltB: "\<And>i. 0 \<le> i \<Longrightarrow> i < N \<Longrightarrow>
        elt tB i = (if 12 \<le> i \<and> i < 12 + E then elt tA (i - 12 + (12 + S2)) else elt tA i)"
    using slice_assign_slice [of 12 "12 + E" tA "12 + S2" "12 + S2 + E" tA] lenA E N
    by auto
  let ?r = "slice_from_iadd (slice_iadd tB 2 12 o1) (12 + E) o2"
  have "remap_reduced k1 k2 k3 o1 o2 tm = Inr ?r"
    unfolding remap_reduced_def c b1 b2 b3 by (simp add: tB)
  moreover have "int (length ?r) = N" using lenA lenB by simp
  moreover have "elt ?r i =
        (if i = 0 then elt tm 11
         else if i = 1 then elt tm 4
         else if i < 12 then elt tm i + o1
         else if i < 12 + E then elt tm (i + S2)
         else elt tm i + o2)" if "0 \<le> i" "i < N" for i
  proof -
    have "elt tA (i - 12 + (12 + S2)) = elt tm (i + S2)" if "12 \<le> i" "i < 12 + E"
      using eltA [of "i + S2"] that E N by (simp add: algebra_simps)
    then show ?thesis
      using that lenA lenB E N eltB [OF that] eltA [OF that]
      by (auto simp: elt_slice_from_iadd elt_slice_iadd)
  qed
  ultimately show ?thesis by blast
qed

lemma last_reduced_elt:
  assumes len: "int (length tm) = N" and E: "0 \<le> E" "E \<le> S2"
    and N: "12 + S2 + E \<le> N"
    and Edef: "E = k3 - 1" and Sdef: "S2 = 2 * (k3 + k1 + k2 - 3)"
  shows "\<exists>tm'. last_reduced k1 k2 k3 snn (arange (length tm)) tm = Inr tm' \<and>
     int (length tm') = N \<and>
     (\<forall>i. 0 \<le> i \<and> i < N \<longrightarrow> elt tm' i =
        (if i = 0 then elt tm 11
         else if i = 1 then elt tm 4
         else if i < 4 then elt tm i + snn
         else if i = 4 then 1
         else if i < 11 then elt tm i + (snn - 1)
         else if i = 11 then 0
         else if i < 12 + E then elt tm (i + S2)
         else if i < 12 + S2 then elt tm i + (snn - 2)
         else if i < 12 + S2 + E then i - S2
         else elt tm i + (snn - 2 - E)))"
proof -
  define og where "og = arange (length tm)"
  have og: "int (length og) = N" "\<And>i. 0 \<le> i \<Longrightarrow> i < N \<Longrightarrow> elt og i = i"
    using len by (auto simp: og_def elt_arange)
  define tA where "tA = tm[0 := elt tm 11, 1 := elt tm 4, 11 := 0, 4 := 1]"
  have lenA: "int (length tA) = N" using len by (simp add: tA_def)
  have eltA: "elt tA i = (if i = 0 then elt tm 11 else if i = 1 then elt tm 4
                          else if i = 4 then 1 else if i = 11 then 0 else elt tm i)"
    if "0 \<le> i" "i < N" for i
    using that len by (auto simp: tA_def elt_update)
  have c: "bnd (copy_item tm 0 tm 11) (\<lambda>tm. bnd (copy_item tm 1 tm 4) (\<lambda>tm.
           bnd (copy_item tm 11 og 0) (\<lambda>tm. bnd (copy_item tm 4 og 1) f))) = f tA" for f
    using len E N og by (simp add: copy_item_in tA_def elt_update)
  have b1: "12 + k3 - 1 = 12 + E" and b2: "12 + 2 * (k3 + k1 + k2 - 3) = 12 + S2"
    and b3: "12 + S2 + k3 - 1 = 12 + S2 + E"
    and b4: "12 + (k3 - 1) = 12 + E" and b5: "12 + 2 * (k1 + k2 + k3 - 3) = 12 + S2"
    and b7: "snn - 2 - (k3 - 1) = snn - 2 - E"
    by (simp_all add: Edef Sdef)
  obtain tB where tB: "slice_assign tA 12 (12 + E) (slice tA (12 + S2) (12 + S2 + E)) = Inr tB"
    and lenB: "length tB = length tA"
    and eltB: "\<And>i. 0 \<le> i \<Longrightarrow> i < N \<Longrightarrow>
        elt tB i = (if 12 \<le> i \<and> i < 12 + E then elt tA (i - 12 + (12 + S2)) else elt tA i)"
    using slice_assign_slice [of 12 "12 + E" tA "12 + S2" "12 + S2 + E" tA] lenA E N
    by auto
  obtain tC where tC: "slice_assign tB (12 + S2) (12 + S2 + E) (slice og 12 (12 + E)) = Inr tC"
    and lenC: "length tC = length tB"
    and eltC: "\<And>i. 0 \<le> i \<Longrightarrow> i < N \<Longrightarrow>
        elt tC i = (if 12 + S2 \<le> i \<and> i < 12 + S2 + E then elt og (i - (12 + S2) + 12)
                    else elt tB i)"
    using slice_assign_slice [of "12 + S2" "12 + S2 + E" tB 12 "12 + E" og] lenA lenB og(1) E N
    by auto
  let ?r = "slice_from_iadd
            (slice_iadd
               (slice_iadd (slice_iadd tC 2 4 snn) 5 11 (snn - 1))
               (12 + E) (12 + S2) (snn - 2))
            (12 + S2 + E) (snn - 2 - E)"
  have "last_reduced k1 k2 k3 snn (arange (length tm)) tm = Inr ?r"
    unfolding last_reduced_def og_def [symmetric] c b1 b2 b3 b4 b5 b7 by (simp add: tB tC)
  moreover have "int (length ?r) = N" using lenA lenB lenC by simp
  moreover have "elt ?r i =
        (if i = 0 then elt tm 11
         else if i = 1 then elt tm 4
         else if i < 4 then elt tm i + snn
         else if i = 4 then 1
         else if i < 11 then elt tm i + (snn - 1)
         else if i = 11 then 0
         else if i < 12 + E then elt tm (i + S2)
         else if i < 12 + S2 then elt tm i + (snn - 2)
         else if i < 12 + S2 + E then i - S2
         else elt tm i + (snn - 2 - E))" if "0 \<le> i" "i < N" for i
  proof -
    have 1: "elt tA (i - 12 + (12 + S2)) = elt tm (i + S2)" if "12 \<le> i" "i < 12 + E"
      using eltA [of "i + S2"] that E N by (simp add: algebra_simps)
    have 2: "elt og (i - (12 + S2) + 12) = i - S2" if "12 + S2 \<le> i" "i < 12 + S2 + E"
      using og(2) [of "i - S2"] that E N by (simp add: algebra_simps)
    show ?thesis
      using that lenA lenB lenC E N eltC [OF that] eltB [OF that] eltA [OF that] 1 2
      by (auto simp: elt_slice_from_iadd elt_slice_iadd)
  qed
  ultimately show ?thesis by blast
qed

lemma stitch_reduced_within:
  assumes st: "stitch_reduced k1 k2 k3 rot_phi zz (tooth_node, tooth_cell) = Inr (node, cell)"
    and ks: "1 \<le> k1" "1 \<le> k2" "1 \<le> k3"
    and N: "12 + 2 * (k1 + k2 + k3 - 3) + (k3 - 1) \<le> int (length tooth_node)"
    and cw: "cells_within (int (length tooth_node)) tooth_cell"
  shows "cells_within (int (length node)) cell"
proof -
  define N where "N = int (length tooth_node)"
  define E where "E = k3 - 1"
  define S2 where "S2 = 2 * (k3 + k1 + k2 - 3)"
  define P where "P = N - (k3 + 1)"
  define PL where "PL = N - 2 * E - 4"
  define temp where "temp = slice tooth_node 2 12 @ slice_from tooth_node (12 + (k3 - 1))"
  define temp_last where
    "temp_last = slice tooth_node 2 4 @ slice tooth_node 5 11
           @ slice tooth_node (12 + (k3 - 1)) (12 + 2 * (k1 + k2 + k3 - 3))
           @ slice_from tooth_node (12 + 2 * (k1 + k2 + k3 - 3) + k3 - 1)"
  define I where "I = (\<lambda>k tm. int (length tm) = N \<and>
      (\<forall>i. 0 \<le> i \<and> i < N \<longrightarrow> 0 \<le> elt tm i \<and> elt tm i < N + k * P) \<and>
      (\<forall>i. 2 \<le> i \<and> i < 12 \<longrightarrow> elt tm i = i + N - 2 + (k - 1) * P) \<and>
      (\<forall>i. 12 + E \<le> i \<and> i < N \<longrightarrow> elt tm i = i + k * P))"
  have E0: "0 \<le> E" and ES: "E \<le> S2" and KN: "12 + S2 + E \<le> N"
    using ks N by (simp_all add: E_def S2_def N_def)
  have PS: "P = N - E - 2" by (simp add: P_def E_def)
  have P0: "0 \<le> P" "10 \<le> P" using KN E0 ES by (simp_all add: PS)
  have b: "12 + (k3 - 1) = 12 + E" "12 + 2 * (k1 + k2 + k3 - 3) = 12 + S2"
    "12 + S2 + k3 - 1 = 12 + S2 + E"
    by (simp_all add: E_def S2_def)
  have lt: "int (length temp) = P"
    using E0 ES KN unfolding temp_def b N_def PS
    by (simp add: length_slice length_slice_from)
  have ltl: "int (length temp_last) = PL"
    using E0 ES KN unfolding temp_last_def b N_def PL_def
    by (simp add: length_slice length_slice_from)
  have PL0: "0 \<le> PL" "8 \<le> PL" using E0 ES KN by (simp_all add: PL_def)
  have st': "stitch
          (remap_reduced k1 k2 k3 (P + E) P)
          (remap_reduced k1 k2 k3 P P)
          (last_reduced k1 k2 k3 P (arange (length tooth_node)))
          temp temp_last rot_phi zz (tooth_node, tooth_cell) = Inr (node, cell)"
    using st unfolding stitch_reduced_def Let_def temp_def temp_last_def P_def N_def
    by (simp add: E_def)
  show ?thesis
  proof (rule stitch_cells_within [where I = I, OF st' N_def [symmetric] lt P0(1) ltl PL0(1)])
    show "cells_within N tooth_cell" using cw by (simp add: N_def)
  next
    fix tm assume a: "remap_reduced k1 k2 k3 (P + E) P (arange (length tooth_node)) = Inr tm"
    have len: "int (length (arange (length tooth_node))) = N" by (simp add: N_def)
    from remap_reduced_elt [OF len E0 ES KN E_def S2_def, of "P + E" P] a
    have l: "int (length tm) = N"
      and e: "\<And>i. 0 \<le> i \<Longrightarrow> i < N \<Longrightarrow> elt tm i =
        (if i = 0 then elt (arange (length tooth_node)) 11
         else if i = 1 then elt (arange (length tooth_node)) 4
         else if i < 12 then elt (arange (length tooth_node)) i + (P + E)
         else if i < 12 + E then elt (arange (length tooth_node)) (i + S2)
         else elt (arange (length tooth_node)) i + P)"
      by auto
    have ar: "elt (arange (length tooth_node)) i = i" if "0 \<le> i" "i < N" for i
      using that by (simp add: elt_arange N_def)
    have e': "elt tm i =
        (if i = 0 then 11 else if i = 1 then 4 else if i < 12 then i + (P + E)
         else if i < 12 + E then i + S2 else i + P)" if "0 \<le> i" "i < N" for i
      using e [OF that] that E0 ES KN by (auto simp: ar)
    show "I 1 tm"
      unfolding I_def using l E0 ES KN P0 by (auto simp: e' PS)
  next
    fix k tm tm' assume k: "(1::int) \<le> k" and I: "I k tm"
      and a: "remap_reduced k1 k2 k3 P P tm = Inr tm'"
    from I have len: "int (length tm) = N" by (simp add: I_def)
    from remap_reduced_elt [OF len E0 ES KN E_def S2_def, of P P] a
    have l: "int (length tm') = N"
      and e: "\<And>i. 0 \<le> i \<Longrightarrow> i < N \<Longrightarrow> elt tm' i =
        (if i = 0 then elt tm 11
         else if i = 1 then elt tm 4
         else if i < 12 then elt tm i + P
         else if i < 12 + E then elt tm (i + S2)
         else elt tm i + P)"
      by auto
    have b: "0 \<le> elt tm i \<and> elt tm i < N + k * P" if "0 \<le> i" "i < N" for i
      using I that by (simp add: I_def)
    have m: "elt tm i = i + N - 2 + (k - 1) * P" if "2 \<le> i" "i < 12" for i
      using I that by (simp add: I_def)
    have h: "elt tm i = i + k * P" if "12 + E \<le> i" "i < N" for i
      using I that by (simp add: I_def)
    have B: "0 \<le> elt tm' i \<and> elt tm' i < N + (k + 1) * P" if i: "0 \<le> i \<and> i < N" for i
    proof -
      consider "i = 0" | "i = 1" | "2 \<le> i" "i < 12" | "12 \<le> i" "i < 12 + E" | "12 + E \<le> i"
        using i by linarith
      then show ?thesis
      proof cases
        case 1
        then have "elt tm' i = elt tm 11" using e i by simp
        moreover have "0 \<le> elt tm 11 \<and> elt tm 11 < N + k * P"
          using b [of 11] KN E0 ES by simp
        ultimately show ?thesis using P0 by (simp add: algebra_simps)
      next
        case 2
        then have "elt tm' i = elt tm 4" using e i by simp
        moreover have "0 \<le> elt tm 4 \<and> elt tm 4 < N + k * P"
          using b [of 4] KN E0 ES by simp
        ultimately show ?thesis using P0 by (simp add: algebra_simps)
      next
        case 3
        then have "elt tm' i = i + N - 2 + (k - 1) * P + P" using e i m by simp
        then show ?thesis
          using 3 i P0 k b [of i] m [OF 3] by (simp add: algebra_simps)
      next
        case 4
        then have "elt tm' i = elt tm (i + S2)" using e i by simp
        moreover have "0 \<le> elt tm (i + S2) \<and> elt tm (i + S2) < N + k * P"
          using b [of "i + S2"] i 4 KN E0 ES by simp
        ultimately show ?thesis using P0 by (simp add: algebra_simps)
      next
        case 5
        then have "elt tm' i = i + k * P + P" using e i h E0 by simp
        then show ?thesis
          using 5 i b [of i] h [of i] P0 by (simp add: algebra_simps)
      qed
    qed
    have M: "elt tm' i = i + N - 2 + (k + 1 - 1) * P" if i: "2 \<le> i \<and> i < 12" for i
    proof -
      have "elt tm' i = elt tm i + P" using i e [of i] KN E0 ES by simp
      then show ?thesis using m i by (simp add: algebra_simps)
    qed
    have H: "elt tm' i = i + (k + 1) * P" if i: "12 + E \<le> i \<and> i < N" for i
    proof -
      have "elt tm' i = elt tm i + P" using i e [of i] E0 by simp
      then show ?thesis using h i by (simp add: algebra_simps)
    qed
    show "I (k + 1) tm'"
      unfolding I_def using l B M H by blast
  next
    fix k tm tm' assume k: "(1::int) \<le> k" and I: "I k tm"
      and a: "last_reduced k1 k2 k3 P (arange (length tooth_node)) tm = Inr tm'"
    from I have len: "int (length tm) = N" by (simp add: I_def)
    then have leq: "length tm = length tooth_node" by (simp add: N_def)
    from last_reduced_elt [OF len E0 ES KN E_def S2_def, of P] a
    have l: "int (length tm') = N"
      and e: "\<And>i. 0 \<le> i \<Longrightarrow> i < N \<Longrightarrow> elt tm' i =
        (if i = 0 then elt tm 11
         else if i = 1 then elt tm 4
         else if i < 4 then elt tm i + P
         else if i = 4 then 1
         else if i < 11 then elt tm i + (P - 1)
         else if i = 11 then 0
         else if i < 12 + E then elt tm (i + S2)
         else if i < 12 + S2 then elt tm i + (P - 2)
         else if i < 12 + S2 + E then i - S2
         else elt tm i + (P - 2 - E))"
      unfolding leq by auto
    have b: "0 \<le> elt tm i \<and> elt tm i < N + k * P" if "0 \<le> i" "i < N" for i
      using I that by (simp add: I_def)
    have m: "elt tm i = i + N - 2 + (k - 1) * P" if "2 \<le> i" "i < 12" for i
      using I that by (simp add: I_def)
    have h: "elt tm i = i + k * P" if "12 + E \<le> i" "i < N" for i
      using I that by (simp add: I_def)
    have kP: "0 \<le> k * P" using k P0 by simp
    have B: "0 \<le> elt tm' i \<and> elt tm' i < N + k * P + PL" if i: "0 \<le> i \<and> i < N" for i
    proof -
      consider "i = 0" | "i = 1" | "2 \<le> i" "i < 4" | "i = 4" | "5 \<le> i" "i < 11" | "i = 11"
        | "12 \<le> i" "i < 12 + E" | "12 + E \<le> i" "i < 12 + S2"
        | "12 + S2 \<le> i" "i < 12 + S2 + E" | "12 + S2 + E \<le> i"
        using i by linarith
      then show ?thesis
      proof cases
        case 1
        then have "elt tm' i = elt tm 11" using e i by simp
        moreover have "0 \<le> elt tm 11 \<and> elt tm 11 < N + k * P"
          using b [of 11] KN E0 ES by simp
        ultimately show ?thesis using PL0 by simp
      next
        case 2
        then have "elt tm' i = elt tm 4" using e i by simp
        moreover have "0 \<le> elt tm 4 \<and> elt tm 4 < N + k * P"
          using b [of 4] KN E0 ES by simp
        ultimately show ?thesis using PL0 by simp
      next
        case 3
        then have "elt tm' i = i + N - 2 + (k - 1) * P + P" using e i m by simp
        then show ?thesis
          using 3 i kP PL0 KN E0 ES by (simp add: algebra_simps)
      next
        case 4
        then have "elt tm' i = 1" using e i by simp
        then show ?thesis using i kP PL0 by simp
      next
        case 5
        then have "elt tm' i = i + N - 2 + (k - 1) * P + (P - 1)" using e i m by simp
        then show ?thesis
          using 5 i kP PL0 KN E0 ES by (simp add: algebra_simps)
      next
        case 6
        then have "elt tm' i = 0" using e i by simp
        then show ?thesis using i kP PL0 by simp
      next
        case 7
        then have "elt tm' i = elt tm (i + S2)" using e i by simp
        moreover have "0 \<le> elt tm (i + S2) \<and> elt tm (i + S2) < N + k * P"
          using b [of "i + S2"] i 7 KN E0 ES by simp
        ultimately show ?thesis using PL0 by simp
      next
        case 8
        then have "elt tm' i = i + k * P + (P - 2)" using e i h E0 by simp
        then show ?thesis
          using 8 i kP KN E0 ES by (simp add: algebra_simps PL_def PS)
      next
        case 9
        then have "elt tm' i = i - S2" using e i E0 ES by simp
        then show ?thesis
          using 9 i kP PL0 E0 ES by simp
      next
        case 10
        then have "elt tm' i = i + k * P + (P - 2 - E)" using e i h E0 ES by simp
        then show ?thesis
          using 10 i kP KN E0 ES by (simp add: algebra_simps PL_def PS)
      qed
    qed
    show "index_table N (N + k * P + PL) tm'"
      unfolding index_table_def using l B by blast
  next
    fix k tm assume "(1::int) \<le> k" "I k tm"
    then show "index_table N (N + k * P) tm" by (simp add: I_def index_table_def)
  qed
qed

subsection \<open>Remapping tables of the external gear, 16 key points\<close>

lemma remap_normal_elt:
  assumes len: "int (length tm) = N" and A: "16 \<le> A" and E: "0 \<le> E"
    and N: "A + 2 * E \<le> N"
    and Adef: "A = 16 + En - (4 * (kf - 1) + 2 * (k3 - 1))" and Edef: "E = k3 - 1"
  shows "\<exists>tm'. remap_normal k3 kf En o0 o1 o2 tm = Inr tm' \<and> int (length tm') = N \<and>
     (\<forall>i. 0 \<le> i \<and> i < N \<longrightarrow> elt tm' i =
        (if i < 12 then elt tm i + o0
         else if i = 12 then elt tm 14
         else if i = 13 then elt tm 15
         else if i < A then elt tm i + o1
         else if i < A + E then elt tm (i + E)
         else elt tm i + o2))"
proof -
  define tA where "tA = tm[12 := elt tm 14, 13 := elt tm 15]"
  have lenA: "int (length tA) = N" using len by (simp add: tA_def)
  have eltA: "elt tA i = (if i = 12 then elt tm 14 else if i = 13 then elt tm 15 else elt tm i)"
    if "0 \<le> i" "i < N" for i
    using that len by (auto simp: tA_def elt_update)
  have c: "bnd (copy_item tm 12 tm 14) (\<lambda>tm. bnd (copy_item tm 13 tm 15) f) = f tA" for f
    using len A E N by (simp add: copy_item_in tA_def elt_update)
  have b: "16 + En - (4 * (kf - 1) + 2 * (k3 - 1)) = A"
    "16 + En - (4 * (kf - 1) + (k3 - 1)) = A + E"
    "16 + En - 4 * (kf - 1) = A + 2 * E"
    by (simp_all add: Adef Edef)
  obtain tB where tB: "slice_assign tA A (A + E) (slice tA (A + E) (A + 2 * E)) = Inr tB"
    and lenB: "length tB = length tA"
    and eltB: "\<And>i. 0 \<le> i \<Longrightarrow> i < N \<Longrightarrow>
        elt tB i = (if A \<le> i \<and> i < A + E then elt tA (i - A + (A + E)) else elt tA i)"
    using slice_assign_slice [of A "A + E" tA "A + E" "A + 2 * E" tA] lenA A E N
    by auto
  let ?r = "slice_from_iadd (slice_iadd (slice_iadd tB 0 12 o0) 14 A o1) (A + E) o2"
  have "remap_normal k3 kf En o0 o1 o2 tm = Inr ?r"
    unfolding remap_normal_def c b by (simp add: tB)
  moreover have "int (length ?r) = N" using lenA lenB by simp
  moreover have "elt ?r i =
        (if i < 12 then elt tm i + o0
         else if i = 12 then elt tm 14
         else if i = 13 then elt tm 15
         else if i < A then elt tm i + o1
         else if i < A + E then elt tm (i + E)
         else elt tm i + o2)" if "0 \<le> i" "i < N" for i
  proof -
    have "elt tA (i - A + (A + E)) = elt tm (i + E)" if "A \<le> i" "i < A + E"
      using eltA [of "i + E"] that A E N by (simp add: algebra_simps)
    then show ?thesis
      using that lenA lenB A E N eltB [OF that] eltA [OF that]
      by (auto simp: elt_slice_from_iadd elt_slice_iadd)
  qed
  ultimately show ?thesis by blast
qed

lemma last_normal_elt:
  assumes len: "int (length tm) = N" and A: "16 \<le> A" and E: "0 \<le> E"
    and N: "A + 2 * E \<le> N"
    and Adef: "A = 16 + En - (4 * (kf - 1) + 2 * (k3 - 1))" and Edef: "E = k3 - 1"
  shows "\<exists>tm'. last_normal k3 kf En snn (arange (length tm)) tm = Inr tm' \<and>
     int (length tm') = N \<and>
     (\<forall>i. 0 \<le> i \<and> i < N \<longrightarrow> elt tm' i =
        (if i < 12 then elt tm i + snn
         else if i = 12 then elt tm 14
         else if i = 13 then elt tm 15
         else if i = 14 then 12
         else if i = 15 then 13
         else if i < A then elt tm i + (snn - 2)
         else if i < A + E then elt tm (i + E)
         else if i < A + 2 * E then i - E
         else elt tm i + (snn - E - 2)))"
proof -
  define og where "og = arange (length tm)"
  have og: "int (length og) = N" "\<And>i. 0 \<le> i \<Longrightarrow> i < N \<Longrightarrow> elt og i = i"
    using len by (auto simp: og_def elt_arange)
  define tA where "tA = tm[12 := elt tm 14, 13 := elt tm 15, 14 := 12, 15 := 13]"
  have lenA: "int (length tA) = N" using len by (simp add: tA_def)
  have eltA: "elt tA i = (if i = 12 then elt tm 14 else if i = 13 then elt tm 15
                          else if i = 14 then 12 else if i = 15 then 13 else elt tm i)"
    if "0 \<le> i" "i < N" for i
    using that len by (auto simp: tA_def elt_update)
  have c: "bnd (copy_item tm 12 tm 14) (\<lambda>tm. bnd (copy_item tm 13 tm 15) (\<lambda>tm.
           bnd (copy_item tm 14 og 12) (\<lambda>tm. bnd (copy_item tm 15 og 13) f))) = f tA" for f
    using len A E N og by (simp add: copy_item_in tA_def elt_update)
  have b: "16 + En - (4 * (kf - 1) + 2 * (k3 - 1)) = A"
    "16 + En - (4 * (kf - 1) + (k3 - 1)) = A + E"
    "16 + En - 4 * (kf - 1) = A + 2 * E"
    "snn - (k3 - 1) - 2 = snn - E - 2"
    by (simp_all add: Adef Edef)
  obtain tB where tB: "slice_assign tA A (A + E) (slice tA (A + E) (A + 2 * E)) = Inr tB"
    and lenB: "length tB = length tA"
    and eltB: "\<And>i. 0 \<le> i \<Longrightarrow> i < N \<Longrightarrow>
        elt tB i = (if A \<le> i \<and> i < A + E then elt tA (i - A + (A + E)) else elt tA i)"
    using slice_assign_slice [of A "A + E" tA "A + E" "A + 2 * E" tA] lenA A E N
    by auto
  obtain tC where tC: "slice_assign tB (A + E) (A + 2 * E) (slice og A (A + E)) = Inr tC"
    and lenC: "length tC = length tB"
    and eltC: "\<And>i. 0 \<le> i \<Longrightarrow> i < N \<Longrightarrow>
        elt tC i = (if A + E \<le> i \<and> i < A + 2 * E then elt og (i - (A + E) + A)
                    else elt tB i)"
    using slice_assign_slice [of "A + E" "A + 2 * E" tB A "A + E" og] lenA lenB og(1) A E N
    by auto
  let ?r = "slice_from_iadd
            (slice_iadd (slice_iadd tC 0 12 snn) 16 A (snn - 2))
            (A + 2 * E) (snn - E - 2)"
  have "last_normal k3 kf En snn (arange (length tm)) tm = Inr ?r"
    unfolding last_normal_def og_def [symmetric] c b by (simp add: tB tC)
  moreover have "int (length ?r) = N" using lenA lenB lenC by simp
  moreover have "elt ?r i =
        (if i < 12 then elt tm i + snn
         else if i = 12 then elt tm 14
         else if i = 13 then elt tm 15
         else if i = 14 then 12
         else if i = 15 then 13
         else if i < A then elt tm i + (snn - 2)
         else if i < A + E then elt tm (i + E)
         else if i < A + 2 * E then i - E
         else elt tm i + (snn - E - 2))" if "0 \<le> i" "i < N" for i
  proof -
    have 1: "elt tA (i - A + (A + E)) = elt tm (i + E)" if "A \<le> i" "i < A + E"
      using eltA [of "i + E"] that A E N by (simp add: algebra_simps)
    have 2: "elt og (i - (A + E) + A) = i - E" if "A + E \<le> i" "i < A + 2 * E"
      using og(2) [of "i - E"] that A E N by (simp add: algebra_simps)
    show ?thesis
      using that lenA lenB lenC A E N eltC [OF that] eltB [OF that] eltA [OF that] 1 2
      by (auto simp: elt_slice_from_iadd elt_slice_iadd)
  qed
  ultimately show ?thesis by blast
qed

lemma stitch_normal_within:
  assumes st: "stitch_normal k1 k2 k3 ka kf rot_phi zz (tooth_node, tooth_cell) = Inr (node, cell)"
    and ks: "1 \<le> k1" "1 \<le> k2" "1 \<le> k3" "1 \<le> ka" "1 \<le> kf"
    and N: "16 + edge_node_num_ext k1 k2 k3 ka kf \<le> int (length tooth_node)"
    and cw: "cells_within (int (length tooth_node)) tooth_cell"
  shows "cells_within (int (length node)) cell"
proof -
  define N where "N = int (length tooth_node)"
  define En where "En = edge_node_num_ext k1 k2 k3 ka kf"
  define E where "E = k3 - 1"
  define A where "A = 16 + En - (4 * (kf - 1) + 2 * (k3 - 1))"
  define P where "P = N - (k3 + 1)"
  define PL where "PL = N - 2 * E - 4"
  define temp where "temp = slice tooth_node 0 12
           @ slice tooth_node 14 (16 + En - (4 * (kf - 1) + 2 * (k3 - 1)))
           @ slice_from tooth_node (16 + En - (4 * (kf - 1) + (k3 - 1)))"
  define temp_last where
    "temp_last = slice tooth_node 0 12
           @ slice tooth_node 16 (16 + En - (4 * (kf - 1) + 2 * (k3 - 1)))
           @ slice_from tooth_node (16 + En - (4 * (kf - 1)))"
  define I where "I = (\<lambda>k tm. int (length tm) = N \<and>
      (\<forall>i. 0 \<le> i \<and> i < N \<longrightarrow> 0 \<le> elt tm i \<and> elt tm i < N + k * P) \<and>
      (\<forall>i. 0 \<le> i \<and> i < 12 \<longrightarrow> elt tm i = i + N + (k - 1) * P) \<and>
      (\<forall>i. 14 \<le> i \<and> i < A \<longrightarrow> elt tm i = i + N - 2 + (k - 1) * P) \<and>
      (\<forall>i. A + E \<le> i \<and> i < N \<longrightarrow> elt tm i = i + k * P))"
  have E0: "0 \<le> E" using ks by (simp add: E_def)
  have A16: "16 \<le> A"
    using ks by (simp add: A_def En_def edge_node_num_ext_def)
  have KN: "A + 2 * E \<le> N"
    using ks N by (simp add: A_def E_def En_def [symmetric] N_def)
  have PS: "P = N - E - 2" by (simp add: P_def E_def)
  have P0: "0 \<le> P" "14 \<le> P" "A + E - 2 \<le> P" using KN E0 A16 by (simp_all add: PS)
  have b: "16 + En - (4 * (kf - 1) + 2 * (k3 - 1)) = A"
    "16 + En - (4 * (kf - 1) + (k3 - 1)) = A + E"
    "16 + En - 4 * (kf - 1) = A + 2 * E"
    by (simp_all add: A_def E_def)
  have lt: "int (length temp) = P"
    using E0 A16 KN unfolding temp_def b N_def PS
    by (simp add: length_slice length_slice_from)
  have ltl: "int (length temp_last) = PL"
    using E0 A16 KN unfolding temp_last_def b N_def PL_def
    by (simp add: length_slice length_slice_from)
  have PL0: "0 \<le> PL" "12 \<le> PL" using E0 A16 KN by (simp_all add: PL_def)
  have st': "stitch
          (remap_normal k3 kf En (P + E + 2) (P + E) P)
          (remap_normal k3 kf En P P P)
          (last_normal k3 kf En P (arange (length tooth_node)))
          temp temp_last rot_phi zz (tooth_node, tooth_cell) = Inr (node, cell)"
    using st unfolding stitch_normal_def Let_def temp_def temp_last_def P_def N_def En_def
    by (simp add: E_def)
  show ?thesis
  proof (rule stitch_cells_within [where I = I, OF st' N_def [symmetric] lt P0(1) ltl PL0(1)])
    show "cells_within N tooth_cell" using cw by (simp add: N_def)
  next
    fix tm assume a: "remap_normal k3 kf En (P + E + 2) (P + E) P (arange (length tooth_node)) = Inr tm"
    have len: "int (length (arange (length tooth_node))) = N" by (simp add: N_def)
    from remap_normal_elt [OF len A16 E0 KN A_def E_def, of "P + E + 2" "P + E" P] a
    have l: "int (length tm) = N"
      and e: "\<And>i. 0 \<le> i \<Longrightarrow> i < N \<Longrightarrow> elt tm i =
        (if i < 12 then elt (arange (length tooth_node)) i + (P + E + 2)
         else if i = 12 then elt (arange (length tooth_node)) 14
         else if i = 13 then elt (arange (length tooth_node)) 15
         else if i < A then elt (arange (length tooth_node)) i + (P + E)
         else if i < A + E then elt (arange (length tooth_node)) (i + E)
         else elt (arange (length tooth_node)) i + P)"
      by auto
    have ar: "elt (arange (length tooth_node)) i = i" if "0 \<le> i" "i < N" for i
      using that by (simp add: elt_arange N_def)
    have e': "elt tm i =
        (if i < 12 then i + (P + E + 2) else if i = 12 then 14 else if i = 13 then 15
         else if i < A then i + (P + E) else if i < A + E then i + E else i + P)"
      if "0 \<le> i" "i < N" for i
      using e [OF that] that E0 A16 KN by (auto simp: ar)
    show "I 1 tm"
      unfolding I_def using l E0 A16 KN P0 by (auto simp: e' PS)
  next
    fix k tm tm' assume k: "(1::int) \<le> k" and I: "I k tm"
      and a: "remap_normal k3 kf En P P P tm = Inr tm'"
    from I have len: "int (length tm) = N" by (simp add: I_def)
    from remap_normal_elt [OF len A16 E0 KN A_def E_def, of P P P] a
    have l: "int (length tm') = N"
      and e: "\<And>i. 0 \<le> i \<Longrightarrow> i < N \<Longrightarrow> elt tm' i =
        (if i < 12 then elt tm i + P
         else if i = 12 then elt tm 14
         else if i = 13 then elt tm 15
         else if i < A then elt tm i + P
         else if i < A + E then elt tm (i + E)
         else elt tm i + P)"
      by auto
    have b: "0 \<le> elt tm i \<and> elt tm i < N + k * P" if "0 \<le> i" "i < N" for i
      using I that by (simp add: I_def)
    have m0: "elt tm i = i + N + (k - 1) * P" if "0 \<le> i" "i < 12" for i
      using I that by (simp add: I_def)
    have m: "elt tm i = i + N - 2 + (k - 1) * P" if "14 \<le> i" "i < A" for i
      using I that by (simp add: I_def)
    have h: "elt tm i = i + k * P" if "A + E \<le> i" "i < N" for i
      using I that by (simp add: I_def)
    have B: "0 \<le> elt tm' i \<and> elt tm' i < N + (k + 1) * P" if i: "0 \<le> i \<and> i < N" for i
    proof -
      consider "i < 12" | "i = 12" | "i = 13" | "14 \<le> i" "i < A" | "A \<le> i" "i < A + E"
        | "A + E \<le> i"
        using i by linarith
      then show ?thesis
      proof cases
        case 1
        then have "elt tm' i = i + N + (k - 1) * P + P" using e i m0 by simp
        then show ?thesis
          using 1 i P0 k b [of i] by (simp add: algebra_simps)
      next
        case 2
        then have "elt tm' i = elt tm 14" using e i by simp
        moreover have "0 \<le> elt tm 14 \<and> elt tm 14 < N + k * P"
          using b [of 14] KN E0 A16 by simp
        ultimately show ?thesis using P0 by (simp add: algebra_simps)
      next
        case 3
        then have "elt tm' i = elt tm 15" using e i by simp
        moreover have "0 \<le> elt tm 15 \<and> elt tm 15 < N + k * P"
          using b [of 15] KN E0 A16 by simp
        ultimately show ?thesis using P0 by (simp add: algebra_simps)
      next
        case 4
        then have "elt tm' i = i + N - 2 + (k - 1) * P + P" using e i m by simp
        then show ?thesis
          using 4 i P0 k b [of i] m [OF 4] by (simp add: algebra_simps)
      next
        case 5
        then have "elt tm' i = elt tm (i + E)" using e i A16 by simp
        moreover have "0 \<le> elt tm (i + E) \<and> elt tm (i + E) < N + k * P"
          using b [of "i + E"] i 5 KN E0 A16 by simp
        ultimately show ?thesis using P0 by (simp add: algebra_simps)
      next
        case 6
        then have "elt tm' i = i + k * P + P" using e i h E0 A16 by simp
        then show ?thesis
          using 6 i b [of i] h [of i] P0 by (simp add: algebra_simps)
      qed
    qed
    have M0: "elt tm' i = i + N + (k + 1 - 1) * P" if i: "0 \<le> i \<and> i < 12" for i
    proof -
      have "elt tm' i = elt tm i + P" using i e [of i] KN E0 A16 by simp
      then show ?thesis using m0 i by (simp add: algebra_simps)
    qed
    have M: "elt tm' i = i + N - 2 + (k + 1 - 1) * P" if i: "14 \<le> i \<and> i < A" for i
    proof -
      have "elt tm' i = elt tm i + P" using i e [of i] KN E0 A16 by simp
      then show ?thesis using m i by (simp add: algebra_simps)
    qed
    have H: "elt tm' i = i + (k + 1) * P" if i: "A + E \<le> i \<and> i < N" for i
    proof -
      have "elt tm' i = elt tm i + P" using i e [of i] E0 A16 by simp
      then show ?thesis using h i by (simp add: algebra_simps)
    qed
    show "I (k + 1) tm'"
      unfolding I_def using l B M0 M H by blast
  next
    fix k tm tm' assume k: "(1::int) \<le> k" and I: "I k tm"
      and a: "last_normal k3 kf En P (arange (length tooth_node)) tm = Inr tm'"
    from I have len: "int (length tm) = N" by (simp add: I_def)
    then have leq: "length tm = length tooth_node" by (simp add: N_def)
    from last_normal_elt [OF len A16 E0 KN A_def E_def, of P] a
    have l: "int (length tm') = N"
      and e: "\<And>i. 0 \<le> i \<Longrightarrow> i < N \<Longrightarrow> elt tm' i =
        (if i < 12 then elt tm i + P
         else if i = 12 then elt tm 14
         else if i = 13 then elt tm 15
         else if i = 14 then 12
         else if i = 15 then 13
         else if i < A then elt tm i + (P - 2)
         else if i < A + E then elt tm (i + E)
         else if i < A + 2 * E then i - E
         else elt tm i + (P - E - 2))"
      unfolding leq by auto
    have b: "0 \<le> elt tm i \<and> elt tm i < N + k * P" if "0 \<le> i" "i < N" for i
      using I that by (simp add: I_def)
    have m0: "elt tm i = i + N + (k - 1) * P" if "0 \<le> i" "i < 12" for i
      using I that by (simp add: I_def)
    have m: "elt tm i = i + N - 2 + (k - 1) * P" if "14 \<le> i" "i < A" for i
      using I that by (simp add: I_def)
    have h: "elt tm i = i + k * P" if "A + E \<le> i" "i < N" for i
      using I that by (simp add: I_def)
    have kP: "0 \<le> k * P" using k P0 by simp
    have B: "0 \<le> elt tm' i \<and> elt tm' i < N + k * P + PL" if i: "0 \<le> i \<and> i < N" for i
    proof -
      consider "i < 12" | "i = 12" | "i = 13" | "i = 14" | "i = 15" | "16 \<le> i" "i < A"
        | "A \<le> i" "i < A + E" | "A + E \<le> i" "i < A + 2 * E" | "A + 2 * E \<le> i"
        using i by linarith
      then show ?thesis
      proof cases
        case 1
        then have "elt tm' i = i + N + (k - 1) * P + P" using e i m0 by simp
        then show ?thesis
          using 1 i kP PL0 by (simp add: algebra_simps)
      next
        case 2
        then have "elt tm' i = elt tm 14" using e i by simp
        moreover have "0 \<le> elt tm 14 \<and> elt tm 14 < N + k * P"
          using b [of 14] KN E0 A16 by simp
        ultimately show ?thesis using PL0 by simp
      next
        case 3
        then have "elt tm' i = elt tm 15" using e i by simp
        moreover have "0 \<le> elt tm 15 \<and> elt tm 15 < N + k * P"
          using b [of 15] KN E0 A16 by simp
        ultimately show ?thesis using PL0 by simp
      next
        case 4
        then have "elt tm' i = 12" using e i by simp
        then show ?thesis using i kP PL0 A16 KN E0 by simp
      next
        case 5
        then have "elt tm' i = 13" using e i by simp
        then show ?thesis using i kP PL0 A16 KN E0 by simp
      next
        case 6
        then have "elt tm' i = i + N - 2 + (k - 1) * P + (P - 2)" using e i m by simp
        then show ?thesis
          using 6 i kP KN E0 A16 by (simp add: algebra_simps PL_def)
      next
        case 7
        then have "elt tm' i = elt tm (i + E)" using e i A16 by simp
        moreover have "0 \<le> elt tm (i + E) \<and> elt tm (i + E) < N + k * P"
          using b [of "i + E"] i 7 KN E0 A16 by simp
        ultimately show ?thesis using PL0 by simp
      next
        case 8
        then have "elt tm' i = i - E" using e i E0 A16 by simp
        then show ?thesis
          using 8 i kP PL0 E0 A16 by simp
      next
        case 9
        then have "elt tm' i = i + k * P + (P - E - 2)" using e i h E0 A16 by simp
        then show ?thesis
          using 9 i kP KN E0 A16 by (simp add: algebra_simps PL_def PS)
      qed
    qed
    show "index_table N (N + k * P + PL) tm'"
      unfolding index_table_def using l B by blast
  next
    fix k tm assume "(1::int) \<le> k" "I k tm"
    then show "index_table N (N + k * P) tm" by (simp add: I_def index_table_def)
  qed
qed

subsection \<open>Cell and node counts\<close>

lemma stitch_count:
  assumes "stitch rl rm rlast temp temp_last rot_phi zz (tooth_node, tooth_cell) = Inr (node, cell)"
    and "3 \<le> zz" and "int (length tooth_node) = N"
    and "int (length temp) = N - s" and "int (length temp_last) = N - 2 * s"
  shows "int (length cell) = zz * int (length tooth_cell)"
    and "int (length node) = zz * (N - s)"
proof -
  have n: "int (nat (zz - 3)) = zz - 3" using assms(2) by simp
  from stitch_lengths(1) [OF assms(1)]
  have "int (length cell) = (3 + int (nat (zz - 3))) * int (length tooth_cell)"
    by (simp add: algebra_simps)
  then show "int (length cell) = zz * int (length tooth_cell)" using assms(2) by (simp add: n)
  from stitch_lengths(2) [OF assms(1)]
  have "int (length node) = int (length tooth_node) + (1 + int (nat (zz - 3))) * int (length temp)
           + int (length temp_last)"
    by (simp add: algebra_simps)
  then show "int (length node) = zz * (N - s)"
    using assms(2-5) by (simp add: n algebra_simps)
qed

lemma stitch_internal_count:
  assumes st: "stitch_internal K k1 k2 k3 rot_phi zz (tooth_node, tooth_cell) = Inr (node, cell)"
    and zz: "3 \<le> zz"
    and K: "8 \<le> K" and ks: "1 \<le> k1" "1 \<le> k2" "1 \<le> k3"
    and N: "K + 2 * (k1 + k2 + k3 - 3) \<le> int (length tooth_node)"
  shows "int (length cell) = zz * int (length tooth_cell)"
    and "int (length node) = zz * (int (length tooth_node) - (k1 + k2 + k3 + 1))"
proof -
  define temp where "temp = slice tooth_node 4 K @ slice_from tooth_node (K + (k1 + k2 + k3 - 3))"
  define temp_last where
    "temp_last = slice tooth_node 8 K @ slice_from tooth_node (K + 2 * (k1 + k2 + k3 - 3))"
  have lt: "int (length temp) = int (length tooth_node) - (k1 + k2 + k3 + 1)"
    using K ks N unfolding temp_def by (simp add: length_slice length_slice_from)
  have ltl: "int (length temp_last) = int (length tooth_node) - 2 * (k1 + k2 + k3 + 1)"
    using K ks N unfolding temp_last_def by (simp add: length_slice length_slice_from)
  from st have st': "stitch
          (remap_internal K k1 k2 k3
             (int (length tooth_node) - (k1 + k2 + k3 + 1) + (k1 + k2 + k3 - 3))
             (int (length tooth_node) - (k1 + k2 + k3 + 1)))
          (remap_internal K k1 k2 k3 (int (length tooth_node) - (k1 + k2 + k3 + 1))
             (int (length tooth_node) - (k1 + k2 + k3 + 1)))
          (last_internal K k1 k2 k3 (int (length tooth_node) - (k1 + k2 + k3 + 1))
             (arange (length tooth_node)))
          temp temp_last rot_phi zz (tooth_node, tooth_cell) = Inr (node, cell)"
    unfolding stitch_internal_def Let_def temp_def temp_last_def by simp
  from stitch_count [OF st' zz refl lt ltl]
  show "int (length cell) = zz * int (length tooth_cell)"
    and "int (length node) = zz * (int (length tooth_node) - (k1 + k2 + k3 + 1))"
    by simp_all
qed

lemma stitch_reduced_count:
  assumes st: "stitch_reduced k1 k2 k3 rot_phi zz (tooth_node, tooth_cell) = Inr (node, cell)"
    and zz: "3 \<le> zz"
    and ks: "1 \<le> k1" "1 \<le> k2" "1 \<le> k3"
    and N: "12 + 2 * (k1 + k2 + k3 - 3) + (k3 - 1) \<le> int (length tooth_node)"
  shows "int (length cell) = zz * int (length tooth_cell)"
    and "int (length node) = zz * (int (length tooth_node) - (k3 + 1))"
proof -
  define temp where "temp = slice tooth_node 2 12 @ slice_from tooth_node (12 + (k3 - 1))"
  define temp_last where
    "temp_last = slice tooth_node 2 4 @ slice tooth_node 5 11
           @ slice tooth_node (12 + (k3 - 1)) (12 + 2 * (k1 + k2 + k3 - 3))
           @ slice_from tooth_node (12 + 2 * (k1 + k2 + k3 - 3) + k3 - 1)"
  have lt: "int (length temp) = int (length tooth_node) - (k3 + 1)"
    using ks N unfolding temp_def by (simp add: length_slice length_slice_from)
  have ltl: "int (length temp_last) = int (length tooth_node) - 2 * (k3 + 1)"
    using ks N unfolding temp_last_def by (simp add: length_slice length_slice_from)
  from st have st': "stitch
          (remap_reduced k1 k2 k3 (int (length tooth_node) - (k3 + 1) + k3 - 1)
              (int (length tooth_node) - (k3 + 1)))
          (remap_reduced k1 k2 k3 (int (length tooth_node) - (k3 + 1))
              (int (length tooth_node) - (k3 + 1)))
          (last_reduced k1 k2 k3 (int (length tooth_node) - (k3 + 1)) (arange (length tooth_node)))
          temp temp_last rot_phi zz (tooth_node, tooth_cell) = Inr (node, cell)"
    unfolding stitch_reduced_def Let_def temp_def temp_last_def by simp
  from stitch_count [OF st' zz refl lt ltl]
  show "int (length cell) = zz * int (length tooth_cell)"
    and "int (length node) = zz * (int (length tooth_node) - (k3 + 1))"
    by simp_all
qed

lemma stitch_normal_count:
  assumes st: "stitch_normal k1 k2 k3 ka kf rot_phi zz (tooth_node, tooth_cell) = Inr (node, cell)"
    and zz: "3 \<le> zz"
    and ks: "1 \<le> k1" "1 \<le> k2" "1 \<le> k3" "1 \<le> ka" "1 \<le> kf"
    and N: "16 + edge_node_num_ext k1 k2 k3 ka kf \<le> int (length tooth_node)"
  shows "int (length cell) = zz * int (length tooth_cell)"
    and "int (length node) = zz * (int (length tooth_node) - (k3 + 1))"
proof -
  define En where "En = edge_node_num_ext k1 k2 k3 ka kf"
  define temp where "temp = slice tooth_node 0 12
           @ slice tooth_node 14 (16 + En - (4 * (kf - 1) + 2 * (k3 - 1)))
           @ slice_from tooth_node (16 + En - (4 * (kf - 1) + (k3 - 1)))"
  define temp_last where
    "temp_last = slice tooth_node 0 12
           @ slice tooth_node 16 (16 + En - (4 * (kf - 1) + 2 * (k3 - 1)))
           @ slice_from tooth_node (16 + En - (4 * (kf - 1)))"
  have En: "En = (ka - 1) * 8 + (k2 - 1) * 3 + (k1 - 1) * 3 + (k3 - 1) * 5 + (kf - 1) * 4"
    by (simp add: En_def edge_node_num_ext_def)
  have N': "16 + En \<le> int (length tooth_node)" using N by (simp add: En_def)
  have lt: "int (length temp) = int (length tooth_node) - (k3 + 1)"
    using ks N' unfolding temp_def by (simp add: length_slice length_slice_from En)
  have ltl: "int (length temp_last) = int (length tooth_node) - 2 * (k3 + 1)"
    using ks N' unfolding temp_last_def by (simp add: length_slice length_slice_from En)
  from st have st': "stitch
          (remap_normal k3 kf En
             (int (length tooth_node) - (k3 + 1) + (k3 - 1) + 2)
             (int (length tooth_node) - (k3 + 1) + (k3 - 1))
             (int (length tooth_node) - (k3 + 1)))
          (remap_normal k3 kf En (int (length tooth_node) - (k3 + 1))
             (int (length tooth_node) - (k3 + 1)) (int (length tooth_node) - (k3 + 1)))
          (last_normal k3 kf En (int (length tooth_node) - (k3 + 1)) (arange (length tooth_node)))
          temp temp_last rot_phi zz (tooth_node, tooth_cell) = Inr (node, cell)"
    unfolding stitch_normal_def Let_def temp_def temp_last_def En_def by simp
  from stitch_count [OF st' zz refl lt ltl]
  show "int (length cell) = zz * int (length tooth_cell)"
    and "int (length node) = zz * (int (length tooth_node) - (k3 + 1))"
    by simp_all
qed


subsection \<open>Cells keep their number of corners\<close>

lemma take_cells_cell_len:
  assumes tc: "take_cells tm cell = Inr new" and l: "\<forall>c \<in> set cell. length c = k"
  shows "\<forall>c \<in> set new. length c = k"
proof
  fix c assume c: "c \<in> set new"
  from list_all2_setR [OF take_cells_Inr [OF tc] c] obtain c0 where c0: "c0 \<in> set cell"
    and l2: "list_all2 (\<lambda>i v. getitem tm i = Inr v) c0 c" by blast
  from list_all2_lengthD [OF l2] l c0 show "length c = k" by simp
qed

lemma copy_loop_cell_len:
  "copy_loop rm rot_phi temp ocell js (tm, node, cell) = Inr (tm', node', cell') \<Longrightarrow>
   \<forall>c \<in> set ocell. length c = k \<Longrightarrow> \<forall>c \<in> set cell. length c = k \<Longrightarrow>
   \<forall>c \<in> set cell'. length c = k"
proof (induction js arbitrary: tm node cell)
  case Nil
  then show ?case by simp
next
  case (Cons j js)
  from Cons.prems(1) obtain phi tm1 new where
    tc: "take_cells tm1 ocell = Inr new"
    and rest: "copy_loop rm rot_phi temp ocell js
                 (tm1, node @ map (rotate phi) temp, cell @ new) = Inr (tm', node', cell')"
    by (auto simp: bnd_Inr_iff)
  from take_cells_cell_len [OF tc Cons.prems(2)] Cons.prems(3)
  have "\<forall>c \<in> set (cell @ new). length c = k" by auto
  from Cons.IH [OF rest Cons.prems(2) this] show ?case .
qed

lemma stitch_cell_len:
  assumes st: "stitch rl rm rlast temp temp_last rot_phi zz (tooth_node, tooth_cell) = Inr (node, cell)"
    and l: "\<forall>c \<in> set tooth_cell. length c = k"
  shows "\<forall>c \<in> set cell. length c = k"
proof -
  from stitch_Inr [OF st] obtain tm1 phi1 new1 tm2 node2 cell2 phi3 tm3 new3 where
    tc1: "take_cells tm1 tooth_cell = Inr new1"
    and loop: "copy_loop rm rot_phi temp tooth_cell [2..zz - 2]
                 (tm1, tooth_node @ map (rotate phi1) temp, tooth_cell @ new1)
               = Inr (tm2, node2, cell2)"
    and tc3: "take_cells tm3 tooth_cell = Inr new3"
    and res: "cell = cell2 @ new3"
    by blast
  from take_cells_cell_len [OF tc1 l] l have "\<forall>c \<in> set (tooth_cell @ new1). length c = k" by auto
  from copy_loop_cell_len [OF loop l this] take_cells_cell_len [OF tc3 l] res
  show ?thesis by auto
qed

lemma stitch_internal_cell_len:
  assumes st: "stitch_internal K k1 k2 k3 rot_phi zz (tooth_node, tooth_cell) = Inr (node, cell)"
    and l: "\<forall>c \<in> set tooth_cell. length c = k"
  shows "\<forall>c \<in> set cell. length c = k"
  using st unfolding stitch_internal_def Let_def fst_conv snd_conv
  by (rule stitch_cell_len) (rule l)

lemma stitch_reduced_cell_len:
  assumes st: "stitch_reduced k1 k2 k3 rot_phi zz (tooth_node, tooth_cell) = Inr (node, cell)"
    and l: "\<forall>c \<in> set tooth_cell. length c = k"
  shows "\<forall>c \<in> set cell. length c = k"
  using st unfolding stitch_reduced_def Let_def fst_conv snd_conv
  by (rule stitch_cell_len) (rule l)

lemma stitch_normal_cell_len:
  assumes st: "stitch_normal k1 k2 k3 ka kf rot_phi zz (tooth_node, tooth_cell) = Inr (node, cell)"
    and l: "\<forall>c \<in> set tooth_cell. length c = k"
  shows "\<forall>c \<in> set cell. length c = k"
  using st unfolding stitch_normal_def Let_def fst_conv snd_conv
  by (rule stitch_cell_len) (rule l)


subsection \<open>What a successful run of generate_mesh went through\<close>

lemma ExternalGear_generate_mesh_Inr:
  assumes "ExternalGear_generate_mesh G fsolve qm g = Inr (m, g')"
  shows "\<exists>delta rot_phi zz q. ExternalGear_delta_angle G fsolve g = Inr (delta, rot_phi, zz) \<and>
     qm = Inr q \<and> g' = g\<lparr>mesh := Some m\<rparr> \<and>
     (if delta < 1 / 10 ^ 12 then stitch_reduced (n1 g) (n2 g) (n3 g) rot_phi zz q = Inr m
      else stitch_normal (n1 g) (n2 g) (n3 g) (na g) (nf g) rot_phi zz q = Inr m)"
proof -
  from assms obtain delta rot_phi zz where
    d: "ExternalGear_delta_angle G fsolve g = Inr (delta, rot_phi, zz)"
    and r: "(if delta < 1 / 10 ^ 12
     then
       if na g + 1 < 0 \<or> n3 g + 1 < 0 \<or> n1 g + 1 < 0 \<or> n2 g + 1 < 0
       then Inl ValueError
       else
         bnd qm (\<lambda>quad_mesh.
         bnd (stitch_reduced (n1 g) (n2 g) (n3 g) rot_phi zz quad_mesh)
           (\<lambda>t_mesh. Inr (t_mesh, g\<lparr>mesh := Some t_mesh\<rparr>)))
     else
       if na g + 1 < 0 \<or> n3 g + 1 < 0 \<or> n1 g + 1 < 0 \<or> n2 g + 1 < 0 \<or> nf g + 1 < 0
       then Inl ValueError
       else
         bnd qm (\<lambda>quad_mesh.
         bnd (stitch_normal (n1 g) (n2 g) (n3 g) (na g) (nf g) rot_phi zz quad_mesh)
           (\<lambda>t_mesh. Inr (t_mesh, g\<lparr>mesh := Some t_mesh\<rparr>)))) = Inr (m, g')"
    unfolding ExternalGear_generate_mesh_def by (auto simp: bnd_Inr_iff)
  show ?thesis
  proof (cases "delta < 1 / 10 ^ 12")
    case True
    with r obtain q where "qm = Inr q" "g' = g\<lparr>mesh := Some m\<rparr>"
      "stitch_reduced (n1 g) (n2 g) (n3 g) rot_phi zz q = Inr m"
      by (auto simp: bnd_Inr_iff split: if_splits)
    with d True show ?thesis by auto
  next
    case False
    with r obtain q where "qm = Inr q" "g' = g\<lparr>mesh := Some m\<rparr>"
      "stitch_normal (n1 g) (n2 g) (n3 g) (na g) (nf g) rot_phi zz q = Inr m"
      by (auto simp: bnd_Inr_iff split: if_splits)
    with d False show ?thesis by auto
  qed
qed

lemma ExternalGear_delta_angle_global:
  assumes "ExternalGear_delta_angle G fsolve g = Inr (delta, rot_phi, zz)"
  shows "\<exists>zv. G ''z'' = Some zv \<and> isinstance_int zv \<and> zz = int_of_pyval zv"
  using assms unfolding ExternalGear_delta_angle_def Let_def
  by (auto simp: bnd_Inr_iff split: if_splits option.splits)

lemma internal_tail_Inr:
  assumes "internal_tail G qm K b g = Inr (m, g')"
  shows "\<exists>q rot_phi. qm = Inr q \<and> z g \<noteq> 0 \<and> g' = g\<lparr>mesh := Some m\<rparr> \<and>
     stitch_internal K (n1 g) (n2 g) (n3 g) rot_phi (z g) q = Inr m"
  using assms unfolding internal_tail_def
  by (auto simp: bnd_Inr_iff split: if_splits option.splits)

lemma InternalGear_generate_mesh_Inr:
  assumes "InternalGear_generate_mesh G fsolve qm g = Inr (m, g')"
  shows "\<exists>t_2 points g1 q rot_phi. getitem (t g) 2 = Inr t_2 \<and>
     InternalGear_get_profile_points fsolve g = Inr (points, g1) \<and>
     qm = Inr q \<and> z g1 \<noteq> 0 \<and> g' = g1\<lparr>mesh := Some m\<rparr> \<and>
     stitch_internal (if internal_gear.rc g \<ge> t_2 then 14 else 18)
        (n1 g1) (n2 g1) (n3 g1) rot_phi (z g1) q = Inr m"
proof -
  from assms obtain t_2 where t2: "getitem (t g) 2 = Inr t_2"
    and r: "(if internal_gear.rc g \<ge> t_2
     then bnd (InternalGear_get_profile_points fsolve g)
            (\<lambda>(points, g'). internal_tail G qm 14 False g')
     else bnd (InternalGear_get_profile_points fsolve g)
            (\<lambda>(points, g'). internal_tail G qm 18 True g')) = Inr (m, g')"
    unfolding InternalGear_generate_mesh_def by (auto simp: bnd_Inr_iff)
  from r obtain points g1 b where
    p: "InternalGear_get_profile_points fsolve g = Inr (points, g1)"
    and tl: "internal_tail G qm (if internal_gear.rc g \<ge> t_2 then 14 else 18) b g1 = Inr (m, g')"
    by (cases "internal_gear.rc g \<ge> t_2") (auto simp: bnd_Inr_iff)
  from internal_tail_Inr [OF tl] t2 p show ?thesis by blast
qed

lemma InternalGear_get_profile_points_frame:
  assumes "InternalGear_get_profile_points fsolve g = Inr (points, g1)"
  shows "\<exists>t_2. getitem (t g) 2 = Inr t_2 \<and>
     g1 = (if internal_gear.rc g \<ge> t_2 then g
           else g\<lparr>t := fsolve (fillet_func (rb_cutter g) (etab g) (internal_gear.rc g)
                                 (ra_cutter g)) [1, 0.75 * pi, 0, ra_cutter g]\<rparr>)"
proof -
  from assms obtain t_2 where t2: "getitem (t g) 2 = Inr t_2"
    unfolding InternalGear_get_profile_points_def Let_def
    by (auto simp: bnd_Inr_iff split: if_splits option.splits)
  show ?thesis
  proof (cases "internal_gear.rc g \<ge> t_2")
    case True
    with assms t2 have "g1 = g"
      unfolding InternalGear_get_profile_points_def Let_def
      by (auto simp: bnd_Inr_iff split: if_splits option.splits)
    with t2 True show ?thesis by simp
  next
    case False
    with assms t2 have "g1 = g\<lparr>t := fsolve (fillet_func (rb_cutter g) (etab g) (internal_gear.rc g)
                                 (ra_cutter g)) [1, 0.75 * pi, 0, ra_cutter g]\<rparr>"
      unfolding InternalGear_get_profile_points_def Let_def
      by (auto simp: bnd_Inr_iff split: if_splits option.splits)
    with t2 False show ?thesis by simp
  qed
qed


subsection \<open>Index validity of the assembled mesh\<close>

lemma external_mesh_within:
  assumes run: "ExternalGear_generate_mesh G fsolve (Inr q) e = Inr (m, e')"
    and da: "ExternalGear_delta_angle G fsolve e = Inr (delta, rot_phi, zz)"
    and ks: "1 \<le> n1 e" "1 \<le> n2 e" "1 \<le> n3 e" "1 \<le> na e" "1 \<le> nf e"
    and con: "ExternalGear_contract delta e q"
  shows "cells_within (int (length (fst m))) (snd m)" and "\<forall>c \<in> set (snd m). length c = 4"
proof -
  obtain tn tc where q: "q = (tn, tc)" by (cases q)
  obtain node cell where m: "m = (node, cell)" by (cases m)
  from ExternalGear_generate_mesh_Inr [OF run] da
  have st: "if delta < 1 / 10 ^ 12 then stitch_reduced (n1 e) (n2 e) (n3 e) rot_phi zz q = Inr m
      else stitch_normal (n1 e) (n2 e) (n3 e) (na e) (nf e) rot_phi zz q = Inr m"
    by auto
  have "cells_within (int (length node)) cell \<and> (\<forall>c \<in> set cell. length c = 4)"
  proof (cases "delta < 1 / 10 ^ 12")
    case True
    with st have s: "stitch_reduced (n1 e) (n2 e) (n3 e) rot_phi zz (tn, tc) = Inr (node, cell)"
      by (simp add: q m)
    from con True have c: "generator_contract 12 (edge_node_num_reduced (n1 e) (n2 e) (n3 e) (na e)) (tn, tc)"
      by (simp add: ExternalGear_contract_def q)
    then have N: "12 + 2 * (n1 e + n2 e + n3 e - 3) + (n3 e - 1) \<le> int (length tn)"
      using ks by (simp add: generator_contract_def edge_node_num_reduced_def)
    from c have cw: "cells_within (int (length tn)) tc" and l4: "\<forall>c \<in> set tc. length c = 4"
      by (simp_all add: generator_contract_def)
    from stitch_reduced_within [OF s ks(1-3) N cw] stitch_reduced_cell_len [OF s l4]
    show ?thesis by simp
  next
    case False
    with st have s: "stitch_normal (n1 e) (n2 e) (n3 e) (na e) (nf e) rot_phi zz (tn, tc) = Inr (node, cell)"
      by (simp add: q m)
    from con False have c: "generator_contract 16 (edge_node_num_ext (n1 e) (n2 e) (n3 e) (na e) (nf e)) (tn, tc)"
      by (simp add: ExternalGear_contract_def q)
    then have N: "16 + edge_node_num_ext (n1 e) (n2 e) (n3 e) (na e) (nf e) \<le> int (length tn)"
      by (simp add: generator_contract_def)
    from c have cw: "cells_within (int (length tn)) tc" and l4: "\<forall>c \<in> set tc. length c = 4"
      by (simp_all add: generator_contract_def)
    from stitch_normal_within [OF s ks N cw] stitch_normal_cell_len [OF s l4]
    show ?thesis by simp
  qed
  then show "cells_within (int (length (fst m))) (snd m)" and "\<forall>c \<in> set (snd m). length c = 4"
    by (simp_all add: m)
qed

lemma profile_keeps_counts:
  assumes p: "InternalGear_get_profile_points fsolve g = Inr (points, g1)"
  shows "n1 g1 = n1 g" "n2 g1 = n2 g" "n3 g1 = n3 g" "na g1 = na g" "nf g1 = nf g" "z g1 = z g"
proof -
  from InternalGear_get_profile_points_frame [OF p] obtain tt where
    "g1 = g \<or> g1 = g\<lparr>t := tt\<rparr>" by metis
  then show "n1 g1 = n1 g" "n2 g1 = n2 g" "n3 g1 = n3 g" "na g1 = na g" "nf g1 = nf g" "z g1 = z g"
    by auto
qed

lemma internal_run:
  assumes run: "InternalGear_generate_mesh G fsolve (Inr q) g = Inr (m, g')"
    and t2: "getitem (t g) 2 = Inr t_2"
  shows "\<exists>rot_phi. stitch_internal (if internal_gear.rc g \<ge> t_2 then 14 else 18)
        (n1 g) (n2 g) (n3 g) rot_phi (z g) q = Inr m"
proof -
  from InternalGear_generate_mesh_Inr [OF run] obtain t2' points g1 q' rot_phi where
    t2': "getitem (t g) 2 = Inr t2'"
    and p: "InternalGear_get_profile_points fsolve g = Inr (points, g1)"
    and q': "Inr q = (Inr q' :: error + mesh)"
    and s: "stitch_internal (if internal_gear.rc g \<ge> t2' then 14 else 18)
        (n1 g1) (n2 g1) (n3 g1) rot_phi (z g1) q' = Inr m"
    by blast
  from t2 t2' have e: "t2' = t_2" by simp
  from q' have e': "q' = q" by simp
  from s show ?thesis unfolding profile_keeps_counts [OF p] e e' by (rule exI)
qed

lemma internal_contract_bound:
  assumes ks: "1 \<le> n1 g" "1 \<le> n2 g" "1 \<le> n3 g" "1 \<le> na g" "1 \<le> nf g"
    and con: "InternalGear_contract t_2 g (tn, tc)"
  shows "(if internal_gear.rc g \<ge> t_2 then 14 else 18) + 2 * (n1 g + n2 g + n3 g - 3) \<le> int (length tn)"
    and "cells_within (int (length tn)) tc" and "\<forall>c \<in> set tc. length c = 4"
proof -
  show "(if internal_gear.rc g \<ge> t_2 then 14 else 18) + 2 * (n1 g + n2 g + n3 g - 3) \<le> int (length tn)"
  proof (cases "internal_gear.rc g \<ge> t_2")
    case True
    with con have "14 + edge_node_num_int14 (n1 g) (n2 g) (n3 g) (na g) \<le> int (length tn)"
      by (simp add: InternalGear_contract_def generator_contract_def)
    with ks True show ?thesis by (simp add: edge_node_num_int14_def)
  next
    case False
    with con have "18 + edge_node_num_int18 (n1 g) (n2 g) (n3 g) (na g) (nf g) \<le> int (length tn)"
      by (simp add: InternalGear_contract_def generator_contract_def)
    with ks False show ?thesis by (simp add: edge_node_num_int18_def)
  qed
  from con show "cells_within (int (length tn)) tc"
    by (cases "internal_gear.rc g \<ge> t_2") (simp_all add: InternalGear_contract_def generator_contract_def)
  from con show "\<forall>c \<in> set tc. length c = 4"
    by (cases "internal_gear.rc g \<ge> t_2") (simp_all add: InternalGear_contract_def generator_contract_def)
qed

lemma internal_mesh_within:
  assumes run: "InternalGear_generate_mesh G fsolve (Inr q) g = Inr (m, g')"
    and t2: "getitem (t g) 2 = Inr t_2"
    and ks: "1 \<le> n1 g" "1 \<le> n2 g" "1 \<le> n3 g" "1 \<le> na g" "1 \<le> nf g"
    and con: "InternalGear_contract t_2 g q"
  shows "cells_within (int (length (fst m))) (snd m)" and "\<forall>c \<in> set (snd m). length c = 4"
proof -
  obtain tn tc where q: "q = (tn, tc)" by (cases q)
  obtain node cell where m: "m = (node, cell)" by (cases m)
  from internal_run [OF run t2] obtain rot_phi where
    s: "stitch_internal (if internal_gear.rc g \<ge> t_2 then 14 else 18)
        (n1 g) (n2 g) (n3 g) rot_phi (z g) (tn, tc) = Inr (node, cell)"
    by (auto simp: q m)
  note b = internal_contract_bound [OF ks con [unfolded q]]
  have K: "8 \<le> (if internal_gear.rc g \<ge> t_2 then 14 else 18 :: int)" by simp
  from stitch_internal_within [OF s K ks(1-3) b(1) b(2)] stitch_internal_cell_len [OF s b(3)]
  show "cells_within (int (length (fst m))) (snd m)" and "\<forall>c \<in> set (snd m). length c = 4"
    by (simp_all add: m)
qed


subsection \<open>Counts of the assembled mesh\<close>

lemma external_mesh_count:
  assumes run: "ExternalGear_generate_mesh G fsolve (Inr q) e = Inr (m, e')"
    and da: "ExternalGear_delta_angle G fsolve e = Inr (delta, rot_phi, zz)"
    and zz: "3 \<le> zz"
    and ks: "1 \<le> n1 e" "1 \<le> n2 e" "1 \<le> n3 e" "1 \<le> na e" "1 \<le> nf e"
    and con: "ExternalGear_contract delta e q"
  shows "int (length (snd m)) = zz * int (length (snd q))"
    and "int (length (fst m)) = zz * (int (length (fst q)) - (n3 e + 1))"
proof -
  obtain tn tc where q: "q = (tn, tc)" by (cases q)
  obtain node cell where m: "m = (node, cell)" by (cases m)
  from ExternalGear_generate_mesh_Inr [OF run] da
  have st: "if delta < 1 / 10 ^ 12 then stitch_reduced (n1 e) (n2 e) (n3 e) rot_phi zz q = Inr m
      else stitch_normal (n1 e) (n2 e) (n3 e) (na e) (nf e) rot_phi zz q = Inr m"
    by auto
  have "int (length cell) = zz * int (length tc) \<and>
        int (length node) = zz * (int (length tn) - (n3 e + 1))"
  proof (cases "delta < 1 / 10 ^ 12")
    case True
    with st have s: "stitch_reduced (n1 e) (n2 e) (n3 e) rot_phi zz (tn, tc) = Inr (node, cell)"
      by (simp add: q m)
    from con True have c: "generator_contract 12 (edge_node_num_reduced (n1 e) (n2 e) (n3 e) (na e)) (tn, tc)"
      by (simp add: ExternalGear_contract_def q)
    then have N: "12 + 2 * (n1 e + n2 e + n3 e - 3) + (n3 e - 1) \<le> int (length tn)"
      using ks by (simp add: generator_contract_def edge_node_num_reduced_def)
    from stitch_reduced_count [OF s zz ks(1-3) N] show ?thesis by simp
  next
    case False
    with st have s: "stitch_normal (n1 e) (n2 e) (n3 e) (na e) (nf e) rot_phi zz (tn, tc) = Inr (node, cell)"
      by (simp add: q m)
    from con False have c: "generator_contract 16 (edge_node_num_ext (n1 e) (n2 e) (n3 e) (na e) (nf e)) (tn, tc)"
      by (simp add: ExternalGear_contract_def q)
    then have N: "16 + edge_node_num_ext (n1 e) (n2 e) (n3 e) (na e) (nf e) \<le> int (length tn)"
      by (simp add: generator_contract_def)
    from stitch_normal_count [OF s zz ks N] show ?thesis by simp
  qed
  then show "int (length (snd m)) = zz * int (length (snd q))"
    and "int (length (fst m)) = zz * (int (length (fst q)) - (n3 e + 1))"
    by (simp_all add: m q)
qed

lemma internal_mesh_count:
  assumes run: "InternalGear_generate_mesh G fsolve (Inr q) g = Inr (m, g')"
    and t2: "getitem (t g) 2 = Inr t_2"
    and zz: "3 \<le> z g"
    and ks: "1 \<le> n1 g" "1 \<le> n2 g" "1 \<le> n3 g" "1 \<le> na g" "1 \<le> nf g"
    and con: "InternalGear_contract t_2 g q"
  shows "int (length (snd m)) = z g * int (length (snd q))"
    and "int (length (fst m)) = z g * (int (length (fst q)) - (n1 g + n2 g + n3 g + 1))"
proof -
  obtain tn tc where q: "q = (tn, tc)" by (cases q)
  obtain node cell where m: "m = (node, cell)" by (cases m)
  from internal_run [OF run t2] obtain rot_phi where
    s: "stitch_internal (if internal_gear.rc g \<ge> t_2 then 14 else 18)
        (n1 g) (n2 g) (n3 g) rot_phi (z g) (tn, tc) = Inr (node, cell)"
    by (auto simp: q m)
  note b = internal_contract_bound [OF ks con [unfolded q]]
  have K: "8 \<le> (if internal_gear.rc g \<ge> t_2 then 14 else 18 :: int)" by simp
  from stitch_internal_count [OF s zz K ks(1-3) b(1)]
  show "int (length (snd m)) = z g * int (length (snd q))"
    and "int (length (fst m)) = z g * (int (length (fst q)) - (n1 g + n2 g + n3 g + 1))"
    by (simp_all add: m q)
qed

lemma fewer_nodes:
  fixes zz N s :: int
  assumes "3 \<le> zz" "1 \<le> s"
  shows "zz * (N - s) < zz * N"
proof -
  have "zz * (N - s) = zz * N - zz * s" by (simp add: algebra_simps)
  moreover have "0 < zz * s" using assms by simp
  ultimately show ?thesis by simp
qed


subsection \<open>The stitching returns\<close>

lemma mapM_total:
  "(\<And>x. x \<in> set xs \<Longrightarrow> \<exists>y. f x = Inr y) \<Longrightarrow> \<exists>ys. mapM f xs = Inr ys"
proof (induction xs)
  case Nil
  then show ?case by simp
next
  case (Cons x xs)
  from Cons.prems [of x] obtain y where y: "f x = Inr y" by auto
  from Cons.IH Cons.prems obtain ys where ys: "mapM f xs = Inr ys" by auto
  show ?case by (simp add: y ys)
qed

lemma getitem_total: "- int (length xs) \<le> i \<Longrightarrow> i < int (length xs) \<Longrightarrow> \<exists>v. getitem xs i = Inr v"
  by (simp add: getitem_def py_index_def)

lemma take_cells_total:
  assumes "cells_within (int (length tm)) cell"
  shows "\<exists>new. take_cells tm cell = Inr new"
  unfolding take_cells_def
proof (rule mapM_total)
  fix c assume c: "c \<in> set cell"
  show "\<exists>y. mapM (getitem tm) c = Inr y"
  proof (rule mapM_total)
    fix i assume "i \<in> set c"
    with assms c have "0 \<le> i" "i < int (length tm)" by (auto simp: cells_within_def)
    then show "\<exists>y. getitem tm i = Inr y" by (simp add: getitem_total)
  qed
qed

lemma copy_loop_total:
  assumes mid: "\<And>tm. int (length tm) = N \<Longrightarrow> \<exists>tm'. rm tm = Inr tm' \<and> int (length tm') = N"
    and cw: "cells_within N ocell"
  shows "int (length tm) = N \<Longrightarrow> (\<forall>j \<in> set js. 0 \<le> j \<and> j < int (length rot_phi)) \<Longrightarrow>
     \<exists>tm' node' cell'. copy_loop rm rot_phi temp ocell js (tm, node, cell) = Inr (tm', node', cell')
        \<and> int (length tm') = N"
proof (induction js arbitrary: tm node cell)
  case Nil
  then show ?case by simp
next
  case (Cons j js)
  from Cons.prems(2) obtain phi where phi: "getitem rot_phi j = Inr phi"
    using getitem_total [of rot_phi j] by auto
  from mid [OF Cons.prems(1)] obtain tm1 where tm1: "rm tm = Inr tm1" "int (length tm1) = N"
    by blast
  from take_cells_total [of tm1 ocell] cw tm1(2) obtain new where
    new: "take_cells tm1 ocell = Inr new" by auto
  from Cons.prems(2) have rest: "\<forall>j \<in> set js. 0 \<le> j \<and> j < int (length rot_phi)" by simp
  from Cons.IH [OF tm1(2) rest, of "node @ map (rotate phi) temp" "cell @ new"]
  show ?case by (simp add: phi tm1(1) new)
qed

lemma stitch_total:
  assumes N: "int (length tooth_node) = N"
    and left: "\<And>tm. int (length tm) = N \<Longrightarrow> \<exists>tm'. rl tm = Inr tm' \<and> int (length tm') = N"
    and mid: "\<And>tm. int (length tm) = N \<Longrightarrow> \<exists>tm'. rm tm = Inr tm' \<and> int (length tm') = N"
    and last: "\<And>tm. int (length tm) = N \<Longrightarrow> \<exists>tm'. rlast tm = Inr tm' \<and> int (length tm') = N"
    and cw: "cells_within N tooth_cell"
    and rot: "int (length rot_phi) = zz" "2 \<le> zz"
  shows "\<exists>m. stitch rl rm rlast temp temp_last rot_phi zz (tooth_node, tooth_cell) = Inr m"
proof -
  from left [of "arange (length tooth_node)"] N obtain tm1 where
    tm1: "rl (arange (length tooth_node)) = Inr tm1" "int (length tm1) = N" by auto
  from rot obtain phi1 where phi1: "getitem rot_phi 1 = Inr phi1"
    using getitem_total [of rot_phi 1] by auto
  from take_cells_total [of tm1 tooth_cell] cw tm1(2) obtain new1 where
    new1: "take_cells tm1 tooth_cell = Inr new1" by auto
  have js: "\<forall>j \<in> set [2..zz - 2]. 0 \<le> j \<and> j < int (length rot_phi)" using rot by auto
  from copy_loop_total [of N rm tooth_cell tm1 "[2..zz - 2]" rot_phi temp
       "tooth_node @ map (rotate phi1) temp" "tooth_cell @ new1", OF mid cw tm1(2) js]
  obtain tm2 node2 cell2 where
    loop: "copy_loop rm rot_phi temp tooth_cell [2..zz - 2]
             (tm1, tooth_node @ map (rotate phi1) temp, tooth_cell @ new1) = Inr (tm2, node2, cell2)"
    and tm2: "int (length tm2) = N" by blast
  from rot obtain phi3 where phi3: "getitem rot_phi (- 1) = Inr phi3"
    using getitem_total [of rot_phi "- 1"] by auto
  from last [OF tm2] obtain tm3 where tm3: "rlast tm2 = Inr tm3" "int (length tm3) = N" by blast
  from take_cells_total [of tm3 tooth_cell] cw tm3(2) obtain new3 where
    new3: "take_cells tm3 tooth_cell = Inr new3" by auto
  show ?thesis
    unfolding stitch_def Let_def
    by (simp add: tm1(1) phi1 new1 loop phi3 tm3(1) new3)
qed

lemma stitch_internal_total:
  assumes K: "8 \<le> K" and ks: "1 \<le> k1" "1 \<le> k2" "1 \<le> k3"
    and N: "K + 2 * (k1 + k2 + k3 - 3) \<le> int (length tooth_node)"
    and cw: "cells_within (int (length tooth_node)) tooth_cell"
    and rot: "int (length rot_phi) = zz" "2 \<le> zz"
  shows "\<exists>m. stitch_internal K k1 k2 k3 rot_phi zz (tooth_node, tooth_cell) = Inr m"
proof -
  have S: "0 \<le> k1 + k2 + k3 - 3" using ks by simp
  have l: "last_internal K k1 k2 k3 snn (arange (length tooth_node)) tm
         = last_internal K k1 k2 k3 snn (arange (length tm)) tm"
    if "int (length tm) = int (length tooth_node)" for tm snn
    using that by simp
  show ?thesis
    unfolding stitch_internal_def Let_def fst_conv snd_conv
  proof (rule stitch_total [OF refl _ _ _ cw rot])
    fix tm :: "int list" assume len: "int (length tm) = int (length tooth_node)"
    from remap_internal_elt [OF len K S N]
    show "\<exists>tm'. remap_internal K k1 k2 k3
             (int (length tooth_node) - (k1 + k2 + k3 + 1) + (k1 + k2 + k3 - 3))
             (int (length tooth_node) - (k1 + k2 + k3 + 1)) tm = Inr tm' \<and>
           int (length tm') = int (length tooth_node)" by blast
    from remap_internal_elt [OF len K S N]
    show "\<exists>tm'. remap_internal K k1 k2 k3 (int (length tooth_node) - (k1 + k2 + k3 + 1))
             (int (length tooth_node) - (k1 + k2 + k3 + 1)) tm = Inr tm' \<and>
           int (length tm') = int (length tooth_node)" by blast
    from last_internal_elt [OF len K S N]
    show "\<exists>tm'. last_internal K k1 k2 k3 (int (length tooth_node) - (k1 + k2 + k3 + 1))
             (arange (length tooth_node)) tm = Inr tm' \<and>
           int (length tm') = int (length tooth_node)"
      unfolding l [OF len] by blast
  qed
qed


lemma stitch_reduced_total:
  assumes ks: "1 \<le> k1" "1 \<le> k2" "1 \<le> k3"
    and N: "12 + 2 * (k1 + k2 + k3 - 3) + (k3 - 1) \<le> int (length tooth_node)"
    and cw: "cells_within (int (length tooth_node)) tooth_cell"
    and rot: "int (length rot_phi) = zz" "2 \<le> zz"
  shows "\<exists>m. stitch_reduced k1 k2 k3 rot_phi zz (tooth_node, tooth_cell) = Inr m"
proof -
  define E where "E = k3 - 1"
  define S2 where "S2 = 2 * (k3 + k1 + k2 - 3)"
  have E: "0 \<le> E" "E \<le> S2" and N': "12 + S2 + E \<le> int (length tooth_node)"
    using ks N by (simp_all add: E_def S2_def)
  have l: "last_reduced k1 k2 k3 snn (arange (length tooth_node)) tm
         = last_reduced k1 k2 k3 snn (arange (length tm)) tm"
    if "int (length tm) = int (length tooth_node)" for tm snn
    using that by simp
  show ?thesis
    unfolding stitch_reduced_def Let_def fst_conv snd_conv
  proof (rule stitch_total [OF refl _ _ _ cw rot])
    fix tm :: "int list" assume len: "int (length tm) = int (length tooth_node)"
    from remap_reduced_elt [OF len E N' E_def S2_def]
    show "\<exists>tm'. remap_reduced k1 k2 k3 (int (length tooth_node) - (k3 + 1) + k3 - 1)
             (int (length tooth_node) - (k3 + 1)) tm = Inr tm' \<and>
           int (length tm') = int (length tooth_node)" by blast
    from remap_reduced_elt [OF len E N' E_def S2_def]
    show "\<exists>tm'. remap_reduced k1 k2 k3 (int (length tooth_node) - (k3 + 1))
             (int (length tooth_node) - (k3 + 1)) tm = Inr tm' \<and>
           int (length tm') = int (length tooth_node)" by blast
    from last_reduced_elt [OF len E N' E_def S2_def]
    show "\<exists>tm'. last_reduced k1 k2 k3 (int (length tooth_node) - (k3 + 1))
             (arange (length tooth_node)) tm = Inr tm' \<and>
           int (length tm') = int (length tooth_node)"
      unfolding l [OF len] by blast
  qed
qed

lemma stitch_normal_total:
  assumes ks: "1 \<le> k1" "1 \<le> k2" "1 \<le> k3" "1 \<le> ka" "1 \<le> kf"
    and N: "16 + edge_node_num_ext k1 k2 k3 ka kf \<le> int (length tooth_node)"
    and cw: "cells_within (int (length tooth_node)) tooth_cell"
    and rot: "int (length rot_phi) = zz" "2 \<le> zz"
  shows "\<exists>m. stitch_normal k1 k2 k3 ka kf rot_phi zz (tooth_node, tooth_cell) = Inr m"
proof -
  define En where "En = edge_node_num_ext k1 k2 k3 ka kf"
  define E where "E = k3 - 1"
  define A where "A = 16 + En - (4 * (kf - 1) + 2 * (k3 - 1))"
  have En: "En = (ka - 1) * 8 + (k2 - 1) * 3 + (k1 - 1) * 3 + (k3 - 1) * 5 + (kf - 1) * 4"
    by (simp add: En_def edge_node_num_ext_def)
  have A: "16 \<le> A" and E: "0 \<le> E" and N': "A + 2 * E \<le> int (length tooth_node)"
    using ks N by (simp_all add: A_def E_def En En_def [symmetric])
  have l: "last_normal k3 kf En snn (arange (length tooth_node)) tm
         = last_normal k3 kf En snn (arange (length tm)) tm"
    if "int (length tm) = int (length tooth_node)" for tm snn
    using that by simp
  show ?thesis
    unfolding stitch_normal_def Let_def fst_conv snd_conv En_def [symmetric]
  proof (rule stitch_total [OF refl _ _ _ cw rot])
    fix tm :: "int list" assume len: "int (length tm) = int (length tooth_node)"
    from remap_normal_elt [OF len A E N' A_def E_def]
    show "\<exists>tm'. remap_normal k3 kf En (int (length tooth_node) - (k3 + 1) + (k3 - 1) + 2)
             (int (length tooth_node) - (k3 + 1) + (k3 - 1))
             (int (length tooth_node) - (k3 + 1)) tm = Inr tm' \<and>
           int (length tm') = int (length tooth_node)" by blast
    from remap_normal_elt [OF len A E N' A_def E_def]
    show "\<exists>tm'. remap_normal k3 kf En (int (length tooth_node) - (k3 + 1))
             (int (length tooth_node) - (k3 + 1))
             (int (length tooth_node) - (k3 + 1)) tm = Inr tm' \<and>
           int (length tm') = int (length tooth_node)" by blast
    from last_normal_elt [OF len A E N' A_def E_def]
    show "\<exists>tm'. last_normal k3 kf En (int (length tooth_node) - (k3 + 1))
             (arange (length tooth_node)) tm = Inr tm' \<and>
           int (length tm') = int (length tooth_node)"
      unfolding l [OF len] by blast
  qed
qed


subsection \<open>The external profile is always built\<close>

lemma elt_map: "0 \<le> i \<Longrightarrow> i < int (length xs) \<Longrightarrow> elt (map f xs) i = f (elt xs i)"
  by (simp add: elt_def)

lemma elt_zip:
  "0 \<le> i \<Longrightarrow> i < int (length xs) \<Longrightarrow> i < int (length ys) \<Longrightarrow>
   elt (zip xs ys) i = (elt xs i, elt ys i)"
  by (simp add: elt_def)

lemma linspace_Inr:
  "0 \<le> num \<Longrightarrow> \<exists>us. linspace a b num = Inr us \<and> int (length us) = num \<and>
     (\<forall>i. 0 \<le> i \<and> i < num \<longrightarrow> elt us i = a + real_of_int i * ((b - a) / real (nat num - 1)))"
  by (simp add: linspace_def elt_def)

lemma linspace_open_Inr:
  "0 \<le> num \<Longrightarrow> \<exists>us. linspace_open a b num = Inr us \<and> int (length us) = num \<and>
     (\<forall>i. 0 \<le> i \<and> i < num \<longrightarrow> elt us i = a + real_of_int i * ((b - a) / real (nat num)))"
  by (simp add: linspace_open_def elt_def)

lemma ExternalGear_get_profile_points_total:
  assumes k1: "0 \<le> n1 g" and k2: "0 \<le> n2 g"
  shows "\<exists>pts. ExternalGear_get_profile_points fsolve g = Inr pts \<and>
     int (length pts) = 2 * (n1 g + n2 g + 1) \<and>
     (\<forall>i. 0 \<le> i \<and> i < n1 g + n2 g + 1 \<longrightarrow>
        elt pts (n1 g + n2 g + 1 + i) = (- fst (elt pts i), snd (elt pts i))) \<and>
     (\<forall>i. 0 \<le> i \<and> i \<le> n2 g \<longrightarrow>
        elt pts i = ext_transition_point g
          (1.5 * pi + real_of_int i * ((2 * pi - alpha_t g - 1.5 * pi) / real (nat (n2 g + 1) - 1))))"
proof -
  define h where "h = n2 g + n1 g + 1"
  define p0 :: "point list" where "p0 = replicate (nat ((n1 g + n2 g + 1) * 2)) (0, 0)"
  have len0: "int (length p0) = 2 * h" using k1 k2 by (simp add: p0_def h_def)
  obtain us1 where us1: "linspace (1.5 * pi) (2 * pi - alpha_t g) (n2 g + 1) = Inr us1"
    and lus1: "int (length us1) = n2 g + 1"
    and eus1: "\<And>i. 0 \<le> i \<Longrightarrow> i < n2 g + 1 \<Longrightarrow>
        elt us1 i = 1.5 * pi + real_of_int i * ((2 * pi - alpha_t g - 1.5 * pi) / real (nat (n2 g + 1) - 1))"
  proof -
    have "0 \<le> n2 g + 1" using k2 by simp
    from linspace_Inr [OF this, of "1.5 * pi" "2 * pi - alpha_t g"] that show ?thesis by blast
  qed
  define T where "T = ExternalGear_get_transition_points g us1"
  have lT: "int (length T) = n2 g + 1 - 0"
    by (simp add: T_def ExternalGear_get_transition_points_def lus1)
  have b1: "(0::int) \<le> 0" "0 \<le> n2 g + 1" "n2 g + 1 \<le> int (length p0)"
    using k1 k2 len0 by (simp_all add: h_def)
  from slice_assign_in [OF b1 lT]
  obtain pA where pA: "slice_assign p0 0 (n2 g + 1) T = Inr pA" and lenA: "length pA = length p0"
    and eltA: "\<forall>i. 0 \<le> i \<and> i < int (length p0) \<longrightarrow>
        elt pA i = (if 0 \<le> i \<and> i < n2 g + 1 then elt T (i - 0) else elt p0 i)"
    by blast
  define t1 where "t1 = (m_n g * x_t g
                - (ha_cutter g - external_gear.rc g + external_gear.rc g * sin (alpha_t g)))
               / cos (alpha_t g)"
  define t2 where "t2 = fsolve (\<lambda>t2. map (\<lambda>v. v - 0.5 * effective_da g)
                     (ExternalGear_get_tip_intersection_points g t2)) [m_n g] ! 0"
  from linspace_Inr [OF k1, of "t1 + (t2 - t1) / real_of_int (n1 g)" t2]
  obtain us2 where us2: "linspace (t1 + (t2 - t1) / real_of_int (n1 g)) t2 (n1 g) = Inr us2"
    and lus2: "int (length us2) = n1 g"
    by blast
  define V where "V = ExternalGear_get_involute_points g us2"
  have lV: "int (length V) = n2 g + n1 g + 1 - (n2 g + 1)"
    by (simp add: V_def ExternalGear_get_involute_points_def lus2)
  have b2: "0 \<le> n2 g + 1" "n2 g + 1 \<le> n2 g + n1 g + 1" "n2 g + n1 g + 1 \<le> int (length pA)"
    using k1 k2 len0 lenA by (simp_all add: h_def)
  from slice_assign_in [OF b2 lV]
  obtain pB where pB: "slice_assign pA (n2 g + 1) (n2 g + n1 g + 1) V = Inr pB"
    and lenB: "length pB = length pA"
    and eltB: "\<forall>i. 0 \<le> i \<and> i < int (length pA) \<longrightarrow>
        elt pB i = (if n2 g + 1 \<le> i \<and> i < n2 g + n1 g + 1 then elt V (i - (n2 g + 1)) else elt pA i)"
    by blast
  have lB: "int (length pB) = 2 * h" using lenB lenA len0 by simp
  have h0: "0 \<le> h" using k1 k2 by (simp add: h_def)
  define mx where "mx = map uminus (slice (map fst pB) 0 h)"
  define my where "my = slice (map snd pB) 0 h"
  have lmx: "int (length mx) = int (length pB) - h" and lmy: "int (length my) = int (length pB) - h"
    using h0 lB by (simp_all add: mx_def my_def length_slice)
  have emx: "elt mx i = - fst (elt pB i)" if "0 \<le> i" "i < h" for i
    using that h0 lB by (simp add: mx_def elt_map elt_slice length_slice)
  have emy: "elt my i = snd (elt pB i)" if "0 \<le> i" "i < h" for i
    using that h0 lB by (simp add: my_def elt_map elt_slice length_slice)
  have b3: "0 \<le> h" "h \<le> int (length pB)" "int (length pB) \<le> int (length (map fst pB))"
    "int (length pB) \<le> int (length (map snd pB))"
    using h0 lB by simp_all
  from slice_assign_in [OF b3(1,2,3) lmx]
  obtain xs where xs: "slice_assign (map fst pB) h (int (length pB)) mx = Inr xs"
    and lxs: "length xs = length (map fst pB)"
    and exs: "\<forall>i. 0 \<le> i \<and> i < int (length (map fst pB)) \<longrightarrow>
        elt xs i = (if h \<le> i \<and> i < int (length pB) then elt mx (i - h) else elt (map fst pB) i)"
    by blast
  from slice_assign_in [OF b3(1,2,4) lmy]
  obtain ys where ys: "slice_assign (map snd pB) h (int (length pB)) my = Inr ys"
    and lys: "length ys = length (map snd pB)"
    and eys: "\<forall>i. 0 \<le> i \<and> i < int (length (map snd pB)) \<longrightarrow>
        elt ys i = (if h \<le> i \<and> i < int (length pB) then elt my (i - h) else elt (map snd pB) i)"
    by blast
  have guard: "\<not> (n1 g + n2 g + 1) * 2 < 0" using k1 k2 by simp
  have res: "ExternalGear_get_profile_points fsolve g = Inr (zip xs ys)"
    unfolding ExternalGear_get_profile_points_def Let_def
    by (simp only: if_not_P [OF guard] p0_def [symmetric] us1 bnd_simps T_def [symmetric] pA
          t1_def [symmetric] t2_def [symmetric] us2 V_def [symmetric] pB [folded h_def]
          h_def [symmetric]
          mx_def [symmetric] my_def [symmetric] xs ys)
  have lz: "int (length (zip xs ys)) = 2 * h" using lxs lys lB by simp
  have low: "elt (zip xs ys) i = elt pB i" if "0 \<le> i" "i < h" for i
  proof -
    have "elt xs i = fst (elt pB i)" using exs that lB by (simp add: elt_map)
    moreover have "elt ys i = snd (elt pB i)" using eys that lB by (simp add: elt_map)
    ultimately show ?thesis using that lxs lys lB by (simp add: elt_zip)
  qed
  have high: "elt (zip xs ys) (h + i) = (- fst (elt pB i), snd (elt pB i))" if "0 \<le> i" "i < h" for i
  proof -
    have "elt xs (h + i) = - fst (elt pB i)" using exs that lB emx [OF that] by simp
    moreover have "elt ys (h + i) = snd (elt pB i)" using eys that lB emy [OF that] by simp
    ultimately show ?thesis using that lxs lys lB by (simp add: elt_zip)
  qed
  have tr: "elt pB i = ext_transition_point g
          (1.5 * pi + real_of_int i * ((2 * pi - alpha_t g - 1.5 * pi) / real (nat (n2 g + 1) - 1)))"
    if "0 \<le> i" "i \<le> n2 g" for i
  proof -
    have "elt pB i = elt pA i" using eltB that lenA len0 k1 by (simp add: h_def)
    also have "\<dots> = elt T i" using eltA that len0 k1 by (simp add: h_def)
    also have "\<dots> = ext_transition_point g (elt us1 i)"
      using that lus1 by (simp add: T_def ExternalGear_get_transition_points_def elt_map)
    finally show ?thesis using eus1 [of i] that by simp
  qed
  have "int (length (zip xs ys)) = 2 * (n1 g + n2 g + 1)" using lz by (simp add: h_def)
  moreover have "\<forall>i. 0 \<le> i \<and> i < n1 g + n2 g + 1 \<longrightarrow>
        elt (zip xs ys) (n1 g + n2 g + 1 + i) = (- fst (elt (zip xs ys) i), snd (elt (zip xs ys) i))"
  proof (intro allI impI)
    fix i assume "0 \<le> i \<and> i < n1 g + n2 g + 1"
    then have i: "0 \<le> i" "i < h" by (simp_all add: h_def)
    have "n1 g + n2 g + 1 + i = h + i" by (simp add: h_def)
    then show "elt (zip xs ys) (n1 g + n2 g + 1 + i) = (- fst (elt (zip xs ys) i), snd (elt (zip xs ys) i))"
      using high [OF i] low [OF i] by simp
  qed
  moreover have "\<forall>i. 0 \<le> i \<and> i \<le> n2 g \<longrightarrow>
        elt (zip xs ys) i = ext_transition_point g
          (1.5 * pi + real_of_int i * ((2 * pi - alpha_t g - 1.5 * pi) / real (nat (n2 g + 1) - 1)))"
  proof (intro allI impI)
    fix i assume a: "0 \<le> i \<and> i \<le> n2 g"
    then have i: "0 \<le> i" "i < h" using k1 by (simp_all add: h_def)
    from a tr [of i] low [OF i]
    show "elt (zip xs ys) i = ext_transition_point g
          (1.5 * pi + real_of_int i * ((2 * pi - alpha_t g - 1.5 * pi) / real (nat (n2 g + 1) - 1)))"
      by simp
  qed
  ultimately show ?thesis using res by blast
qed


subsection \<open>The loop of ainv ends\<close>

lemma ainv_seq_bounded: "\<bar>ainv_seq x k\<bar> \<le> pi / 2"
proof (cases k)
  case 0
  then show ?thesis by simp
next
  case (Suc j)
  then show ?thesis
    using arctan_lbound [of "x + ainv_seq x j"] arctan_ubound [of "x + ainv_seq x j"] by simp
qed

lemma ainv_seq_up: "ainv_seq x 0 \<le> ainv_seq x 1 \<Longrightarrow> ainv_seq x k \<le> ainv_seq x (Suc k)"
proof (induction k)
  case 0
  then show ?case by simp
next
  case (Suc k)
  then have "ainv_seq x k \<le> ainv_seq x (Suc k)" by simp
  then show ?case by (simp add: arctan_monotone')
qed

lemma ainv_seq_down: "ainv_seq x 1 \<le> ainv_seq x 0 \<Longrightarrow> ainv_seq x (Suc k) \<le> ainv_seq x k"
proof (induction k)
  case 0
  then show ?case by simp
next
  case (Suc k)
  then have "ainv_seq x (Suc k) \<le> ainv_seq x k" by simp
  then show ?case by (simp add: arctan_monotone')
qed

lemma ainv_seq_convergent: "convergent (ainv_seq x)"
proof (rule Bseq_monoseq_convergent)
  show "Bseq (ainv_seq x)"
  proof (rule BseqI' [of _ "pi / 2"])
    fix k show "norm (ainv_seq x k) \<le> pi / 2" using ainv_seq_bounded [of x k] by simp
  qed
  show "monoseq (ainv_seq x)"
  proof (cases "ainv_seq x 0 \<le> ainv_seq x 1")
    case True
    then show ?thesis using ainv_seq_up [of x] by (auto simp: monoseq_Suc)
  next
    case False
    then have "ainv_seq x 1 \<le> ainv_seq x 0" by simp
    then show ?thesis using ainv_seq_down [of x] by (auto simp: monoseq_Suc)
  qed
qed

lemma ainv_seq_close:
  assumes "0 < e"
  shows "\<exists>k. \<bar>ainv_seq x (Suc k) - ainv_seq x k\<bar> < e"
proof -
  from ainv_seq_convergent have "Cauchy (ainv_seq x)" by (rule convergent_Cauchy)
  from metric_CauchyD [OF this assms] obtain M where
    "\<forall>m\<ge>M. \<forall>n\<ge>M. dist (ainv_seq x m) (ainv_seq x n) < e" by blast
  then have "dist (ainv_seq x (Suc M)) (ainv_seq x M) < e" by (simp del: ainv_seq.simps)
  then have "\<bar>ainv_seq x (Suc M) - ainv_seq x M\<bar> < e" by (simp only: dist_real_def)
  then show ?thesis ..
qed

lemma ainv_iterate:
  "((\<lambda>(temp :: real, alpha). (alpha, arctan (x + alpha))) ^^ k) (0, arctan x)
     = (ainv_seq x k, ainv_seq x (Suc k))"
proof (induction k)
  case 0
  show ?case by simp
next
  case (Suc k)
  have "((\<lambda>(temp :: real, alpha). (alpha, arctan (x + alpha))) ^^ Suc k) (0, arctan x)
      = (\<lambda>(temp :: real, alpha). (alpha, arctan (x + alpha)))
          (((\<lambda>(temp :: real, alpha). (alpha, arctan (x + alpha))) ^^ k) (0, arctan x))"
    by simp
  also have "\<dots> = (ainv_seq x (Suc k), ainv_seq x (Suc (Suc k)))"
    unfolding Suc.IH by simp
  finally show ?case .
qed

lemma ainv_terminates: "\<exists>a. ainv x = Some a"
proof -
  define b :: "real \<times> real \<Rightarrow> bool" where "b = (\<lambda>(temp, alpha). \<bar>alpha - temp\<bar> > 1 / 10 ^ 25)"
  define c :: "real \<times> real \<Rightarrow> real \<times> real" where "c = (\<lambda>(temp, alpha). (alpha, arctan (x + alpha)))"
  from ainv_seq_close [of "1 / 10 ^ 25" x] obtain k where
    k: "\<bar>ainv_seq x (Suc k) - ainv_seq x k\<bar> < 1 / 10 ^ 25" by auto
  have "(c ^^ k) (0, arctan x) = (ainv_seq x k, ainv_seq x (Suc k))"
    unfolding c_def by (rule ainv_iterate)
  then have "\<not> b ((c ^^ k) (0, arctan x))" using k by (simp add: b_def del: ainv_seq.simps)
  then have ex: "\<exists>k. \<not> b ((c ^^ k) (0, arctan x))" ..
  have "while_option b c (0, arctan x)
      = Some ((c ^^ (LEAST k. \<not> b ((c ^^ k) (0, arctan x)))) (0, arctan x))"
    unfolding while_option_def using ex by simp
  moreover have "ainv x = map_option snd (while_option b c (0, arctan x))"
    unfolding ainv_def b_def c_def ..
  ultimately show ?thesis by simp
qed


subsection \<open>The internal profile is always built\<close>

lemma setitem_in: "0 \<le> i \<Longrightarrow> i < int (length xs) \<Longrightarrow> setitem xs i v = Inr (xs[nat i := v])"
  by (simp add: setitem_def py_index_in)

lemma elt_rev: "0 \<le> i \<Longrightarrow> i < int (length xs) \<Longrightarrow> elt (rev xs) i = elt xs (int (length xs) - 1 - i)"
proof -
  assume a: "0 \<le> i" "i < int (length xs)"
  then have "nat i < length xs" by simp
  then have "rev xs ! nat i = xs ! (length xs - Suc (nat i))" by (rule rev_nth)
  moreover have "nat (int (length xs) - 1 - i) = length xs - Suc (nat i)" using a by simp
  ultimately show ?thesis by (simp add: elt_def)
qed

lemma involute_part_total:
  assumes zz: "z g \<noteq> 0" and j: "0 \<le> j" "j < int (length points)"
    and k1: "0 \<le> n1 g" "n1 g \<le> int (length points)"
  shows "\<exists>pts. involute_part fsolve g j points = Inr pts \<and> length pts = length points \<and>
     (\<forall>i. n1 g \<le> i \<and> i < int (length points) \<longrightarrow> elt pts i = elt points i)"
proof -
  define p where "p = elt points j"
  have gj: "getitem points j = Inr p" using j by (simp add: getitem_in p_def)
  define t2 where "t2 = fsolve (\<lambda>u. map (\<lambda>v. v - sqrt ((fst p)\<^sup>2 + (snd p)\<^sup>2))
                            (InternalGear_get_tip_intersection_points g u)) [1] ! 0"
  define t1 where "t1 = fsolve (\<lambda>u. map (\<lambda>v. v - 0.5 * internal_gear.d_a g)
                            (InternalGear_get_tip_intersection_points g u)) [1] ! 0"
  from linspace_open_Inr [OF k1(1), of t1 t2] obtain us where
    us: "linspace_open t1 t2 (n1 g) = Inr us" and lus: "int (length us) = n1 g" by blast
  define V where "V = InternalGear_get_involute_points g us"
  have lV: "int (length V) = n1 g - 0" by (simp add: V_def InternalGear_get_involute_points_def lus)
  have b: "(0::int) \<le> 0" by simp
  from slice_assign_in [OF b k1 lV] obtain pts where
    pts: "slice_assign points 0 (n1 g) V = Inr pts" and l: "length pts = length points"
    and e: "\<forall>i. 0 \<le> i \<and> i < int (length points) \<longrightarrow>
          elt pts i = (if 0 \<le> i \<and> i < n1 g then elt V (i - 0) else elt points i)"
    by blast
  have "involute_part fsolve g j points = Inr pts"
    unfolding involute_part_def Let_def
    by (simp only: if_not_P [OF zz] gj bnd_simps t2_def [symmetric] t1_def [symmetric] us
          V_def [symmetric] pts)
  moreover have "\<forall>i. n1 g \<le> i \<and> i < int (length points) \<longrightarrow> elt pts i = elt points i"
    using e k1 by auto
  ultimately show ?thesis using l by blast
qed

lemma mirror_reversed_total:
  assumes h: "0 \<le> h" and len: "int (length points) = 2 * h + 1"
  shows "\<exists>pts. mirror_reversed h points = Inr pts \<and> int (length pts) = 2 * h + 1 \<and>
     (\<forall>i. 0 \<le> i \<and> i \<le> h \<longrightarrow> elt pts i = elt points i) \<and>
     (\<forall>i. 0 \<le> i \<and> i < h \<longrightarrow> elt pts (2 * h - i) = (- fst (elt points i), snd (elt points i)))"
proof -
  define mx where "mx = rev (map uminus (slice (map fst points) 0 h))"
  define my where "my = rev (slice (map snd points) 0 h)"
  have lmx: "int (length mx) = int (length points) - (h + 1)"
    and lmy: "int (length my) = int (length points) - (h + 1)"
    using h len by (simp_all add: mx_def my_def length_slice)
  have emx: "elt mx j = - fst (elt points (h - 1 - j))" if "0 \<le> j" "j < h" for j
    using that h len by (simp add: mx_def elt_rev elt_map elt_slice length_slice)
  have emy: "elt my j = snd (elt points (h - 1 - j))" if "0 \<le> j" "j < h" for j
    using that h len by (simp add: my_def elt_rev elt_map elt_slice length_slice)
  have b: "0 \<le> h + 1" "h + 1 \<le> int (length points)"
    "int (length points) \<le> int (length (map fst points))"
    "int (length points) \<le> int (length (map snd points))"
    using h len by simp_all
  from slice_assign_in [OF b(1,2,3) lmx]
  obtain xs where xs: "slice_assign (map fst points) (h + 1) (int (length points)) mx = Inr xs"
    and lxs: "length xs = length (map fst points)"
    and exs: "\<forall>i. 0 \<le> i \<and> i < int (length (map fst points)) \<longrightarrow>
        elt xs i = (if h + 1 \<le> i \<and> i < int (length points) then elt mx (i - (h + 1))
                    else elt (map fst points) i)"
    by blast
  from slice_assign_in [OF b(1,2,4) lmy]
  obtain ys where ys: "slice_assign (map snd points) (h + 1) (int (length points)) my = Inr ys"
    and lys: "length ys = length (map snd points)"
    and eys: "\<forall>i. 0 \<le> i \<and> i < int (length (map snd points)) \<longrightarrow>
        elt ys i = (if h + 1 \<le> i \<and> i < int (length points) then elt my (i - (h + 1))
                    else elt (map snd points) i)"
    by blast
  have res: "mirror_reversed h points = Inr (zip xs ys)"
    unfolding mirror_reversed_def
    by (simp only: mx_def [symmetric] my_def [symmetric] xs ys bnd_simps)
  have lz: "int (length (zip xs ys)) = 2 * h + 1" using lxs lys len by simp
  have low: "elt (zip xs ys) i = elt points i" if "0 \<le> i" "i \<le> h" for i
  proof -
    have "elt xs i = fst (elt points i)" using exs that len by (simp add: elt_map)
    moreover have "elt ys i = snd (elt points i)" using eys that len by (simp add: elt_map)
    ultimately show ?thesis using that lxs lys len by (simp add: elt_zip)
  qed
  have high: "elt (zip xs ys) (2 * h - i) = (- fst (elt points i), snd (elt points i))"
    if "0 \<le> i" "i < h" for i
  proof -
    have j: "0 \<le> h - 1 - i" "h - 1 - i < h" "2 * h - i - (h + 1) = h - 1 - i"
      "h - 1 - (h - 1 - i) = i" using that by simp_all
    have "elt xs (2 * h - i) = - fst (elt points i)"
      using exs that len emx [OF j(1,2)] by (simp add: j)
    moreover have "elt ys (2 * h - i) = snd (elt points i)"
      using eys that len emy [OF j(1,2)] by (simp add: j)
    ultimately show ?thesis using that lxs lys len by (simp add: elt_zip)
  qed
  from res lz low high show ?thesis by blast
qed

lemma getitem_below:
  assumes "getitem xs k = Inr v" "0 \<le> j" "j \<le> k"
  shows "getitem xs j = Inr (elt xs j)" and "j < int (length xs)"
proof -
  from getitem_Inr [OF assms(1)] assms(2,3) show "j < int (length xs)" by simp
  with assms(2) show "getitem xs j = Inr (elt xs j)" by (simp add: getitem_in)
qed

lemma profile_thick_total:
  assumes zz: "z g \<noteq> 0" and zc: "z_cutter g \<noteq> 0"
    and k1: "0 \<le> n1 g" and k2: "0 \<le> n2 g"
    and t2: "getitem (t g) 2 = Inr t_2" and br: "internal_gear.rc g \<ge> t_2"
  shows "\<exists>pts. InternalGear_get_profile_points fsolve g = Inr (pts, g) \<and>
     int (length pts) = 2 * (n1 g + n2 g) + 1 \<and>
     fst (elt pts (n1 g + n2 g)) = 0 \<and>
     (\<forall>i. 0 \<le> i \<and> i < n1 g + n2 g \<longrightarrow>
        elt pts (2 * (n1 g + n2 g) - i) = (- fst (elt pts i), snd (elt pts i)))"
proof -
  define h where "h = n1 g + n2 g"
  have h0: "0 \<le> h" using k1 k2 by (simp add: h_def)
  obtain alphawt where a: "ainv (2 * (x_n g - xn_cutter g) * tan (alpha_n g) / real_of_int (z g - z_cutter g)
                    + (tan (alpha_t g) - alpha_t g)) = Some alphawt"
    using ainv_terminates by blast
  define ratio where "ratio = real_of_int (z g) / real_of_int (z_cutter g)"
  define E where "E = 0.5 * (d g - d_cutter g)
                    + m_t g * (0.5 * real_of_int (z g - z_cutter g)
                               * (cos (alpha_t g) / cos alphawt - 1))"
  define p0 :: "point list" where "p0 = replicate (nat (2 * (n1 g + n2 g) + 1)) (0, 0)"
  have len0: "int (length p0) = 2 * h + 1" using h0 by (simp add: p0_def h_def)
  note t1 = getitem_below [OF t2, of 1]
  have g1: "getitem (t g) 1 = Inr (elt (t g) 1)" using t1(1) by simp
  from linspace_open_Inr [OF k2, of "elt (t g) 1" "pi / 2"] obtain us where
    us: "linspace_open (elt (t g) 1) (pi / 2) (n2 g) = Inr us" and lus: "int (length us) = n2 g"
    by blast
  define T where "T = InternalGear_get_transition_points fsolve E 0
                        (ra_cutter g - internal_gear.rc g) (internal_gear.rc g) ratio us"
  have lT: "int (length T) = n1 g + n2 g - n1 g"
    by (simp add: T_def InternalGear_get_transition_points_def lus)
  have b1: "0 \<le> n1 g" "n1 g \<le> n1 g + n2 g" "n1 g + n2 g \<le> int (length p0)"
    using k1 k2 len0 by (simp_all add: h_def)
  from slice_assign_in [OF b1 lT] obtain pA where
    pA: "slice_assign p0 (n1 g) (n1 g + n2 g) T = Inr pA" and lenA: "length pA = length p0"
    by blast
  define pB where "pB = pA[nat (n1 g + n2 g) := (0, 0.5 * (2 * (E + ra_cutter g)))]"
  have sB: "setitem pA (n1 g + n2 g) (0, 0.5 * (2 * (E + ra_cutter g))) = Inr pB"
    unfolding pB_def using k1 k2 lenA len0 by (intro setitem_in) (simp_all add: h_def)
  have lenB: "int (length pB) = 2 * h + 1" using lenA len0 by (simp add: pB_def)
  have eB: "elt pB h = (0, 0.5 * (2 * (E + ra_cutter g)))"
    using h0 lenA len0 by (simp add: pB_def elt_def h_def)
  have bj: "0 \<le> n1 g" "n1 g < int (length pB)" "n1 g \<le> int (length pB)"
    using k1 k2 lenB by (simp_all add: h_def)
  from involute_part_total [OF zz bj(1,2) bj(1,3)] obtain pC where
    pC: "involute_part fsolve g (n1 g) pB = Inr pC" and lenC: "length pC = length pB"
    and eC: "\<forall>i. n1 g \<le> i \<and> i < int (length pB) \<longrightarrow> elt pC i = elt pB i"
    by blast
  have lC: "int (length pC) = 2 * h + 1" using lenC lenB by simp
  from mirror_reversed_total [OF h0 lC] obtain pD where
    pD: "mirror_reversed h pC = Inr pD" and lD: "int (length pD) = 2 * h + 1"
    and low: "\<forall>i. 0 \<le> i \<and> i \<le> h \<longrightarrow> elt pD i = elt pC i"
    and high: "\<forall>i. 0 \<le> i \<and> i < h \<longrightarrow> elt pD (2 * h - i) = (- fst (elt pC i), snd (elt pC i))"
    by blast
  have guard: "\<not> 2 * (n1 g + n2 g) + 1 < 0" using h0 by (simp add: h_def)
  have res: "InternalGear_get_profile_points fsolve g = Inr (pD, g)"
    unfolding InternalGear_get_profile_points_def Let_def
    by (simp only: if_not_P [OF zc] a option.case t2 bnd_simps if_P [OF br] if_not_P [OF guard]
          p0_def [symmetric] g1 us ratio_def [symmetric] E_def [symmetric] T_def [symmetric]
          pA sB pC pD [unfolded h_def])
  have mid: "fst (elt pD h) = 0"
  proof -
    have "elt pD h = elt pC h" using low h0 by simp
    also have "\<dots> = elt pB h" using eC k2 lenB h0 by (simp add: h_def)
    finally show ?thesis using eB by simp
  qed
  have mir: "\<forall>i. 0 \<le> i \<and> i < h \<longrightarrow> elt pD (2 * h - i) = (- fst (elt pD i), snd (elt pD i))"
    using high low by simp
  from res lD mid mir show ?thesis unfolding h_def by blast
qed

lemma profile_thin_total:
  assumes zz: "z g \<noteq> 0" and zc: "z_cutter g \<noteq> 0"
    and k1: "1 \<le> n1 g" and k2: "0 \<le> n2 g" and kf: "1 \<le> nf g"
    and sp: "shape_preserving fsolve"
    and t2: "getitem (t g) 2 = Inr t_2" and br: "\<not> internal_gear.rc g \<ge> t_2"
  shows "\<exists>pts. InternalGear_get_profile_points fsolve g
        = Inr (pts, g\<lparr>t := fsolve (fillet_func (rb_cutter g) (etab g) (internal_gear.rc g)
                                 (ra_cutter g)) [1, 0.75 * pi, 0, ra_cutter g]\<rparr>) \<and>
     int (length pts) = 2 * (n1 g + n2 g + nf g) + 1 \<and>
     fst (elt pts (n1 g + n2 g + nf g)) = 0 \<and>
     (\<forall>i. 0 \<le> i \<and> i < n1 g + n2 g + nf g \<longrightarrow>
        elt pts (2 * (n1 g + n2 g + nf g) - i) = (- fst (elt pts i), snd (elt pts i)))"
proof -
  define h where "h = n1 g + n2 g + nf g"
  have h0: "0 \<le> h" using k1 k2 kf by (simp add: h_def)
  obtain alphawt where a: "ainv (2 * (x_n g - xn_cutter g) * tan (alpha_n g) / real_of_int (z g - z_cutter g)
                    + (tan (alpha_t g) - alpha_t g)) = Some alphawt"
    using ainv_terminates by blast
  define ratio where "ratio = real_of_int (z g) / real_of_int (z_cutter g)"
  define E where "E = 0.5 * (d g - d_cutter g)
                    + m_t g * (0.5 * real_of_int (z g - z_cutter g)
                               * (cos (alpha_t g) / cos alphawt - 1))"
  define p0 :: "point list" where "p0 = replicate (nat (2 * (n1 g + n2 g + nf g) + 1)) (0, 0)"
  have len0: "int (length p0) = 2 * h + 1" using h0 by (simp add: p0_def h_def)
  define t' where "t' = fsolve (fillet_func (rb_cutter g) (etab g) (internal_gear.rc g)
                                 (ra_cutter g)) [1, 0.75 * pi, 0, ra_cutter g]"
  have lt: "length t' = 4" using sp by (simp add: t'_def shape_preserving_def)
  have g2: "getitem t' 2 = Inr (elt t' 2)" and g3: "getitem t' 3 = Inr (elt t' 3)"
    and g1: "getitem t' 1 = Inr (elt t' 1)"
    using lt by (simp_all add: getitem_in)
  define x0 where "x0 = elt t' 2"
  define y0 where "y0 = elt t' 3"
  from linspace_open_Inr [OF k2, of "elt t' 1" "pi / 2 - arctan (x0 / y0)"] obtain us where
    us: "linspace_open (elt t' 1) (pi / 2 - arctan (x0 / y0)) (n2 g) = Inr us"
    and lus: "int (length us) = n2 g"
    by blast
  define T where "T = InternalGear_get_transition_points fsolve E x0 y0 (internal_gear.rc g) ratio us"
  have lT: "int (length T) = n1 g + n2 g + 1 - (n1 g + 1)"
    by (simp add: T_def InternalGear_get_transition_points_def lus)
  have b1: "0 \<le> n1 g + 1" "n1 g + 1 \<le> n1 g + n2 g + 1" "n1 g + n2 g + 1 \<le> int (length p0)"
    using k1 k2 kf len0 by (simp_all add: h_def)
  from slice_assign_in [OF b1 lT] obtain pA where
    pA: "slice_assign p0 (n1 g + 1) (n1 g + n2 g + 1) T = Inr pA" and lenA: "length pA = length p0"
    by blast
  have kf': "0 \<le> nf g - 1" using kf by simp
  from linspace_open_Inr [OF kf', of "pi / 2 - arctan (x0 / y0)" "pi / 2"] obtain us' where
    us': "linspace_open (pi / 2 - arctan (x0 / y0)) (pi / 2) (nf g - 1) = Inr us'"
    and lus': "int (length us') = nf g - 1"
    by blast
  define T' where "T' = InternalGear_get_transition_points fsolve E 0 0 (ra_cutter g) ratio us'"
  have lT': "int (length T') = n1 g + n2 g + nf g - (n1 g + n2 g + 1)"
    by (simp add: T'_def InternalGear_get_transition_points_def lus')
  have b2: "0 \<le> n1 g + n2 g + 1" "n1 g + n2 g + 1 \<le> n1 g + n2 g + nf g"
    "n1 g + n2 g + nf g \<le> int (length pA)"
    using k1 k2 kf len0 lenA by (simp_all add: h_def)
  from slice_assign_in [OF b2 lT'] obtain pB where
    pB: "slice_assign pA (n1 g + n2 g + 1) (n1 g + n2 g + nf g) T' = Inr pB"
    and lenB: "length pB = length pA"
    by blast
  define pC where "pC = pB[nat (n1 g + n2 g + nf g) := (0, 0.5 * (2 * (E + ra_cutter g)))]"
  have sC: "setitem pB (n1 g + n2 g + nf g) (0, 0.5 * (2 * (E + ra_cutter g))) = Inr pC"
    unfolding pC_def using h0 lenB lenA len0 by (intro setitem_in) (simp_all add: h_def)
  have lenC: "int (length pC) = 2 * h + 1" using lenB lenA len0 by (simp add: pC_def)
  have eC: "elt pC h = (0, 0.5 * (2 * (E + ra_cutter g)))"
    using h0 lenB lenA len0 by (simp add: pC_def elt_def h_def)
  have bj: "0 \<le> n1 g + 1" "n1 g + 1 < int (length pC)" "0 \<le> n1 g" "n1 g \<le> int (length pC)"
    using k1 k2 kf lenC by (simp_all add: h_def)
  from involute_part_total [OF zz bj] obtain pD where
    pD: "involute_part fsolve g (n1 g + 1) pC = Inr pD" and lenD: "length pD = length pC"
    and eD: "\<forall>i. n1 g \<le> i \<and> i < int (length pC) \<longrightarrow> elt pD i = elt pC i"
    by blast
  have lD: "int (length pD) = 2 * h + 1" using lenD lenC by simp
  have ga: "getitem pD (n1 g - 1) = Inr (elt pD (n1 g - 1))"
    and gb: "getitem pD (n1 g + 1) = Inr (elt pD (n1 g + 1))"
    using k1 k2 kf lD by (simp_all add: getitem_in h_def)
  define pE where "pE = pD[nat (n1 g) :=
      ((fst (elt pD (n1 g - 1)) + fst (elt pD (n1 g + 1))) / 2,
       (snd (elt pD (n1 g - 1)) + snd (elt pD (n1 g + 1))) / 2)]"
  have sE: "setitem pD (n1 g)
      ((fst (elt pD (n1 g - 1)) + fst (elt pD (n1 g + 1))) / 2,
       (snd (elt pD (n1 g - 1)) + snd (elt pD (n1 g + 1))) / 2) = Inr pE"
    unfolding pE_def using k1 k2 kf lD by (intro setitem_in) (simp_all add: h_def)
  have lE: "int (length pE) = 2 * h + 1" using lD by (simp add: pE_def)
  have eE: "elt pE h = elt pD h"
    using k1 k2 kf lD by (simp add: pE_def elt_def h_def)
  from mirror_reversed_total [OF h0 lE] obtain pF where
    pF: "mirror_reversed h pE = Inr pF" and lF: "int (length pF) = 2 * h + 1"
    and low: "\<forall>i. 0 \<le> i \<and> i \<le> h \<longrightarrow> elt pF i = elt pE i"
    and high: "\<forall>i. 0 \<le> i \<and> i < h \<longrightarrow> elt pF (2 * h - i) = (- fst (elt pE i), snd (elt pE i))"
    by blast
  have guard: "\<not> 2 * (n1 g + n2 g + nf g) + 1 < 0" using h0 by (simp add: h_def)
  have res: "InternalGear_get_profile_points fsolve g = Inr (pF, g\<lparr>t := t'\<rparr>)"
    unfolding InternalGear_get_profile_points_def Let_def
    by (simp only: if_not_P [OF zc] a option.case t2 bnd_simps if_not_P [OF br] if_not_P [OF guard]
          p0_def [symmetric] t'_def [symmetric] g2 g3 g1 x0_def [symmetric] y0_def [symmetric]
          us ratio_def [symmetric] E_def [symmetric] T_def [symmetric] pA us' T'_def [symmetric]
          pB sC pD ga gb sE pF [unfolded h_def])
  have mid: "fst (elt pF h) = 0"
  proof -
    have "elt pF h = elt pE h" using low h0 by simp
    also have "\<dots> = elt pD h" by (rule eE)
    also have "\<dots> = elt pC h" using eD k2 kf lenC h0 by (simp add: h_def)
    finally show ?thesis using eC by simp
  qed
  have mir: "\<forall>i. 0 \<le> i \<and> i < h \<longrightarrow> elt pF (2 * h - i) = (- fst (elt pF i), snd (elt pF i))"
    using high low by simp
  from res lF mid mir show ?thesis unfolding h_def t'_def by blast
qed


subsection \<open>InternalGear.generate_mesh returns\<close>

lemma linspace_open_length:
  "linspace_open a b num = Inr us \<Longrightarrow> int (length us) = num"
  by (auto simp: linspace_open_def split: if_splits)

lemma internal_tail_total:
  assumes zz: "2 \<le> z g" and od: "G ''outer_diam'' = Some v" "is_number v"
    and ks: "1 \<le> n1 g" "1 \<le> n2 g" "1 \<le> n3 g" "1 \<le> na g" "1 \<le> nf g"
    and K: "8 \<le> K"
    and N: "K + 2 * (n1 g + n2 g + n3 g - 3) \<le> int (length (fst q))"
    and cw: "cells_within (int (length (fst q))) (snd q)"
  shows "\<exists>m. internal_tail G (Inr q) K b g = Inr (m, g\<lparr>mesh := Some m\<rparr>)"
proof -
  obtain tn tc where q: "q = (tn, tc)" by (cases q)
  have z0: "\<not> z g = 0" and zn: "0 \<le> z g" using zz by simp_all
  have gd: "\<not> (na g + 1 < 0 \<or> n1 g + 1 < 0 \<or> n2 g + 1 < 0 \<or> n3 g + 1 < 0 \<or> (b \<and> nf g + 1 < 0))"
    using ks by simp
  have nn: "\<not> \<not> is_number v" using od(2) by simp
  from linspace_open_Inr [OF zn, of 0 "2 * pi"] obtain rot_phi where
    rp: "linspace_open 0 (2 * pi) (z g) = Inr rot_phi" and lr: "int (length rot_phi) = z g"
    by blast
  from stitch_internal_total [OF K ks(1-3) N [unfolded q fst_conv] cw [unfolded q fst_conv snd_conv] lr zz]
  obtain m where m: "stitch_internal K (n1 g) (n2 g) (n3 g) rot_phi (z g) q = Inr m"
    unfolding q by blast
  have "internal_tail G (Inr q) K b g = Inr (m, g\<lparr>mesh := Some m\<rparr>)"
    unfolding internal_tail_def
    by (simp only: if_not_P [OF z0] od(1) option.case if_not_P [OF nn] if_not_P [OF gd]
          bnd_simps rp m)
  then show ?thesis ..
qed

lemma InternalGear_generate_mesh_total:
  assumes zz: "2 \<le> z g" and zc: "z_cutter g \<noteq> 0"
    and od: "G ''outer_diam'' = Some v" "is_number v"
    and ks: "1 \<le> n1 g" "1 \<le> n2 g" "1 \<le> n3 g" "1 \<le> na g" "1 \<le> nf g"
    and sp: "shape_preserving fsolve"
    and t2: "getitem (t g) 2 = Inr t_2"
    and con: "InternalGear_contract t_2 g q"
  shows "\<exists>m g'. InternalGear_generate_mesh G fsolve (Inr q) g = Inr (m, g')"
proof -
  obtain tn tc where q: "q = (tn, tc)" by (cases q)
  note b = internal_contract_bound [OF ks con [unfolded q]]
  have z0: "z g \<noteq> 0" using zz by simp
  have k0: "0 \<le> n1 g" "0 \<le> n2 g" using ks by simp_all
  show ?thesis
  proof (cases "internal_gear.rc g \<ge> t_2")
    case True
    from profile_thick_total [OF z0 zc k0 t2 True] obtain pts where
      p: "InternalGear_get_profile_points fsolve g = Inr (pts, g)" by blast
    have N: "14 + 2 * (n1 g + n2 g + n3 g - 3) \<le> int (length (fst q))"
      using b(1) True by (simp add: q)
    have cw: "cells_within (int (length (fst q))) (snd q)" using b(2) by (simp add: q)
    have K: "(8::int) \<le> 14" by simp
    from internal_tail_total [where K = 14 and b = False and G = G and g = g and q = q, OF zz od ks K N cw] obtain m where
      m: "internal_tail G (Inr q) 14 False g = Inr (m, g\<lparr>mesh := Some m\<rparr>)" by blast
    have "InternalGear_generate_mesh G fsolve (Inr q) g = Inr (m, g\<lparr>mesh := Some m\<rparr>)"
      unfolding InternalGear_generate_mesh_def
      by (simp only: t2 bnd_simps if_P [OF True] p prod.case m)
    then show ?thesis by blast
  next
    case False
    define g1 where "g1 = g\<lparr>t := fsolve (fillet_func (rb_cutter g) (etab g) (internal_gear.rc g)
                                 (ra_cutter g)) [1, 0.75 * pi, 0, ra_cutter g]\<rparr>"
    from profile_thin_total [OF z0 zc ks(1) k0(2) ks(5) sp t2 False] obtain pts where
      p: "InternalGear_get_profile_points fsolve g = Inr (pts, g1)" unfolding g1_def by blast
    have f: "z g1 = z g" "n1 g1 = n1 g" "n2 g1 = n2 g" "n3 g1 = n3 g" "na g1 = na g" "nf g1 = nf g"
      by (simp_all add: g1_def)
    have N: "18 + 2 * (n1 g1 + n2 g1 + n3 g1 - 3) \<le> int (length (fst q))"
      using b(1) False by (simp add: q f)
    have cw: "cells_within (int (length (fst q))) (snd q)" using b(2) by (simp add: q)
    have K: "(8::int) \<le> 18" by simp
    from internal_tail_total [where K = 18 and b = True and g = g1 and G = G and q = q,
        OF zz [folded f(1)] od ks [folded f] K N cw]
    obtain m where
      m: "internal_tail G (Inr q) 18 True g1 = Inr (m, g1\<lparr>mesh := Some m\<rparr>)" by blast
    have "InternalGear_generate_mesh G fsolve (Inr q) g = Inr (m, g1\<lparr>mesh := Some m\<rparr>)"
      unfolding InternalGear_generate_mesh_def
      by (simp only: t2 bnd_simps if_not_P [OF False] p prod.case m)
    then show ?thesis by blast
  qed
qed

lemma internal_mesh_cells:
  assumes run: "InternalGear_generate_mesh G fsolve (Inr q) g = Inr (m, g')"
  shows "length (snd m) = (3 + nat (z g - 3)) * length (snd q)"
proof -
  obtain tn tc where q: "q = (tn, tc)" by (cases q)
  obtain node cell where m: "m = (node, cell)" by (cases m)
  from InternalGear_generate_mesh_Inr [OF run] obtain t_2 where
    t2: "getitem (t g) 2 = Inr t_2" by blast
  from internal_run [OF run t2] obtain rot_phi where
    s: "stitch_internal (if internal_gear.rc g \<ge> t_2 then 14 else 18)
        (n1 g) (n2 g) (n3 g) rot_phi (z g) (tn, tc) = Inr (node, cell)"
    by (auto simp: q m)
  from s have "length cell = (3 + nat (z g - 3)) * length tc"
    unfolding stitch_internal_def Let_def fst_conv snd_conv by (rule stitch_lengths(1))
  then show ?thesis by (simp add: q m)
qed


subsection \<open>ExternalGear.generate_mesh: the global z and the result\<close>

lemma ExternalGear_profile_reads:
  assumes k1: "0 \<le> n1 g" and k2: "0 \<le> n2 g"
  shows "\<exists>points kp_3 kp_4 kp_1 kp_2 kp_5 kp_6.
     ExternalGear_get_profile_points fsolve g = Inr points \<and>
     getitem points (- 1) = Inr kp_3 \<and> getitem points 0 = Inr kp_4 \<and>
     getitem points (n1 g + n2 g + 1) = Inr kp_1 \<and>
     getitem points (2 * n1 g + n2 g + 1) = Inr kp_2 \<and>
     getitem points (n1 g) = Inr kp_5 \<and> getitem points (n1 g + n2 g) = Inr kp_6"
proof -
  from ExternalGear_get_profile_points_total [OF k1 k2, of fsolve] obtain points where
    p: "ExternalGear_get_profile_points fsolve g = Inr points"
    and l: "int (length points) = 2 * (n1 g + n2 g + 1)" by blast
  have "\<exists>v. getitem points (- 1) = Inr v" "\<exists>v. getitem points 0 = Inr v"
    "\<exists>v. getitem points (n1 g + n2 g + 1) = Inr v"
    "\<exists>v. getitem points (2 * n1 g + n2 g + 1) = Inr v"
    "\<exists>v. getitem points (n1 g) = Inr v" "\<exists>v. getitem points (n1 g + n2 g) = Inr v"
    using k1 k2 l by (intro getitem_total; simp)+
  with p show ?thesis by blast
qed

lemma ExternalGear_delta_angle_unbound:
  assumes k1: "0 \<le> n1 g" and k2: "0 \<le> n2 g"
    and nt: "real_of_int (n1 g) * 1.236 + real_of_int (n2 g) * 0.618 + real_of_int (n3 g) \<noteq> 0"
    and G: "G ''z'' = None"
  shows "ExternalGear_delta_angle G fsolve g = Inl NameError"
proof -
  from ExternalGear_profile_reads [OF k1 k2, of fsolve]
  obtain points kp_3 kp_4 kp_1 kp_2 kp_5 kp_6 where
    r: "ExternalGear_get_profile_points fsolve g = Inr points"
     "getitem points (- 1) = Inr kp_3" "getitem points 0 = Inr kp_4"
     "getitem points (n1 g + n2 g + 1) = Inr kp_1"
     "getitem points (2 * n1 g + n2 g + 1) = Inr kp_2"
     "getitem points (n1 g) = Inr kp_5" "getitem points (n1 g + n2 g) = Inr kp_6"
    by blast
  show ?thesis
    unfolding ExternalGear_delta_angle_def
    by (simp only: r bnd_simps if_not_P [OF nt] G option.case)
qed

lemma ExternalGear_delta_angle_total:
  assumes k1: "0 \<le> n1 g" and k2: "0 \<le> n2 g"
    and nt: "real_of_int (n1 g) * 1.236 + real_of_int (n2 g) * 0.618 + real_of_int (n3 g) \<noteq> 0"
    and G: "G ''z'' = Some zv" and zi: "isinstance_int zv" and z2: "2 \<le> int_of_pyval zv"
  shows "\<exists>delta rot_phi. ExternalGear_delta_angle G fsolve g = Inr (delta, rot_phi, int_of_pyval zv)
            \<and> int (length rot_phi) = int_of_pyval zv"
proof -
  from ExternalGear_profile_reads [OF k1 k2, of fsolve]
  obtain points kp_3 kp_4 kp_1 kp_2 kp_5 kp_6 where
    r: "ExternalGear_get_profile_points fsolve g = Inr points"
     "getitem points (- 1) = Inr kp_3" "getitem points 0 = Inr kp_4"
     "getitem points (n1 g + n2 g + 1) = Inr kp_1"
     "getitem points (2 * n1 g + n2 g + 1) = Inr kp_2"
     "getitem points (n1 g) = Inr kp_5" "getitem points (n1 g + n2 g) = Inr kp_6"
    by blast
  have zn: "0 \<le> int_of_pyval zv" using z2 by simp
  from linspace_open_Inr [OF zn, of 0 "2 * pi"] obtain rot_phi where
    rp: "linspace_open 0 (2 * pi) (int_of_pyval zv) = Inr rot_phi"
    and lr: "int (length rot_phi) = int_of_pyval zv" by blast
  from getitem_total [of rot_phi 1] lr z2 obtain phi1 where ph: "getitem rot_phi 1 = Inr phi1"
    by auto
  have ni: "\<not> \<not> isinstance_int zv" using zi by simp
  have "ExternalGear_delta_angle G fsolve g
      = Inr (\<bar>arctan2 (snd (rotate phi1 kp_1)) (fst (rotate phi1 kp_1))
               - arctan2 (snd kp_4) (fst kp_4)\<bar>, rot_phi, int_of_pyval zv)"
    unfolding ExternalGear_delta_angle_def Let_def
    by (simp only: r bnd_simps if_not_P [OF nt] G option.case if_not_P [OF ni] rp ph)
  with lr show ?thesis by blast
qed

lemma ExternalGear_delta_angle_length:
  assumes "ExternalGear_delta_angle G fsolve g = Inr (delta, rot_phi, zz)"
  shows "int (length rot_phi) = zz"
  using assms unfolding ExternalGear_delta_angle_def Let_def
  by (auto simp: bnd_Inr_iff split: if_splits option.splits dest: linspace_open_length)

lemma ExternalGear_contract_bound:
  assumes ks: "1 \<le> n1 g" "1 \<le> n2 g" "1 \<le> n3 g" "1 \<le> na g" "1 \<le> nf g"
    and con: "ExternalGear_contract delta g (tn, tc)"
  shows "delta < 1 / 10 ^ 12 \<Longrightarrow>
           12 + 2 * (n1 g + n2 g + n3 g - 3) + (n3 g - 1) \<le> int (length tn)"
    and "\<not> delta < 1 / 10 ^ 12 \<Longrightarrow>
           16 + edge_node_num_ext (n1 g) (n2 g) (n3 g) (na g) (nf g) \<le> int (length tn)"
    and "cells_within (int (length tn)) tc" and "\<forall>c \<in> set tc. length c = 4"
proof -
  show "12 + 2 * (n1 g + n2 g + n3 g - 3) + (n3 g - 1) \<le> int (length tn)" if "delta < 1 / 10 ^ 12"
  proof -
    from con that have "12 + edge_node_num_reduced (n1 g) (n2 g) (n3 g) (na g) \<le> int (length tn)"
      by (simp add: ExternalGear_contract_def generator_contract_def)
    with ks show ?thesis by (simp add: edge_node_num_reduced_def)
  qed
  show "16 + edge_node_num_ext (n1 g) (n2 g) (n3 g) (na g) (nf g) \<le> int (length tn)"
    if "\<not> delta < 1 / 10 ^ 12"
    using con that by (simp add: ExternalGear_contract_def generator_contract_def)
  from con show "cells_within (int (length tn)) tc"
    by (cases "delta < 1 / 10 ^ 12") (simp_all add: ExternalGear_contract_def generator_contract_def)
  from con show "\<forall>c \<in> set tc. length c = 4"
    by (cases "delta < 1 / 10 ^ 12") (simp_all add: ExternalGear_contract_def generator_contract_def)
qed

lemma ExternalGear_generate_mesh_total:
  assumes da: "ExternalGear_delta_angle G fsolve g = Inr (delta, rot_phi, zz)"
    and zz: "2 \<le> zz"
    and ks: "1 \<le> n1 g" "1 \<le> n2 g" "1 \<le> n3 g" "1 \<le> na g" "1 \<le> nf g"
    and con: "ExternalGear_contract delta g q"
  shows "\<exists>m. ExternalGear_generate_mesh G fsolve (Inr q) g = Inr (m, g\<lparr>mesh := Some m\<rparr>)"
proof -
  obtain tn tc where q: "q = (tn, tc)" by (cases q)
  note b = ExternalGear_contract_bound [OF ks con [unfolded q]]
  note lr = ExternalGear_delta_angle_length [OF da]
  show ?thesis
  proof (cases "delta < 1 / 10 ^ 12")
    case True
    have gd: "\<not> (na g + 1 < 0 \<or> n3 g + 1 < 0 \<or> n1 g + 1 < 0 \<or> n2 g + 1 < 0)" using ks by simp
    from stitch_reduced_total [OF ks(1-3) b(1) [OF True] b(3) lr zz] obtain m where
      m: "stitch_reduced (n1 g) (n2 g) (n3 g) rot_phi zz q = Inr m" unfolding q by blast
    have "ExternalGear_generate_mesh G fsolve (Inr q) g = Inr (m, g\<lparr>mesh := Some m\<rparr>)"
      unfolding ExternalGear_generate_mesh_def
      by (simp only: da bnd_simps prod.case if_P [OF True] if_not_P [OF gd] m)
    then show ?thesis ..
  next
    case False
    have gd: "\<not> (na g + 1 < 0 \<or> n3 g + 1 < 0 \<or> n1 g + 1 < 0 \<or> n2 g + 1 < 0 \<or> nf g + 1 < 0)"
      using ks by simp
    from stitch_normal_total [OF ks b(2) [OF False] b(3) lr zz] obtain m where
      m: "stitch_normal (n1 g) (n2 g) (n3 g) (na g) (nf g) rot_phi zz q = Inr m"
      unfolding q by blast
    have "ExternalGear_generate_mesh G fsolve (Inr q) g = Inr (m, g\<lparr>mesh := Some m\<rparr>)"
      unfolding ExternalGear_generate_mesh_def
      by (simp only: da bnd_simps prod.case if_not_P [OF False] if_not_P [OF gd] m)
    then show ?thesis ..
  qed
qed


subsection \<open>Two small gears and the meshes of their teeth\<close>

text \<open>
  With one segment on every boundary line the single-tooth mesh has its key points as
  nodes and one cell for each sub-region of the half-edge table: 16 nodes and 8 cells
  for the external gear, 14 nodes and 6 cells for the internal gear.
\<close>

lemma external_example:
  assumes e: "ExternalGear_init (PyInt 2) (PyInt 20) (PyInt 20) (PyInt 0) (PyInt 0) 1 (1/4) (38/100) 0 1 1 1 1 1 0 30 = Inr e"
  shows "n1 e = 1" "n2 e = 1" "n3 e = 1" "na e = 1" "nf e = 1" "z e = 20"
  using e
  by (auto simp: ExternalGear_init_def Gear_init_def Let_def gear.defs external_gear.defs
        split: if_splits)

lemma internal_example:
  assumes i: "InternalGear_init (\<lambda>f x0. x0) (PyInt 2) (PyInt zz) (PyInt 20) (PyInt 0) (PyInt 0) 1 (1/4) (38/100) 0 1 1 1 1 1 60 10 0 = Inr i"
  shows "n1 i = 1" "n2 i = 1" "n3 i = 1" "na i = 1" "nf i = 1" "z i = zz" "z_cutter i = 10"
    "t i = [1, 0.75 * pi, 0.25 * 2]" "internal_gear.rc i = 2 * (38/100)"
  using i
  by (auto simp: InternalGear_init_def Gear_init_def Let_def gear.defs internal_gear.defs
        split: if_splits)


lemma external_example_contract:
  assumes e: "ExternalGear_init (PyInt 2) (PyInt 20) (PyInt 20) (PyInt 0) (PyInt 0) 1 (1/4) (38/100) 0 1 1 1 1 1 0 30 = Inr e"
  shows "ExternalGear_contract delta e
     (map (\<lambda>k. (real k, 0)) [0..<16],
      [[0,1,7,10],[1,2,8,7],[2,3,9,8],[10,7,4,11],[7,8,5,4],[8,9,6,5],[12,13,1,0],[14,11,4,15]])"
  by (simp add: ExternalGear_contract_def generator_contract_def cells_within_def
        edge_node_num_reduced_def edge_node_num_ext_def external_example [OF e])

lemma internal_example_contract:
  assumes i: "InternalGear_init (\<lambda>f x0. x0) (PyInt 2) (PyInt zz) (PyInt 20) (PyInt 0) (PyInt 0) 1 (1/4) (38/100) 0 1 1 1 1 1 60 10 0 = Inr i"
  shows "InternalGear_contract (1/2) i
     (map (\<lambda>k. (real k, 0)) [0..<14],
      [[0,1,9,8],[1,2,12,9],[2,3,13,12],[4,10,11,5],[5,11,12,6],[6,12,13,7]])"
  by (simp add: InternalGear_contract_def generator_contract_def cells_within_def
        edge_node_num_int14_def edge_node_num_int18_def internal_example [OF i])

lemma external_example_run:
  assumes e: "ExternalGear_init (PyInt 2) (PyInt 20) (PyInt 20) (PyInt 0) (PyInt 0) 1 (1/4) (38/100) 0 1 1 1 1 1 0 30 = Inr e"
  shows "\<exists>delta rot_phi m.
     ExternalGear_delta_angle [''z'' \<mapsto> PyInt 20] (\<lambda>f x0. x0) e = Inr (delta, rot_phi, 20) \<and>
     ExternalGear_generate_mesh [''z'' \<mapsto> PyInt 20] (\<lambda>f x0. x0)
       (Inr (map (\<lambda>k. (real k, 0)) [0..<16],
         [[0,1,7,10],[1,2,8,7],[2,3,9,8],[10,7,4,11],[7,8,5,4],[8,9,6,5],[12,13,1,0],[14,11,4,15]])) e
       = Inr (m, e\<lparr>mesh := Some m\<rparr>)"
proof -
  note f = external_example [OF e]
  have k: "0 \<le> n1 e" "0 \<le> n2 e"
    "real_of_int (n1 e) * 1.236 + real_of_int (n2 e) * 0.618 + real_of_int (n3 e) \<noteq> 0"
    by (simp_all add: f)
  have G: "[''z'' \<mapsto> PyInt 20] ''z'' = Some (PyInt 20)" by simp
  have zi: "isinstance_int (PyInt 20)" "2 \<le> int_of_pyval (PyInt 20)" by simp_all
  from ExternalGear_delta_angle_total [where G = "[''z'' \<mapsto> PyInt 20]"
      and fsolve = "\<lambda>f x0. x0", OF k G zi]
  obtain delta rot_phi where
    da: "ExternalGear_delta_angle [''z'' \<mapsto> PyInt 20] (\<lambda>f x0. x0) e = Inr (delta, rot_phi, 20)"
    by auto
  have ks: "1 \<le> n1 e" "1 \<le> n2 e" "1 \<le> n3 e" "1 \<le> na e" "1 \<le> nf e" by (simp_all add: f)
  have zz: "(2::int) \<le> 20" by simp
  from ExternalGear_generate_mesh_total [OF da zz ks external_example_contract [OF e]] da
  show ?thesis by blast
qed

lemma internal_example_run:
  assumes i: "InternalGear_init (\<lambda>f x0. x0) (PyInt 2) (PyInt zz) (PyInt 20) (PyInt 0) (PyInt 0) 1 (1/4) (38/100) 0 1 1 1 1 1 60 10 0 = Inr i"
    and zz: "2 \<le> zz"
  shows "getitem (t i) 2 = Inr (1/2)" and "\<exists>m i'.
     InternalGear_generate_mesh [''outer_diam'' \<mapsto> PyFloat 60] (\<lambda>f x0. x0)
       (Inr (map (\<lambda>k. (real k, 0)) [0..<14],
         [[0,1,9,8],[1,2,12,9],[2,3,13,12],[4,10,11,5],[5,11,12,6],[6,12,13,7]])) i
       = Inr (m, i')"
proof -
  note f = internal_example [OF i]
  show t2: "getitem (t i) 2 = Inr (1/2)" by (simp add: f getitem_def py_index_def)
  have G: "[''outer_diam'' \<mapsto> PyFloat 60] ''outer_diam'' = Some (PyFloat 60)" by simp
  have nu: "is_number (PyFloat 60)" by simp
  have ks: "1 \<le> n1 i" "1 \<le> n2 i" "1 \<le> n3 i" "1 \<le> na i" "1 \<le> nf i" by (simp_all add: f)
  have zc: "z_cutter i \<noteq> 0" by (simp add: f)
  have z2: "2 \<le> z i" using zz by (simp add: f)
  have sp: "shape_preserving (\<lambda>f x0. x0)" by (simp add: shape_preserving_def)
  from InternalGear_generate_mesh_total [where G = "[''outer_diam'' \<mapsto> PyFloat 60]",
      OF z2 zc G nu ks sp t2 internal_example_contract [OF i]]
  show "\<exists>m i'.
     InternalGear_generate_mesh [''outer_diam'' \<mapsto> PyFloat 60] (\<lambda>f x0. x0)
       (Inr (map (\<lambda>k. (real k, 0)) [0..<14],
         [[0,1,9,8],[1,2,12,9],[2,3,13,12],[4,10,11,5],[5,11,12,6],[6,12,13,7]])) i
       = Inr (m, i')" .
qed


subsection \<open>The claims about generate_mesh\<close>

text \<open>
  Claim C2. Whenever \<open>generate_mesh\<close> returns a mesh, every cell has four node indices and
  each of them is a position of the returned node array (at least 0, below the number of
  nodes); this covers the cells of the closing copy.  The sample counts are at least 1
  and the single-tooth mesh is one the generator may return for the topology of the run.
  Under these conditions \<open>generate_mesh\<close> does return a mesh: for the external gear when
  the module global \<^verbatim>\<open>z\<close> is an int of at least 2, for the internal gear when it has at
  least two teeth and the module global \<^verbatim>\<open>outer_diam\<close> is a number.
\<close>

theorem mesh_indices_valid:
  "(ExternalGear_generate_mesh G fsolve (Inr q) e = Inr (m, e') \<longrightarrow>
    ExternalGear_delta_angle G fsolve e = Inr (delta, rot_phi, zz) \<longrightarrow>
    1 \<le> n1 e \<and> 1 \<le> n2 e \<and> 1 \<le> n3 e \<and> 1 \<le> na e \<and> 1 \<le> nf e \<longrightarrow>
    ExternalGear_contract delta e q \<longrightarrow>
    cells_within (int (length (fst m))) (snd m) \<and> (\<forall>c \<in> set (snd m). length c = 4))
   \<and>
   (InternalGear_generate_mesh G' fsolve' (Inr q') i = Inr (m', i') \<longrightarrow>
    getitem (t i) 2 = Inr tt \<longrightarrow>
    1 \<le> n1 i \<and> 1 \<le> n2 i \<and> 1 \<le> n3 i \<and> 1 \<le> na i \<and> 1 \<le> nf i \<longrightarrow>
    InternalGear_contract tt i q' \<longrightarrow>
    cells_within (int (length (fst m'))) (snd m') \<and> (\<forall>c \<in> set (snd m'). length c = 4))
   \<and>
   (1 \<le> n1 e \<and> 1 \<le> n2 e \<and> 1 \<le> n3 e \<and> 1 \<le> na e \<and> 1 \<le> nf e \<longrightarrow>
    G ''z'' = Some (PyInt k) \<longrightarrow> 2 \<le> k \<longrightarrow>
    (\<exists>dl rp. ExternalGear_delta_angle G fsolve e = Inr (dl, rp, k) \<and>
       (ExternalGear_contract dl e q \<longrightarrow>
          (\<exists>ms. ExternalGear_generate_mesh G fsolve (Inr q) e = Inr (ms, e\<lparr>mesh := Some ms\<rparr>) \<and>
             cells_within (int (length (fst ms))) (snd ms)))))
   \<and>
   (1 \<le> n1 i \<and> 1 \<le> n2 i \<and> 1 \<le> n3 i \<and> 1 \<le> na i \<and> 1 \<le> nf i \<longrightarrow>
    2 \<le> z i \<longrightarrow> z_cutter i \<noteq> 0 \<longrightarrow> G' ''outer_diam'' = Some v \<longrightarrow> is_number v \<longrightarrow>
    shape_preserving fsolve' \<longrightarrow> getitem (t i) 2 = Inr tt \<longrightarrow> InternalGear_contract tt i q' \<longrightarrow>
    (\<exists>ms ir. InternalGear_generate_mesh G' fsolve' (Inr q') i = Inr (ms, ir) \<and>
       cells_within (int (length (fst ms))) (snd ms)))"
proof (intro conjI impI)
  assume run: "ExternalGear_generate_mesh G fsolve (Inr q) e = Inr (m, e')"
    and da: "ExternalGear_delta_angle G fsolve e = Inr (delta, rot_phi, zz)"
    and ks: "1 \<le> n1 e \<and> 1 \<le> n2 e \<and> 1 \<le> n3 e \<and> 1 \<le> na e \<and> 1 \<le> nf e"
    and con: "ExternalGear_contract delta e q"
  from ks have k: "1 \<le> n1 e" "1 \<le> n2 e" "1 \<le> n3 e" "1 \<le> na e" "1 \<le> nf e" by simp_all
  from external_mesh_within [OF run da k con]
  show "cells_within (int (length (fst m))) (snd m)" and "\<forall>c \<in> set (snd m). length c = 4" .
next
  assume run: "InternalGear_generate_mesh G' fsolve' (Inr q') i = Inr (m', i')"
    and t2: "getitem (t i) 2 = Inr tt"
    and ks: "1 \<le> n1 i \<and> 1 \<le> n2 i \<and> 1 \<le> n3 i \<and> 1 \<le> na i \<and> 1 \<le> nf i"
    and con: "InternalGear_contract tt i q'"
  from ks have k: "1 \<le> n1 i" "1 \<le> n2 i" "1 \<le> n3 i" "1 \<le> na i" "1 \<le> nf i" by simp_all
  from internal_mesh_within [OF run t2 k con]
  show "cells_within (int (length (fst m'))) (snd m')" and "\<forall>c \<in> set (snd m'). length c = 4" .
next
  assume ks: "1 \<le> n1 e \<and> 1 \<le> n2 e \<and> 1 \<le> n3 e \<and> 1 \<le> na e \<and> 1 \<le> nf e"
    and G: "G ''z'' = Some (PyInt k)" and k2: "2 \<le> k"
  from ks have k: "1 \<le> n1 e" "1 \<le> n2 e" "1 \<le> n3 e" "1 \<le> na e" "1 \<le> nf e" by simp_all
  have k0: "0 \<le> n1 e" "0 \<le> n2 e" using k by simp_all
  have "0 < real_of_int (n1 e) * 1.236 + real_of_int (n2 e) * 0.618 + real_of_int (n3 e)"
    using k by (intro add_pos_pos mult_pos_pos) simp_all
  then have nt: "real_of_int (n1 e) * 1.236 + real_of_int (n2 e) * 0.618 + real_of_int (n3 e) \<noteq> 0"
    by simp
  have zi: "isinstance_int (PyInt k)" "2 \<le> int_of_pyval (PyInt k)" using k2 by simp_all
  from ExternalGear_delta_angle_total [where G = G and fsolve = fsolve, OF k0 nt G zi]
  obtain dl rp where da: "ExternalGear_delta_angle G fsolve e = Inr (dl, rp, k)" by auto
  have "\<exists>ms. ExternalGear_generate_mesh G fsolve (Inr q) e = Inr (ms, e\<lparr>mesh := Some ms\<rparr>) \<and>
             cells_within (int (length (fst ms))) (snd ms)"
    if con: "ExternalGear_contract dl e q"
  proof -
    from ExternalGear_generate_mesh_total [OF da k2 k con] obtain ms where
      run: "ExternalGear_generate_mesh G fsolve (Inr q) e = Inr (ms, e\<lparr>mesh := Some ms\<rparr>)"
      by blast
    from external_mesh_within [OF run da k con] run show ?thesis by blast
  qed
  with da show "\<exists>dl rp. ExternalGear_delta_angle G fsolve e = Inr (dl, rp, k) \<and>
       (ExternalGear_contract dl e q \<longrightarrow>
          (\<exists>ms. ExternalGear_generate_mesh G fsolve (Inr q) e = Inr (ms, e\<lparr>mesh := Some ms\<rparr>) \<and>
             cells_within (int (length (fst ms))) (snd ms)))"
    by blast
next
  assume ks: "1 \<le> n1 i \<and> 1 \<le> n2 i \<and> 1 \<le> n3 i \<and> 1 \<le> na i \<and> 1 \<le> nf i"
    and zz: "2 \<le> z i" and zc: "z_cutter i \<noteq> 0"
    and od: "G' ''outer_diam'' = Some v" "is_number v"
    and sp: "shape_preserving fsolve'"
    and t2: "getitem (t i) 2 = Inr tt"
    and con: "InternalGear_contract tt i q'"
  from ks have k: "1 \<le> n1 i" "1 \<le> n2 i" "1 \<le> n3 i" "1 \<le> na i" "1 \<le> nf i" by simp_all
  from InternalGear_generate_mesh_total [where G = G', OF zz zc od k sp t2 con] obtain ms ir where
    run: "InternalGear_generate_mesh G' fsolve' (Inr q') i = Inr (ms, ir)" by blast
  from internal_mesh_within [OF run t2 k con] run
  show "\<exists>ms ir. InternalGear_generate_mesh G' fsolve' (Inr q') i = Inr (ms, ir) \<and>
       cells_within (int (length (fst ms))) (snd ms)" by blast
qed

theorem mesh_indices_valid_witness:
  "(\<exists>e m e'. ExternalGear_init (PyInt 2) (PyInt 20) (PyInt 20) (PyInt 0) (PyInt 0) 1 (1/4) (38/100) 0 1 1 1 1 1 0 30 = Inr e \<and>
       ExternalGear_generate_mesh [''z'' \<mapsto> PyInt 20] (\<lambda>f x0. x0)
         (Inr (map (\<lambda>k. (real k, 0)) [0..<16],
           [[0,1,7,10],[1,2,8,7],[2,3,9,8],[10,7,4,11],[7,8,5,4],[8,9,6,5],[12,13,1,0],[14,11,4,15]])) e
         = Inr (m, e') \<and>
       cells_within (int (length (fst m))) (snd m)) \<and>
   (\<exists>i m i'. InternalGear_init (\<lambda>f x0. x0) (PyInt 2) (PyInt 20) (PyInt 20) (PyInt 0) (PyInt 0) 1 (1/4) (38/100) 0 1 1 1 1 1 60 10 0
         = Inr i \<and>
       InternalGear_generate_mesh [''outer_diam'' \<mapsto> PyFloat 60] (\<lambda>f x0. x0)
         (Inr (map (\<lambda>k. (real k, 0)) [0..<14],
           [[0,1,9,8],[1,2,12,9],[2,3,13,12],[4,10,11,5],[5,11,12,6],[6,12,13,7]])) i
         = Inr (m, i') \<and>
       cells_within (int (length (fst m))) (snd m))"
proof -
  obtain e where e: "ExternalGear_init (PyInt 2) (PyInt 20) (PyInt 20) (PyInt 0) (PyInt 0) 1 (1/4) (38/100) 0 1 1 1 1 1 0 30 = Inr e"
    by (simp add: ExternalGear_init_def Gear_init_def Let_def)
  obtain i where i: "InternalGear_init (\<lambda>f x0. x0) (PyInt 2) (PyInt 20) (PyInt 20) (PyInt 0) (PyInt 0) 1 (1/4) (38/100) 0 1 1 1 1 1 60 10 0
          = Inr i"
    by (simp add: InternalGear_init_def Gear_init_def Let_def)
  note fe = external_example [OF e]
  note fi = internal_example [OF i]
  have ke: "1 \<le> n1 e \<and> 1 \<le> n2 e \<and> 1 \<le> n3 e \<and> 1 \<le> na e \<and> 1 \<le> nf e"
    by (simp add: fe)
  have ki: "1 \<le> n1 i \<and> 1 \<le> n2 i \<and> 1 \<le> n3 i \<and> 1 \<le> na i \<and> 1 \<le> nf i"
    by (simp add: fi)
  have G: "[''z'' \<mapsto> PyInt 20] ''z'' = Some (PyInt 20)" by simp
  have k2: "(2::int) \<le> 20" by simp
  have od: "[''outer_diam'' \<mapsto> PyFloat 60] ''outer_diam'' = Some (PyFloat 60)"
    "is_number (PyFloat 60)" by simp_all
  have zi: "2 \<le> z i" "z_cutter i \<noteq> 0" by (simp_all add: fi)
  have sp: "shape_preserving (\<lambda>f x0. x0)" by (simp add: shape_preserving_def)
  have t2: "getitem (t i) 2 = Inr (1/2)" by (simp add: fi getitem_def py_index_def)
  note ce = external_example_contract [OF e]
  note ci = internal_example_contract [OF i]
  note T = mesh_indices_valid [where G = "[''z'' \<mapsto> PyInt 20]" and fsolve = "\<lambda>f x0. x0" and e = e
      and k = 20 and G' = "[''outer_diam'' \<mapsto> PyFloat 60]" and fsolve' = "\<lambda>f x0. x0" and i = i
      and v = "PyFloat 60" and tt = "1/2"
      and q = "(map (\<lambda>k. (real k, 0)) [0..<16],
         [[0,1,7,10],[1,2,8,7],[2,3,9,8],[10,7,4,11],[7,8,5,4],[8,9,6,5],[12,13,1,0],[14,11,4,15]])"
      and q' = "(map (\<lambda>k. (real k, 0)) [0..<14],
         [[0,1,9,8],[1,2,12,9],[2,3,13,12],[4,10,11,5],[5,11,12,6],[6,12,13,7]])"]
  from T [THEN conjunct2, THEN conjunct2, THEN conjunct1] ke G k2 ce obtain m where
    run: "ExternalGear_generate_mesh [''z'' \<mapsto> PyInt 20] (\<lambda>f x0. x0)
       (Inr (map (\<lambda>k. (real k, 0)) [0..<16],
         [[0,1,7,10],[1,2,8,7],[2,3,9,8],[10,7,4,11],[7,8,5,4],[8,9,6,5],[12,13,1,0],[14,11,4,15]])) e
       = Inr (m, e\<lparr>mesh := Some m\<rparr>)"
    and cw: "cells_within (int (length (fst m))) (snd m)"
    by blast
  from T [THEN conjunct2, THEN conjunct2, THEN conjunct2] ki zi od sp t2 ci obtain m' i' where
    run': "InternalGear_generate_mesh [''outer_diam'' \<mapsto> PyFloat 60] (\<lambda>f x0. x0)
       (Inr (map (\<lambda>k. (real k, 0)) [0..<14],
         [[0,1,9,8],[1,2,12,9],[2,3,13,12],[4,10,11,5],[5,11,12,6],[6,12,13,7]])) i
       = Inr (m', i')"
    and cw': "cells_within (int (length (fst m'))) (snd m')"
    by blast
  from e i run run' cw cw' show ?thesis by blast
qed


text \<open>
  Claim C1, as amended. When \<open>generate_mesh\<close> returns a mesh for a gear of at least three
  teeth (for the external gear: when the module global \<^verbatim>\<open>z\<close> it reads holds the gear's
  tooth count), with sample counts of at least 1 and a single-tooth mesh the generator
  may return, the number of cells is exactly \<open>z\<close> times the number of cells of the
  single-tooth mesh, and the number of nodes is \<open>z\<close> times the number of nodes of the
  single-tooth mesh less the shared ones (\<open>n3 + 1\<close> for the external gear,
  \<open>n1 + n2 + n3 + 1\<close> for the internal one), hence strictly less than \<open>z\<close> times the
  number of nodes of the single-tooth mesh.  Under these conditions \<open>generate_mesh\<close>
  does return a mesh (for the internal gear when the module global \<^verbatim>\<open>outer_diam\<close> is a
  number).
\<close>

theorem assembled_mesh_counts:
  "(ExternalGear_generate_mesh G fsolve (Inr q) e = Inr (m, e') \<longrightarrow>
    ExternalGear_delta_angle G fsolve e = Inr (delta, rot_phi, zz) \<longrightarrow>
    G ''z'' = Some (PyInt (z e)) \<longrightarrow> 3 \<le> z e \<longrightarrow>
    1 \<le> n1 e \<and> 1 \<le> n2 e \<and> 1 \<le> n3 e \<and> 1 \<le> na e \<and> 1 \<le> nf e \<longrightarrow>
    ExternalGear_contract delta e q \<longrightarrow>
    int (length (snd m)) = z e * int (length (snd q)) \<and>
    int (length (fst m)) = z e * (int (length (fst q)) - (n3 e + 1)) \<and>
    int (length (fst m)) < z e * int (length (fst q)))
   \<and>
   (InternalGear_generate_mesh G' fsolve' (Inr q') i = Inr (m', i') \<longrightarrow>
    getitem (t i) 2 = Inr tt \<longrightarrow> 3 \<le> z i \<longrightarrow>
    1 \<le> n1 i \<and> 1 \<le> n2 i \<and> 1 \<le> n3 i \<and> 1 \<le> na i \<and> 1 \<le> nf i \<longrightarrow>
    InternalGear_contract tt i q' \<longrightarrow>
    int (length (snd m')) = z i * int (length (snd q')) \<and>
    int (length (fst m')) = z i * (int (length (fst q')) - (n1 i + n2 i + n3 i + 1)) \<and>
    int (length (fst m')) < z i * int (length (fst q')))
   \<and>
   (1 \<le> n1 e \<and> 1 \<le> n2 e \<and> 1 \<le> n3 e \<and> 1 \<le> na e \<and> 1 \<le> nf e \<longrightarrow>
    G ''z'' = Some (PyInt (z e)) \<longrightarrow> 3 \<le> z e \<longrightarrow>
    (\<exists>dl rp. ExternalGear_delta_angle G fsolve e = Inr (dl, rp, z e) \<and>
       (ExternalGear_contract dl e q \<longrightarrow>
          (\<exists>ms. ExternalGear_generate_mesh G fsolve (Inr q) e = Inr (ms, e\<lparr>mesh := Some ms\<rparr>) \<and>
             int (length (snd ms)) = z e * int (length (snd q)) \<and>
             int (length (fst ms)) = z e * (int (length (fst q)) - (n3 e + 1))))))
   \<and>
   (1 \<le> n1 i \<and> 1 \<le> n2 i \<and> 1 \<le> n3 i \<and> 1 \<le> na i \<and> 1 \<le> nf i \<longrightarrow>
    3 \<le> z i \<longrightarrow> z_cutter i \<noteq> 0 \<longrightarrow> G' ''outer_diam'' = Some v \<longrightarrow> is_number v \<longrightarrow>
    shape_preserving fsolve' \<longrightarrow> getitem (t i) 2 = Inr tt \<longrightarrow> InternalGear_contract tt i q' \<longrightarrow>
    (\<exists>ms ir. InternalGear_generate_mesh G' fsolve' (Inr q') i = Inr (ms, ir) \<and>
       int (length (snd ms)) = z i * int (length (snd q')) \<and>
       int (length (fst ms)) = z i * (int (length (fst q')) - (n1 i + n2 i + n3 i + 1))))"
proof (intro conjI impI)
  assume run: "ExternalGear_generate_mesh G fsolve (Inr q) e = Inr (m, e')"
    and da: "ExternalGear_delta_angle G fsolve e = Inr (delta, rot_phi, zz)"
    and G: "G ''z'' = Some (PyInt (z e))" and z3: "3 \<le> z e"
    and ks: "1 \<le> n1 e \<and> 1 \<le> n2 e \<and> 1 \<le> n3 e \<and> 1 \<le> na e \<and> 1 \<le> nf e"
    and con: "ExternalGear_contract delta e q"
  from ks have k: "1 \<le> n1 e" "1 \<le> n2 e" "1 \<le> n3 e" "1 \<le> na e" "1 \<le> nf e" by simp_all
  from ExternalGear_delta_angle_global [OF da] G have zz: "zz = z e" by auto
  from z3 zz have z3': "3 \<le> zz" by simp
  note c = external_mesh_count [OF run da z3' k con]
  from c(1) zz show "int (length (snd m)) = z e * int (length (snd q))" by simp
  from c(2) zz show n: "int (length (fst m)) = z e * (int (length (fst q)) - (n3 e + 1))" by simp
  have "1 \<le> n3 e + 1" using k by simp
  from fewer_nodes [OF z3 this] n show "int (length (fst m)) < z e * int (length (fst q))" by simp
next
  assume run: "InternalGear_generate_mesh G' fsolve' (Inr q') i = Inr (m', i')"
    and t2: "getitem (t i) 2 = Inr tt" and z3: "3 \<le> z i"
    and ks: "1 \<le> n1 i \<and> 1 \<le> n2 i \<and> 1 \<le> n3 i \<and> 1 \<le> na i \<and> 1 \<le> nf i"
    and con: "InternalGear_contract tt i q'"
  from ks have k: "1 \<le> n1 i" "1 \<le> n2 i" "1 \<le> n3 i" "1 \<le> na i" "1 \<le> nf i" by simp_all
  note c = internal_mesh_count [OF run t2 z3 k con]
  from c(1) show "int (length (snd m')) = z i * int (length (snd q'))" .
  from c(2) show n: "int (length (fst m')) = z i * (int (length (fst q')) - (n1 i + n2 i + n3 i + 1))" .
  have "1 \<le> n1 i + n2 i + n3 i + 1" using k by simp
  from fewer_nodes [OF z3 this] n show "int (length (fst m')) < z i * int (length (fst q'))" by simp
next
  assume ks: "1 \<le> n1 e \<and> 1 \<le> n2 e \<and> 1 \<le> n3 e \<and> 1 \<le> na e \<and> 1 \<le> nf e"
    and G: "G ''z'' = Some (PyInt (z e))" and z3: "3 \<le> z e"
  from ks have k: "1 \<le> n1 e" "1 \<le> n2 e" "1 \<le> n3 e" "1 \<le> na e" "1 \<le> nf e" by simp_all
  have k0: "0 \<le> n1 e" "0 \<le> n2 e" using k by simp_all
  have "0 < real_of_int (n1 e) * 1.236 + real_of_int (n2 e) * 0.618 + real_of_int (n3 e)"
    using k by (intro add_pos_pos mult_pos_pos) simp_all
  then have nt: "real_of_int (n1 e) * 1.236 + real_of_int (n2 e) * 0.618 + real_of_int (n3 e) \<noteq> 0"
    by simp
  have z2: "2 \<le> z e" using z3 by simp
  have zi: "isinstance_int (PyInt (z e))" "2 \<le> int_of_pyval (PyInt (z e))" using z3 by simp_all
  from ExternalGear_delta_angle_total [where G = G and fsolve = fsolve, OF k0 nt G zi]
  obtain dl rp where da: "ExternalGear_delta_angle G fsolve e = Inr (dl, rp, z e)" by auto
  have "\<exists>ms. ExternalGear_generate_mesh G fsolve (Inr q) e = Inr (ms, e\<lparr>mesh := Some ms\<rparr>) \<and>
             int (length (snd ms)) = z e * int (length (snd q)) \<and>
             int (length (fst ms)) = z e * (int (length (fst q)) - (n3 e + 1))"
    if con: "ExternalGear_contract dl e q"
  proof -
    from ExternalGear_generate_mesh_total [OF da z2 k con] obtain ms where
      run: "ExternalGear_generate_mesh G fsolve (Inr q) e = Inr (ms, e\<lparr>mesh := Some ms\<rparr>)"
      by blast
    from external_mesh_count [OF run da z3 k con] run show ?thesis by blast
  qed
  with da show "\<exists>dl rp. ExternalGear_delta_angle G fsolve e = Inr (dl, rp, z e) \<and>
       (ExternalGear_contract dl e q \<longrightarrow>
          (\<exists>ms. ExternalGear_generate_mesh G fsolve (Inr q) e = Inr (ms, e\<lparr>mesh := Some ms\<rparr>) \<and>
             int (length (snd ms)) = z e * int (length (snd q)) \<and>
             int (length (fst ms)) = z e * (int (length (fst q)) - (n3 e + 1))))"
    by blast
next
  assume ks: "1 \<le> n1 i \<and> 1 \<le> n2 i \<and> 1 \<le> n3 i \<and> 1 \<le> na i \<and> 1 \<le> nf i"
    and z3: "3 \<le> z i" and zc: "z_cutter i \<noteq> 0"
    and od: "G' ''outer_diam'' = Some v" "is_number v"
    and sp: "shape_preserving fsolve'"
    and t2: "getitem (t i) 2 = Inr tt"
    and con: "InternalGear_contract tt i q'"
  from ks have k: "1 \<le> n1 i" "1 \<le> n2 i" "1 \<le> n3 i" "1 \<le> na i" "1 \<le> nf i" by simp_all
  have z2: "2 \<le> z i" using z3 by simp
  from InternalGear_generate_mesh_total [where G = G', OF z2 zc od k sp t2 con] obtain ms ir where
    run: "InternalGear_generate_mesh G' fsolve' (Inr q') i = Inr (ms, ir)" by blast
  from internal_mesh_count [OF run t2 z3 k con] run
  show "\<exists>ms ir. InternalGear_generate_mesh G' fsolve' (Inr q') i = Inr (ms, ir) \<and>
       int (length (snd ms)) = z i * int (length (snd q')) \<and>
       int (length (fst ms)) = z i * (int (length (fst q')) - (n1 i + n2 i + n3 i + 1))" by blast
qed

theorem assembled_mesh_counts_witness:
  "(\<exists>e m e'. ExternalGear_init (PyInt 2) (PyInt 20) (PyInt 20) (PyInt 0) (PyInt 0) 1 (1/4) (38/100) 0 1 1 1 1 1 0 30 = Inr e \<and>
       ExternalGear_generate_mesh [''z'' \<mapsto> PyInt 20] (\<lambda>f x0. x0)
         (Inr (map (\<lambda>k. (real k, 0)) [0..<16],
           [[0,1,7,10],[1,2,8,7],[2,3,9,8],[10,7,4,11],[7,8,5,4],[8,9,6,5],[12,13,1,0],[14,11,4,15]])) e
         = Inr (m, e') \<and>
       length (snd m) = 160 \<and> length (fst m) = 280) \<and>
   (\<exists>i m i'. InternalGear_init (\<lambda>f x0. x0) (PyInt 2) (PyInt 20) (PyInt 20) (PyInt 0) (PyInt 0) 1 (1/4) (38/100) 0 1 1 1 1 1 60 10 0
         = Inr i \<and>
       InternalGear_generate_mesh [''outer_diam'' \<mapsto> PyFloat 60] (\<lambda>f x0. x0)
         (Inr (map (\<lambda>k. (real k, 0)) [0..<14],
           [[0,1,9,8],[1,2,12,9],[2,3,13,12],[4,10,11,5],[5,11,12,6],[6,12,13,7]])) i
         = Inr (m, i') \<and>
       length (snd m) = 120 \<and> length (fst m) = 200)"
proof -
  obtain e where e: "ExternalGear_init (PyInt 2) (PyInt 20) (PyInt 20) (PyInt 0) (PyInt 0) 1 (1/4) (38/100) 0 1 1 1 1 1 0 30 = Inr e"
    by (simp add: ExternalGear_init_def Gear_init_def Let_def)
  obtain i where i: "InternalGear_init (\<lambda>f x0. x0) (PyInt 2) (PyInt 20) (PyInt 20) (PyInt 0) (PyInt 0) 1 (1/4) (38/100) 0 1 1 1 1 1 60 10 0
          = Inr i"
    by (simp add: InternalGear_init_def Gear_init_def Let_def)
  note fe = external_example [OF e]
  note fi = internal_example [OF i]
  have ke: "1 \<le> n1 e \<and> 1 \<le> n2 e \<and> 1 \<le> n3 e \<and> 1 \<le> na e \<and> 1 \<le> nf e" by (simp add: fe)
  have ki: "1 \<le> n1 i \<and> 1 \<le> n2 i \<and> 1 \<le> n3 i \<and> 1 \<le> na i \<and> 1 \<le> nf i" by (simp add: fi)
  have G: "[''z'' \<mapsto> PyInt 20] ''z'' = Some (PyInt (z e))" by (simp add: fe)
  have ze: "3 \<le> z e" and zi: "3 \<le> z i" and zc: "z_cutter i \<noteq> 0" by (simp_all add: fe fi)
  have od: "[''outer_diam'' \<mapsto> PyFloat 60] ''outer_diam'' = Some (PyFloat 60)"
    "is_number (PyFloat 60)" by simp_all
  have sp: "shape_preserving (\<lambda>f x0. x0)" by (simp add: shape_preserving_def)
  have t2: "getitem (t i) 2 = Inr (1/2)" by (simp add: fi getitem_def py_index_def)
  note ce = external_example_contract [OF e]
  note ci = internal_example_contract [OF i]
  note T = assembled_mesh_counts [where G = "[''z'' \<mapsto> PyInt 20]" and fsolve = "\<lambda>f x0. x0" and e = e
      and G' = "[''outer_diam'' \<mapsto> PyFloat 60]" and fsolve' = "\<lambda>f x0. x0" and i = i
      and v = "PyFloat 60" and tt = "1/2"
      and q = "(map (\<lambda>k. (real k, 0)) [0..<16],
         [[0,1,7,10],[1,2,8,7],[2,3,9,8],[10,7,4,11],[7,8,5,4],[8,9,6,5],[12,13,1,0],[14,11,4,15]])"
      and q' = "(map (\<lambda>k. (real k, 0)) [0..<14],
         [[0,1,9,8],[1,2,12,9],[2,3,13,12],[4,10,11,5],[5,11,12,6],[6,12,13,7]])"]
  from T [THEN conjunct2, THEN conjunct2, THEN conjunct1] ke G ze ce obtain m where
    run: "ExternalGear_generate_mesh [''z'' \<mapsto> PyInt 20] (\<lambda>f x0. x0)
       (Inr (map (\<lambda>k. (real k, 0)) [0..<16],
         [[0,1,7,10],[1,2,8,7],[2,3,9,8],[10,7,4,11],[7,8,5,4],[8,9,6,5],[12,13,1,0],[14,11,4,15]])) e
       = Inr (m, e\<lparr>mesh := Some m\<rparr>)"
    and c1: "int (length (snd m)) = z e * int (length (snd (map (\<lambda>k. (real k, 0::real)) [0..<16],
         [[0,1,7,10],[1,2,8,7],[2,3,9,8],[10,7,4,11],[7,8,5,4],[8,9,6,5],[12,13,1,0],[14,11,4,15::int]])))"
    and c2: "int (length (fst m)) = z e * (int (length (fst (map (\<lambda>k. (real k, 0::real)) [0..<16],
         [[0,1,7,10],[1,2,8,7],[2,3,9,8],[10,7,4,11],[7,8,5,4],[8,9,6,5],[12,13,1,0],[14,11,4,15::int]]))) - (n3 e + 1))"
    by blast
  from T [THEN conjunct2, THEN conjunct2, THEN conjunct2] ki zi zc od sp t2 ci obtain m' i' where
    run': "InternalGear_generate_mesh [''outer_diam'' \<mapsto> PyFloat 60] (\<lambda>f x0. x0)
       (Inr (map (\<lambda>k. (real k, 0)) [0..<14],
         [[0,1,9,8],[1,2,12,9],[2,3,13,12],[4,10,11,5],[5,11,12,6],[6,12,13,7]])) i
       = Inr (m', i')"
    and c3: "int (length (snd m')) = z i * int (length (snd (map (\<lambda>k. (real k, 0::real)) [0..<14],
         [[0,1,9,8],[1,2,12,9],[2,3,13,12],[4,10,11,5],[5,11,12,6],[6,12,13,7::int]])))"
    and c4: "int (length (fst m')) = z i * (int (length (fst (map (\<lambda>k. (real k, 0::real)) [0..<14],
         [[0,1,9,8],[1,2,12,9],[2,3,13,12],[4,10,11,5],[5,11,12,6],[6,12,13,7::int]]))) - (n1 i + n2 i + n3 i + 1))"
    by blast
  from c1 c2 c3 c4
  have "length (snd m) = 160" "length (fst m) = 280" "length (snd m') = 120" "length (fst m') = 200"
    by (simp_all add: fe fi)
  with e i run run' show ?thesis by blast
qed

text \<open>
  Claim C1 as stated fails for two teeth.  The closing copy is appended after the first
  copy whatever the tooth count, so the mesh holds three copies of the tooth: for a
  single-tooth mesh of 6 cells the internal gear with \<open>z = 2\<close> gets 18 cells, not 12.
\<close>

theorem assembled_mesh_counts_counterexample:
  "\<not> isl (InternalGear_init (\<lambda>f x0. x0) (PyInt 2) (PyInt 2) (PyInt 20) (PyInt 0) (PyInt 0) 1 (1/4) (38/100) 0 1 1 1 1 1 60 10 0) \<and>
   z (projr (InternalGear_init (\<lambda>f x0. x0) (PyInt 2) (PyInt 2) (PyInt 20) (PyInt 0) (PyInt 0) 1 (1/4) (38/100) 0 1 1 1 1 1 60 10 0)) = 2 \<and>
   \<not> isl (InternalGear_generate_mesh [''outer_diam'' \<mapsto> PyFloat 60] (\<lambda>f x0. x0)
         (Inr (map (\<lambda>k. (real k, 0)) [0..<14],
           [[0,1,9,8],[1,2,12,9],[2,3,13,12],[4,10,11,5],[5,11,12,6],[6,12,13,7]]))
         (projr (InternalGear_init (\<lambda>f x0. x0) (PyInt 2) (PyInt 2) (PyInt 20) (PyInt 0) (PyInt 0) 1 (1/4) (38/100) 0 1 1 1 1 1 60 10 0))) \<and>
   length (snd (fst (projr (InternalGear_generate_mesh [''outer_diam'' \<mapsto> PyFloat 60] (\<lambda>f x0. x0)
         (Inr (map (\<lambda>k. (real k, 0)) [0..<14],
           [[0,1,9,8],[1,2,12,9],[2,3,13,12],[4,10,11,5],[5,11,12,6],[6,12,13,7]]))
         (projr (InternalGear_init (\<lambda>f x0. x0) (PyInt 2) (PyInt 2) (PyInt 20) (PyInt 0) (PyInt 0) 1 (1/4) (38/100) 0 1 1 1 1 1 60 10 0)))))) = 18"
proof -
  obtain i where i: "InternalGear_init (\<lambda>f x0. x0) (PyInt 2) (PyInt 2) (PyInt 20) (PyInt 0) (PyInt 0) 1 (1/4) (38/100) 0 1 1 1 1 1 60 10 0
          = Inr i"
    by (simp add: InternalGear_init_def Gear_init_def Let_def)
  have z2: "(2::int) \<le> 2" by simp
  from internal_example_run(2) [OF i z2] obtain m i' where
    run: "InternalGear_generate_mesh [''outer_diam'' \<mapsto> PyFloat 60] (\<lambda>f x0. x0)
       (Inr (map (\<lambda>k. (real k, 0)) [0..<14],
         [[0,1,9,8],[1,2,12,9],[2,3,13,12],[4,10,11,5],[5,11,12,6],[6,12,13,7]])) i
       = Inr (m, i')"
    by blast
  from internal_mesh_cells [OF run] have "length (snd m) = 18"
    by (simp add: internal_example [OF i])
  then show ?thesis unfolding i sum.sel run by (simp add: internal_example [OF i])
qed


lemma ExternalGear_generate_mesh_unbound:
  assumes "ExternalGear_delta_angle G fsolve e = Inl err"
  shows "ExternalGear_generate_mesh G fsolve qm e = Inl err"
  using assms by (simp add: ExternalGear_generate_mesh_def)

text \<open>
  Claim C7: the code does not do what the claim says.  \<^verbatim>\<open>ExternalGear.generate_mesh\<close>
  never binds \<^verbatim>\<open>z\<close> (the sibling method of the internal gear starts with
  \<^verbatim>\<open>z = self.z\<close>), so the rotation by one tooth pitch is built from a module global.
  Where no such global exists the call raises NameError before either topology is
  selected; where one exists, the rotation table has as many entries as the global says,
  whatever the tooth count of the gear is.
\<close>

theorem external_topology_reads_global_z:
  "1 \<le> n1 e \<and> 1 \<le> n2 e \<and> 1 \<le> n3 e \<longrightarrow>
   (G ''z'' = None \<longrightarrow>
      ExternalGear_delta_angle G fsolve e = Inl NameError \<and>
      ExternalGear_generate_mesh G fsolve qm e = Inl NameError) \<and>
   (G ''z'' = Some (PyInt k) \<longrightarrow> 2 \<le> k \<longrightarrow>
      (\<exists>delta rot_phi. ExternalGear_delta_angle G fsolve e = Inr (delta, rot_phi, k) \<and>
                       int (length rot_phi) = k))"
proof (intro impI conjI)
  assume ks: "1 \<le> n1 e \<and> 1 \<le> n2 e \<and> 1 \<le> n3 e" and G: "G ''z'' = None"
  have k: "0 \<le> n1 e" "0 \<le> n2 e" using ks by simp_all
  have "0 < real_of_int (n1 e) * 1.236 + real_of_int (n2 e) * 0.618 + real_of_int (n3 e)"
    using ks by (intro add_pos_pos mult_pos_pos) simp_all
  then have nt: "real_of_int (n1 e) * 1.236 + real_of_int (n2 e) * 0.618 + real_of_int (n3 e) \<noteq> 0"
    by simp
  from ExternalGear_delta_angle_unbound [where G = G and fsolve = fsolve, OF k nt G]
  show d: "ExternalGear_delta_angle G fsolve e = Inl NameError" .
  from ExternalGear_generate_mesh_unbound [OF d]
  show "ExternalGear_generate_mesh G fsolve qm e = Inl NameError" .
next
  assume ks: "1 \<le> n1 e \<and> 1 \<le> n2 e \<and> 1 \<le> n3 e" and G: "G ''z'' = Some (PyInt k)"
    and k2: "2 \<le> k"
  have k: "0 \<le> n1 e" "0 \<le> n2 e" using ks by simp_all
  have "0 < real_of_int (n1 e) * 1.236 + real_of_int (n2 e) * 0.618 + real_of_int (n3 e)"
    using ks by (intro add_pos_pos mult_pos_pos) simp_all
  then have nt: "real_of_int (n1 e) * 1.236 + real_of_int (n2 e) * 0.618 + real_of_int (n3 e) \<noteq> 0"
    by simp
  have zi: "isinstance_int (PyInt k)" "2 \<le> int_of_pyval (PyInt k)" using k2 by simp_all
  from ExternalGear_delta_angle_total [where G = G and fsolve = fsolve, OF k nt G zi]
  show "\<exists>delta rot_phi. ExternalGear_delta_angle G fsolve e = Inr (delta, rot_phi, k) \<and>
                       int (length rot_phi) = k" by simp
qed

lemma external_scenario:
  assumes e: "ExternalGear_init (PyInt 2) (PyInt 20) (PyInt 20) (PyInt 0) (PyInt 0) 1 (1/4) (38/100) 0 5 5 5 3 3 0 30 = Inr e"
  shows "n1 e = 5" "n2 e = 5" "n3 e = 5" "na e = 3" "nf e = 3" "z e = 20"
  using e
  by (auto simp: ExternalGear_init_def Gear_init_def Let_def gear.defs external_gear.defs
        split: if_splits)

theorem external_topology_reads_global_z_witness:
  "\<not> isl (ExternalGear_init (PyInt 2) (PyInt 20) (PyInt 20) (PyInt 0) (PyInt 0) 1 (1/4) (38/100) 0 5 5 5 3 3 0 30) \<and>
   ExternalGear_generate_mesh Map.empty (\<lambda>f x0. x0) (Inr ([], []))
     (projr (ExternalGear_init (PyInt 2) (PyInt 20) (PyInt 20) (PyInt 0) (PyInt 0) 1 (1/4) (38/100) 0 5 5 5 3 3 0 30))
     = Inl NameError \<and>
   z (projr (ExternalGear_init (PyInt 2) (PyInt 20) (PyInt 20) (PyInt 0) (PyInt 0) 1 (1/4) (38/100) 0 5 5 5 3 3 0 30)) = 20 \<and>
   (\<exists>delta rot_phi. ExternalGear_delta_angle [''z'' \<mapsto> PyInt 7] (\<lambda>f x0. x0)
       (projr (ExternalGear_init (PyInt 2) (PyInt 20) (PyInt 20) (PyInt 0) (PyInt 0) 1 (1/4) (38/100) 0 5 5 5 3 3 0 30))
       = Inr (delta, rot_phi, 7) \<and> length rot_phi = 7)"
proof -
  obtain e where e: "ExternalGear_init (PyInt 2) (PyInt 20) (PyInt 20) (PyInt 0) (PyInt 0) 1 (1/4) (38/100) 0 5 5 5 3 3 0 30 = Inr e"
    by (simp add: ExternalGear_init_def Gear_init_def Let_def)
  note f = external_scenario [OF e]
  have ks: "1 \<le> n1 e \<and> 1 \<le> n2 e \<and> 1 \<le> n3 e" by (simp add: f)
  from external_topology_reads_global_z [where e = e and G = Map.empty and fsolve = "\<lambda>f x0. x0"
      and qm = "Inr ([], [])"] ks
  have a: "ExternalGear_generate_mesh Map.empty (\<lambda>f x0. x0) (Inr ([], [])) e = Inl NameError"
    by simp
  from external_topology_reads_global_z [where e = e and G = "[''z'' \<mapsto> PyInt 7]"
      and fsolve = "\<lambda>f x0. x0" and k = 7] ks
  have b: "\<exists>delta rot_phi. ExternalGear_delta_angle [''z'' \<mapsto> PyInt 7] (\<lambda>f x0. x0) e
       = Inr (delta, rot_phi, 7) \<and> length rot_phi = 7"
    by simp
  show ?thesis unfolding e sum.sel using a b f by simp
qed


lemma InternalGear_generate_mesh_no_global:
  assumes G: "G ''outer_diam'' = None"
  shows "isl (InternalGear_generate_mesh G fsolve qm g)"
proof (rule ccontr)
  assume "\<not> isl (InternalGear_generate_mesh G fsolve qm g)"
  then obtain m g' where run: "InternalGear_generate_mesh G fsolve qm g = Inr (m, g')"
    by (cases "InternalGear_generate_mesh G fsolve qm g") auto
  then obtain t_2 where t2: "getitem (t g) 2 = Inr t_2"
    and r: "(if internal_gear.rc g \<ge> t_2
     then bnd (InternalGear_get_profile_points fsolve g)
            (\<lambda>(points, g'). internal_tail G qm 14 False g')
     else bnd (InternalGear_get_profile_points fsolve g)
            (\<lambda>(points, g'). internal_tail G qm 18 True g')) = Inr (m, g')"
    unfolding InternalGear_generate_mesh_def by (auto simp: bnd_Inr_iff)
  from r obtain points g1 K b where "internal_tail G qm K b g1 = Inr (m, g')"
    by (cases "internal_gear.rc g \<ge> t_2") (auto simp: bnd_Inr_iff)
  with G show False by (simp add: internal_tail_def split: if_splits)
qed

lemma internal_tail_no_global:
  assumes "G ''outer_diam'' = None" "z g \<noteq> 0"
  shows "internal_tail G qm K b g = Inl NameError"
  using assms by (simp add: internal_tail_def)

text \<open>
  Claim C3, as amended. \<^verbatim>\<open>InternalGear.generate_mesh\<close> reads the free name
  \<^verbatim>\<open>outer_diam\<close> in both branches.  Where no module global of that name exists the call
  never returns a mesh; and it raises NameError whenever the profile is built first, which
  is the case for a gear whose tooth count and cutter tooth count are not 0 and whose
  sample counts are at least 1.
\<close>

theorem internal_mesh_unbound_outer_diam:
  "G ''outer_diam'' = None \<longrightarrow>
   isl (InternalGear_generate_mesh G fsolve qm i) \<and>
   (z i \<noteq> 0 \<and> z_cutter i \<noteq> 0 \<and> 1 \<le> n1 i \<and> 1 \<le> n2 i \<and> 1 \<le> nf i \<and>
    shape_preserving fsolve \<and> length (t i) = 3 \<longrightarrow>
    InternalGear_generate_mesh G fsolve qm i = Inl NameError)"
proof (intro impI conjI)
  assume G: "G ''outer_diam'' = None"
  then show "isl (InternalGear_generate_mesh G fsolve qm i)"
    by (rule InternalGear_generate_mesh_no_global)
next
  assume G: "G ''outer_diam'' = None"
    and h: "z i \<noteq> 0 \<and> z_cutter i \<noteq> 0 \<and> 1 \<le> n1 i \<and> 1 \<le> n2 i \<and> 1 \<le> nf i \<and>
    shape_preserving fsolve \<and> length (t i) = 3"
  from h have zz: "z i \<noteq> 0" and zc: "z_cutter i \<noteq> 0" and k1: "1 \<le> n1 i" and k2: "0 \<le> n2 i"
    and kf: "1 \<le> nf i" and sp: "shape_preserving fsolve" and lt: "length (t i) = 3"
    by simp_all
  have k10: "0 \<le> n1 i" using k1 by simp
  from lt have t2: "getitem (t i) 2 = Inr (elt (t i) 2)" by (simp add: getitem_in)
  show "InternalGear_generate_mesh G fsolve qm i = Inl NameError"
  proof (cases "internal_gear.rc i \<ge> elt (t i) 2")
    case True
    from profile_thick_total [OF zz zc k10 k2 t2 True] obtain pts where
      p: "InternalGear_get_profile_points fsolve i = Inr (pts, i)" by blast
    show ?thesis
      unfolding InternalGear_generate_mesh_def
      by (simp only: t2 bnd_simps if_P [OF True] p prod.case internal_tail_no_global [where G = G, OF G zz])
  next
    case False
    define g1 where "g1 = i\<lparr>t := fsolve (fillet_func (rb_cutter i) (etab i) (internal_gear.rc i)
                                 (ra_cutter i)) [1, 0.75 * pi, 0, ra_cutter i]\<rparr>"
    from profile_thin_total [OF zz zc k1 k2 kf sp t2 False] obtain pts where
      p: "InternalGear_get_profile_points fsolve i = Inr (pts, g1)" unfolding g1_def by blast
    have z1: "z g1 \<noteq> 0" using zz by (simp add: g1_def)
    show ?thesis
      unfolding InternalGear_generate_mesh_def
      by (simp only: t2 bnd_simps if_not_P [OF False] p prod.case internal_tail_no_global [where G = G, OF G z1])
  qed
qed


lemma profile_thick_zero_teeth:
  assumes zz: "z g = 0" and zc: "z_cutter g \<noteq> 0"
    and k1: "0 \<le> n1 g" and k2: "0 \<le> n2 g"
    and t2: "getitem (t g) 2 = Inr t_2" and br: "internal_gear.rc g \<ge> t_2"
  shows "InternalGear_get_profile_points fsolve g = Inl ZeroDivisionError"
proof -
  obtain alphawt where a: "ainv (2 * (x_n g - xn_cutter g) * tan (alpha_n g) / real_of_int (z g - z_cutter g)
                    + (tan (alpha_t g) - alpha_t g)) = Some alphawt"
    using ainv_terminates by blast
  define ratio where "ratio = real_of_int (z g) / real_of_int (z_cutter g)"
  define E where "E = 0.5 * (d g - d_cutter g)
                    + m_t g * (0.5 * real_of_int (z g - z_cutter g)
                               * (cos (alpha_t g) / cos alphawt - 1))"
  define p0 :: "point list" where "p0 = replicate (nat (2 * (n1 g + n2 g) + 1)) (0, 0)"
  have len0: "int (length p0) = 2 * (n1 g + n2 g) + 1" using k1 k2 by (simp add: p0_def)
  note t1 = getitem_below [OF t2, of 1]
  have g1: "getitem (t g) 1 = Inr (elt (t g) 1)" using t1(1) by simp
  from linspace_open_Inr [OF k2, of "elt (t g) 1" "pi / 2"] obtain us where
    us: "linspace_open (elt (t g) 1) (pi / 2) (n2 g) = Inr us" and lus: "int (length us) = n2 g"
    by blast
  define T where "T = InternalGear_get_transition_points fsolve E 0
                        (ra_cutter g - internal_gear.rc g) (internal_gear.rc g) ratio us"
  have lT: "int (length T) = n1 g + n2 g - n1 g"
    by (simp add: T_def InternalGear_get_transition_points_def lus)
  have b1: "0 \<le> n1 g" "n1 g \<le> n1 g + n2 g" "n1 g + n2 g \<le> int (length p0)"
    using k1 k2 len0 by simp_all
  from slice_assign_in [OF b1 lT] obtain pA where
    pA: "slice_assign p0 (n1 g) (n1 g + n2 g) T = Inr pA" and lenA: "length pA = length p0"
    by blast
  define pB where "pB = pA[nat (n1 g + n2 g) := (0, 0.5 * (2 * (E + ra_cutter g)))]"
  have sB: "setitem pA (n1 g + n2 g) (0, 0.5 * (2 * (E + ra_cutter g))) = Inr pB"
    unfolding pB_def using k1 k2 lenA len0 by (intro setitem_in) simp_all
  have iv: "involute_part fsolve g (n1 g) pB = Inl ZeroDivisionError"
    by (simp add: involute_part_def zz)
  have guard: "\<not> 2 * (n1 g + n2 g) + 1 < 0" using k1 k2 by simp
  show ?thesis
    unfolding InternalGear_get_profile_points_def Let_def
    by (simp only: if_not_P [OF zc] a option.case t2 bnd_simps if_P [OF br] if_not_P [OF guard]
          p0_def [symmetric] g1 us ratio_def [symmetric] E_def [symmetric] T_def [symmetric]
          pA sB iv)
qed

theorem internal_mesh_unbound_outer_diam_witness:
  "\<not> isl (InternalGear_init (\<lambda>f x0. x0) (PyInt 2) (PyInt 20) (PyInt 20) (PyInt 0) (PyInt 0) 1 (1/4) (38/100) 0 1 1 1 1 1 60 10 0) \<and>
   InternalGear_generate_mesh Map.empty (\<lambda>f x0. x0)
     (Inr (map (\<lambda>k. (real k, 0)) [0..<14],
           [[0,1,9,8],[1,2,12,9],[2,3,13,12],[4,10,11,5],[5,11,12,6],[6,12,13,7]]))
     (projr (InternalGear_init (\<lambda>f x0. x0) (PyInt 2) (PyInt 20) (PyInt 20) (PyInt 0) (PyInt 0) 1 (1/4) (38/100) 0 1 1 1 1 1 60 10 0))
     = Inl NameError"
proof -
  obtain i where i: "InternalGear_init (\<lambda>f x0. x0) (PyInt 2) (PyInt 20) (PyInt 20) (PyInt 0) (PyInt 0) 1 (1/4) (38/100) 0 1 1 1 1 1 60 10 0
          = Inr i"
    by (simp add: InternalGear_init_def Gear_init_def Let_def)
  note f = internal_example [OF i]
  have h: "z i \<noteq> 0 \<and> z_cutter i \<noteq> 0 \<and> 1 \<le> n1 i \<and> 1 \<le> n2 i \<and> 1 \<le> nf i \<and>
    shape_preserving (\<lambda>f x0. x0) \<and> length (t i) = 3"
    by (simp add: f shape_preserving_def)
  from internal_mesh_unbound_outer_diam [where G = Map.empty and fsolve = "\<lambda>f x0. x0" and i = i
      and qm = "Inr (map (\<lambda>k. (real k, 0)) [0..<14],
           [[0,1,9,8],[1,2,12,9],[2,3,13,12],[4,10,11,5],[5,11,12,6],[6,12,13,7]])"] h
  have "InternalGear_generate_mesh Map.empty (\<lambda>f x0. x0)
     (Inr (map (\<lambda>k. (real k, 0)) [0..<14],
           [[0,1,9,8],[1,2,12,9],[2,3,13,12],[4,10,11,5],[5,11,12,6],[6,12,13,7]])) i
     = Inl NameError" by simp
  then show ?thesis unfolding i sum.sel by simp
qed

text \<open>
  Claim C3 as stated fails for a gear without teeth, which the constructor accepts: the
  profile is computed before \<^verbatim>\<open>outer_diam\<close> is read, and \<^verbatim>\<open>pi / z\<close> raises
  ZeroDivisionError there.
\<close>

theorem internal_mesh_unbound_outer_diam_counterexample:
  "\<not> isl (InternalGear_init (\<lambda>f x0. x0) (PyInt 2) (PyInt 0) (PyInt 20) (PyInt 0) (PyInt 0) 1 (1/4) (38/100) 0 1 1 1 1 1 60 10 0) \<and>
   InternalGear_generate_mesh Map.empty (\<lambda>f x0. x0)
     (Inr (map (\<lambda>k. (real k, 0)) [0..<14],
           [[0,1,9,8],[1,2,12,9],[2,3,13,12],[4,10,11,5],[5,11,12,6],[6,12,13,7]]))
     (projr (InternalGear_init (\<lambda>f x0. x0) (PyInt 2) (PyInt 0) (PyInt 20) (PyInt 0) (PyInt 0) 1 (1/4) (38/100) 0 1 1 1 1 1 60 10 0))
     = Inl ZeroDivisionError"
proof -
  obtain i where i: "InternalGear_init (\<lambda>f x0. x0) (PyInt 2) (PyInt 0) (PyInt 20) (PyInt 0) (PyInt 0) 1 (1/4) (38/100) 0 1 1 1 1 1 60 10 0
          = Inr i"
    by (simp add: InternalGear_init_def Gear_init_def Let_def)
  note f = internal_example [OF i]
  have t2: "getitem (t i) 2 = Inr (1/2)" by (simp add: f getitem_def py_index_def)
  have br: "internal_gear.rc i \<ge> 1/2" by (simp add: f)
  have zz: "z i = 0" and zc: "z_cutter i \<noteq> 0" and k: "0 \<le> n1 i" "0 \<le> n2 i" by (simp_all add: f)
  from profile_thick_zero_teeth [OF zz zc k t2 br]
  have p: "InternalGear_get_profile_points (\<lambda>f x0. x0) i = Inl ZeroDivisionError" .
  have "InternalGear_generate_mesh Map.empty (\<lambda>f x0. x0)
     (Inr (map (\<lambda>k. (real k, 0)) [0..<14],
           [[0,1,9,8],[1,2,12,9],[2,3,13,12],[4,10,11,5],[5,11,12,6],[6,12,13,7]])) i
     = Inl ZeroDivisionError"
    unfolding InternalGear_generate_mesh_def
    by (simp only: t2 bnd_simps if_P [OF br] p)
  then show ?thesis unfolding i sum.sel by simp
qed


subsection \<open>The claims about get_profile_points\<close>








lemma rotation_norm:
  fixes A B s c :: real
  assumes "s\<^sup>2 + c\<^sup>2 = 1"
  shows "(A * s + B * c)\<^sup>2 + (A * c - B * s)\<^sup>2 = A\<^sup>2 + B\<^sup>2"
proof -
  have "(A * s + B * c)\<^sup>2 + (A * c - B * s)\<^sup>2 = (A\<^sup>2 + B\<^sup>2) * (s\<^sup>2 + c\<^sup>2)"
    by (simp add: power2_eq_square algebra_simps)
  then show ?thesis using assms by simp
qed

lemma ext_transition_radius:
  assumes b: "beta g = 0" and rc0: "external_gear.rc g = 0" and r0: "r g \<noteq> 0" and su: "sin u \<noteq> 0"
  shows "(fst (ext_transition_point g u))\<^sup>2 + (snd (ext_transition_point g u))\<^sup>2
       = (r g + (m_n g * x_t g - ha_cutter g))\<^sup>2
         + ((m_n g * x_t g - ha_cutter g) * cos u / sin u)\<^sup>2"
proof -
  define x0 where "x0 = - pi * m_n g / 2 + (pi * m_n g / 4 - ha_cutter g * tan (alpha_t g))"
  define y0 where "y0 = m_n g * x_t g - ha_cutter g"
  define phi where "phi = (x0 * sin u - y0 * cos u) / (r g * sin u)"
  have p: "ext_transition_point g u
      = ((r g + y0) * sin phi + (x0 - phi * r g) * cos phi,
         (r g + y0) * cos phi - (x0 - phi * r g) * sin phi)"
    unfolding ext_transition_point_def Let_def b rc0 x0_def y0_def phi_def
    by (simp add: algebra_simps)
  have B: "x0 - phi * r g = y0 * cos u / sin u"
    unfolding phi_def using r0 su by (simp add: field_simps)
  have "(fst (ext_transition_point g u))\<^sup>2 + (snd (ext_transition_point g u))\<^sup>2
      = (r g + y0)\<^sup>2 + (x0 - phi * r g)\<^sup>2"
    unfolding p fst_conv snd_conv by (rule rotation_norm) simp
  then show ?thesis unfolding B y0_def .
qed


lemma arctan_tan_pi_6: "arctan (tan (pi / 6)) = pi / 6"
  by (rule arctan_tan) (use pi_gt_zero in linarith)+

lemma trig_5pi_3: "sin (5 * pi / 3) = - (sqrt 3 / 2)" "cos (5 * pi / 3) = 1 / 2"
proof -
  have e: "5 * pi / 3 = 2 * pi - pi / 3" by simp
  show "sin (5 * pi / 3) = - (sqrt 3 / 2)" unfolding e sin_2pi_minus by (simp add: sin_60)
  show "cos (5 * pi / 3) = 1 / 2" unfolding e cos_2pi_minus by (simp add: cos_60)
qed

lemma trig_11pi_6: "sin (11 * pi / 6) = - (1 / 2)" "cos (11 * pi / 6) = sqrt 3 / 2"
proof -
  have e: "11 * pi / 6 = 2 * pi - pi / 6" by simp
  show "sin (11 * pi / 6) = - (1 / 2)" unfolding e sin_2pi_minus by (simp add: sin_30)
  show "cos (11 * pi / 6) = sqrt 3 / 2" unfolding e cos_2pi_minus by (simp add: cos_30)
qed

lemma mirror_example:
  assumes e: "ExternalGear_init (PyInt 2) (PyInt 20) (PyInt 30) (PyInt 0) (PyInt 0) 1 (1/4) 0 0
                1 2 1 1 1 0 30 = Inr e"
  shows "n1 e = 1" "n2 e = 2" "beta e = 0" "external_gear.rc e = 0" "r e = 20" "m_n e = 2"
    "x_t e = 0" "ha_cutter e = 5 / 2" "alpha_t e = pi / 6"
proof -
  have n: "\<not> (30::real) < two_pi_float" "(0::real) < two_pi_float"
    by (simp_all add: two_pi_float_def)
  have a: "(30::real) * (pi / 180) = pi / 6" by simp
  show "n1 e = 1" "n2 e = 2" "beta e = 0" "external_gear.rc e = 0" "r e = 20" "m_n e = 2"
    "x_t e = 0" "ha_cutter e = 5 / 2" "alpha_t e = pi / 6"
    using e n
    by (auto simp: ExternalGear_init_def Gear_init_def Let_def gear.defs external_gear.defs
          radians_def a arctan_tan_pi_6)
qed

lemma mirror_example_radii:
  assumes e: "ExternalGear_init (PyInt 2) (PyInt 20) (PyInt 30) (PyInt 0) (PyInt 0) 1 (1/4) 0 0
                1 2 1 1 1 0 30 = Inr e"
  shows "(fst (ext_transition_point e (5 * pi / 3)))\<^sup>2 + (snd (ext_transition_point e (5 * pi / 3)))\<^sup>2
           = (35 / 2)\<^sup>2 + 25 / 12"
    and "(fst (ext_transition_point e (11 * pi / 6)))\<^sup>2 + (snd (ext_transition_point e (11 * pi / 6)))\<^sup>2
           = (35 / 2)\<^sup>2 + 75 / 4"
proof -
  note f = mirror_example [OF e]
  have r0: "r e \<noteq> 0" by (simp add: f)
  have s1: "sin (5 * pi / 3) \<noteq> 0" by (simp add: trig_5pi_3)
  have s2: "sin (11 * pi / 6) \<noteq> 0" by (simp add: trig_11pi_6)
  have q: "(sqrt 3)\<^sup>2 = 3" by simp
  show "(fst (ext_transition_point e (5 * pi / 3)))\<^sup>2 + (snd (ext_transition_point e (5 * pi / 3)))\<^sup>2
           = (35 / 2)\<^sup>2 + 25 / 12"
    unfolding ext_transition_radius [OF f(3) f(4) r0 s1] f trig_5pi_3
    by (simp add: power2_eq_square field_simps)
  show "(fst (ext_transition_point e (11 * pi / 6)))\<^sup>2 + (snd (ext_transition_point e (11 * pi / 6)))\<^sup>2
           = (35 / 2)\<^sup>2 + 75 / 4"
    unfolding ext_transition_radius [OF f(3) f(4) r0 s2] f trig_11pi_6
    by (simp add: power2_eq_square field_simps)
qed


lemma mirror_all:
  fixes h :: int and pts :: "point list"
  assumes mid: "fst (elt pts h) = 0"
    and low: "\<forall>k. 0 \<le> k \<and> k < h \<longrightarrow> elt pts (2 * h - k) = (- fst (elt pts k), snd (elt pts k))"
  shows "\<forall>k. 0 \<le> k \<and> k \<le> 2 * h \<longrightarrow> elt pts (2 * h - k) = (- fst (elt pts k), snd (elt pts k))"
proof (intro allI impI)
  fix k assume k: "0 \<le> k \<and> k \<le> 2 * h"
  consider "k < h" | "k = h" | "h < k" by linarith
  then show "elt pts (2 * h - k) = (- fst (elt pts k), snd (elt pts k))"
  proof cases
    case 1
    with k low show ?thesis by simp
  next
    case 2
    have "2 * h - h = h" by simp
    with 2 mid show ?thesis by (simp add: prod_eq_iff)
  next
    case 3
    define j where "j = 2 * h - k"
    have j: "0 \<le> j \<and> j < h" and kj: "2 * h - j = k" using 3 k by (simp_all add: j_def)
    from low j have "elt pts (2 * h - j) = (- fst (elt pts j), snd (elt pts j))" by blast
    then have "elt pts k = (- fst (elt pts j), snd (elt pts j))" unfolding kj .
    then show ?thesis unfolding j_def [symmetric] by (simp add: prod_eq_iff)
  qed
qed

text \<open>
  Claim C5, as amended.  The external profile has \<open>2 * (n1 + n2 + 1)\<close> points, and its
  second half is the mirror image of the first half in the same order: point \<open>h + k\<close> is
  point \<open>k\<close> with the sign of \<open>x\<close> changed, for \<open>h = n1 + n2 + 1\<close>.  The internal
  profile has \<open>2 * h + 1\<close> points, with \<open>h = n1 + n2\<close> on the branch \<^verbatim>\<open>rc >= t[2]\<close> and
  \<open>h = n1 + n2 + nf\<close> on the other; it is mirror-symmetric in reverse order, point
  \<open>2 * h - k\<close> being point \<open>k\<close> with the sign of \<open>x\<close> changed, for every \<open>k\<close>.  Both hold
  exactly, and the profile is returned for the sample counts stated.
\<close>

theorem profile_mirror_symmetry:
  "(0 \<le> n1 e \<and> 0 \<le> n2 e \<longrightarrow>
      (\<exists>pts. ExternalGear_get_profile_points fsolve e = Inr pts \<and>
         int (length pts) = 2 * (n1 e + n2 e + 1) \<and>
         (\<forall>k. 0 \<le> k \<and> k < n1 e + n2 e + 1 \<longrightarrow>
            elt pts (n1 e + n2 e + 1 + k) = (- fst (elt pts k), snd (elt pts k))))) \<and>
   (z i \<noteq> 0 \<and> z_cutter i \<noteq> 0 \<and> 1 \<le> n1 i \<and> 1 \<le> n2 i \<and> 1 \<le> nf i \<and>
    shape_preserving fsolve' \<and> getitem (t i) 2 = Inr tt \<longrightarrow>
      (\<exists>pts i'. InternalGear_get_profile_points fsolve' i = Inr (pts, i') \<and>
         int (length pts)
           = 2 * (if internal_gear.rc i \<ge> tt then n1 i + n2 i else n1 i + n2 i + nf i) + 1 \<and>
         (\<forall>k. 0 \<le> k \<and>
               k \<le> 2 * (if internal_gear.rc i \<ge> tt then n1 i + n2 i else n1 i + n2 i + nf i) \<longrightarrow>
            elt pts (2 * (if internal_gear.rc i \<ge> tt then n1 i + n2 i else n1 i + n2 i + nf i) - k)
              = (- fst (elt pts k), snd (elt pts k)))))"
proof (intro conjI impI)
  assume "0 \<le> n1 e \<and> 0 \<le> n2 e"
  then have k: "0 \<le> n1 e" "0 \<le> n2 e" by simp_all
  from ExternalGear_get_profile_points_total [OF k, of fsolve]
  show "\<exists>pts. ExternalGear_get_profile_points fsolve e = Inr pts \<and>
         int (length pts) = 2 * (n1 e + n2 e + 1) \<and>
         (\<forall>k. 0 \<le> k \<and> k < n1 e + n2 e + 1 \<longrightarrow>
            elt pts (n1 e + n2 e + 1 + k) = (- fst (elt pts k), snd (elt pts k)))"
    by blast
next
  assume a: "z i \<noteq> 0 \<and> z_cutter i \<noteq> 0 \<and> 1 \<le> n1 i \<and> 1 \<le> n2 i \<and> 1 \<le> nf i \<and>
    shape_preserving fsolve' \<and> getitem (t i) 2 = Inr tt"
  then have zz: "z i \<noteq> 0" and zc: "z_cutter i \<noteq> 0" and k1: "1 \<le> n1 i" and k2: "0 \<le> n2 i"
    and kf: "1 \<le> nf i" and sp: "shape_preserving fsolve'" and t2: "getitem (t i) 2 = Inr tt"
    by simp_all
  have k10: "0 \<le> n1 i" using k1 by simp
  show "\<exists>pts i'. InternalGear_get_profile_points fsolve' i = Inr (pts, i') \<and>
         int (length pts)
           = 2 * (if internal_gear.rc i \<ge> tt then n1 i + n2 i else n1 i + n2 i + nf i) + 1 \<and>
         (\<forall>k. 0 \<le> k \<and>
               k \<le> 2 * (if internal_gear.rc i \<ge> tt then n1 i + n2 i else n1 i + n2 i + nf i) \<longrightarrow>
            elt pts (2 * (if internal_gear.rc i \<ge> tt then n1 i + n2 i else n1 i + n2 i + nf i) - k)
              = (- fst (elt pts k), snd (elt pts k)))"
  proof (cases "internal_gear.rc i \<ge> tt")
    case True
    from profile_thick_total [OF zz zc k10 k2 t2 True, of fsolve'] obtain pts where
      p: "InternalGear_get_profile_points fsolve' i = Inr (pts, i)"
      and l: "int (length pts) = 2 * (n1 i + n2 i) + 1"
      and mid: "fst (elt pts (n1 i + n2 i)) = 0"
      and low: "\<forall>k. 0 \<le> k \<and> k < n1 i + n2 i \<longrightarrow>
        elt pts (2 * (n1 i + n2 i) - k) = (- fst (elt pts k), snd (elt pts k))"
      by blast
    from mirror_all [OF mid low] p l True show ?thesis by auto
  next
    case False
    from profile_thin_total [OF zz zc k1 k2 kf sp t2 False] obtain pts i' where
      p: "InternalGear_get_profile_points fsolve' i = Inr (pts, i')"
      and l: "int (length pts) = 2 * (n1 i + n2 i + nf i) + 1"
      and mid: "fst (elt pts (n1 i + n2 i + nf i)) = 0"
      and low: "\<forall>k. 0 \<le> k \<and> k < n1 i + n2 i + nf i \<longrightarrow>
        elt pts (2 * (n1 i + n2 i + nf i) - k) = (- fst (elt pts k), snd (elt pts k))"
      by blast
    from mirror_all [OF mid low] p l False show ?thesis by auto
  qed
qed


lemma mirror_example_profile:
  assumes e: "ExternalGear_init (PyInt 2) (PyInt 20) (PyInt 30) (PyInt 0) (PyInt 0) 1 (1/4) 0 0
                1 2 1 1 1 0 30 = Inr e"
  shows "\<exists>pts. ExternalGear_get_profile_points (\<lambda>f x0. x0) e = Inr pts \<and> length pts = 8 \<and>
     pts ! 1 = ext_transition_point e (5 * pi / 3) \<and>
     pts ! 2 = ext_transition_point e (11 * pi / 6) \<and>
     pts ! 6 = (- fst (pts ! 2), snd (pts ! 2))"
proof -
  note f = mirror_example [OF e]
  have k: "0 \<le> n1 e" "0 \<le> n2 e" by (simp_all add: f)
  from ExternalGear_get_profile_points_total [OF k, of "\<lambda>f x0. x0"] obtain pts where
    p: "ExternalGear_get_profile_points (\<lambda>f x0. x0) e = Inr pts"
    and l: "int (length pts) = 2 * (n1 e + n2 e + 1)"
    and mir: "\<forall>k. 0 \<le> k \<and> k < n1 e + n2 e + 1 \<longrightarrow>
        elt pts (n1 e + n2 e + 1 + k) = (- fst (elt pts k), snd (elt pts k))"
    and tr: "\<forall>k. 0 \<le> k \<and> k \<le> n2 e \<longrightarrow>
        elt pts k = ext_transition_point e
          (1.5 * pi + real_of_int k * ((2 * pi - alpha_t e - 1.5 * pi) / real (nat (n2 e + 1) - 1)))"
    by blast
  have u1: "1.5 * pi + real_of_int 1 * ((2 * pi - pi / 6 - 1.5 * pi) / real (nat (2 + 1) - 1))
          = 5 * pi / 3" by simp
  have u2: "1.5 * pi + real_of_int 2 * ((2 * pi - pi / 6 - 1.5 * pi) / real (nat (2 + 1) - 1))
          = 11 * pi / 6" by simp
  from tr [rule_format, of 1] have "elt pts 1 = ext_transition_point e (5 * pi / 3)"
    unfolding f u1 by simp
  then have p1: "pts ! 1 = ext_transition_point e (5 * pi / 3)" by (simp add: elt_def)
  from tr [rule_format, of 2] have "elt pts 2 = ext_transition_point e (11 * pi / 6)"
    unfolding f u2 by simp
  then have p2: "pts ! 2 = ext_transition_point e (11 * pi / 6)" by (simp add: elt_def)
  from mir [rule_format, of 2] have "elt pts 6 = (- fst (elt pts 2), snd (elt pts 2))"
    unfolding f by simp
  then have p6: "pts ! 6 = (- fst (pts ! 2), snd (pts ! 2))" by (simp add: elt_def)
  from l have "length pts = 8" by (simp add: f)
  with p p1 p2 p6 show ?thesis by blast
qed

theorem profile_mirror_symmetry_witness:
  "(\<exists>e pts. ExternalGear_init (PyInt 2) (PyInt 20) (PyInt 30) (PyInt 0) (PyInt 0) 1 (1/4) 0 0
                1 2 1 1 1 0 30 = Inr e \<and>
      ExternalGear_get_profile_points (\<lambda>f x0. x0) e = Inr pts \<and> length pts = 8 \<and>
      elt pts 4 = (- fst (elt pts 0), snd (elt pts 0))) \<and>
   (\<exists>i pts i'. InternalGear_init (\<lambda>f x0. x0) (PyInt 2) (PyInt 20) (PyInt 20) (PyInt 0) (PyInt 0)
                1 (1/4) (38/100) 0 1 1 1 1 1 60 10 0 = Inr i \<and>
      InternalGear_get_profile_points (\<lambda>f x0. x0) i = Inr (pts, i') \<and> length pts = 5 \<and>
      elt pts 4 = (- fst (elt pts 0), snd (elt pts 0)))"
proof -
  obtain e where e: "ExternalGear_init (PyInt 2) (PyInt 20) (PyInt 30) (PyInt 0) (PyInt 0) 1 (1/4) 0 0
                1 2 1 1 1 0 30 = Inr e"
    by (simp add: ExternalGear_init_def Gear_init_def Let_def)
  obtain i where i: "InternalGear_init (\<lambda>f x0. x0) (PyInt 2) (PyInt 20) (PyInt 20) (PyInt 0) (PyInt 0)
                1 (1/4) (38/100) 0 1 1 1 1 1 60 10 0 = Inr i"
    by (simp add: InternalGear_init_def Gear_init_def Let_def)
  note fe = mirror_example [OF e]
  note fi = internal_example [OF i]
  have he: "0 \<le> n1 e \<and> 0 \<le> n2 e" by (simp add: fe)
  have hi: "z i \<noteq> 0 \<and> z_cutter i \<noteq> 0 \<and> 1 \<le> n1 i \<and> 1 \<le> n2 i \<and> 1 \<le> nf i \<and>
    shape_preserving (\<lambda>f x0. x0) \<and> getitem (t i) 2 = Inr (1/2)"
    by (simp add: fi shape_preserving_def getitem_def py_index_def)
  note T = profile_mirror_symmetry [where e = e and fsolve = "\<lambda>f x0. x0" and i = i
      and fsolve' = "\<lambda>f x0. x0" and tt = "1/2"]
  from T [THEN conjunct1] he obtain pts where
    p: "ExternalGear_get_profile_points (\<lambda>f x0. x0) e = Inr pts"
    and l: "int (length pts) = 2 * (n1 e + n2 e + 1)"
    and mir: "\<forall>k. 0 \<le> k \<and> k < n1 e + n2 e + 1 \<longrightarrow>
        elt pts (n1 e + n2 e + 1 + k) = (- fst (elt pts k), snd (elt pts k))"
    by blast
  from T [THEN conjunct2] hi obtain pts' i' where
    p': "InternalGear_get_profile_points (\<lambda>f x0. x0) i = Inr (pts', i')"
    and l': "int (length pts')
           = 2 * (if internal_gear.rc i \<ge> 1/2 then n1 i + n2 i else n1 i + n2 i + nf i) + 1"
    and mir': "\<forall>k. 0 \<le> k \<and>
               k \<le> 2 * (if internal_gear.rc i \<ge> 1/2 then n1 i + n2 i else n1 i + n2 i + nf i) \<longrightarrow>
            elt pts' (2 * (if internal_gear.rc i \<ge> 1/2 then n1 i + n2 i else n1 i + n2 i + nf i) - k)
              = (- fst (elt pts' k), snd (elt pts' k))"
    by blast
  from l have a1: "length pts = 8" by (simp add: fe)
  from mir [rule_format, of 0] have a2: "elt pts 4 = (- fst (elt pts 0), snd (elt pts 0))"
    by (simp add: fe)
  from l' have b1: "length pts' = 5" by (simp add: fi)
  from mir' [rule_format, of 0] have b2: "elt pts' 4 = (- fst (elt pts' 0), snd (elt pts' 0))"
    by (simp add: fi)
  from e p a1 a2 i p' b1 b2 show ?thesis by blast
qed

text \<open>
  Claim C5 as stated fails for the external gear, whose second half is not reversed.
  For module 2, 20 teeth, pressure angle 30 degrees, no fillet, \<open>n1 = 1\<close> and \<open>n2 = 2\<close>
  the profile has 8 points; points 1 and 2 lie on the root curve at different distances
  from the centre (the squares of the two distances differ by \<open>50 / 3\<close>, far beyond any
  rounding), and point 6 is the mirror image of point 2.  So the point mirrored onto
  point 1 is neither point 2 (\<open>n = 4\<close>, the half) nor point 6 (\<open>n = 8\<close>, the whole).
\<close>

theorem profile_mirror_symmetry_counterexample:
  "\<not> isl (ExternalGear_init (PyInt 2) (PyInt 20) (PyInt 30) (PyInt 0) (PyInt 0) 1 (1/4) 0 0
             1 2 1 1 1 0 30) \<and>
   \<not> isl (ExternalGear_get_profile_points (\<lambda>f x0. x0)
      (projr (ExternalGear_init (PyInt 2) (PyInt 20) (PyInt 30) (PyInt 0) (PyInt 0) 1 (1/4) 0 0
                1 2 1 1 1 0 30))) \<and>
   length (projr (ExternalGear_get_profile_points (\<lambda>f x0. x0)
      (projr (ExternalGear_init (PyInt 2) (PyInt 20) (PyInt 30) (PyInt 0) (PyInt 0) 1 (1/4) 0 0
                1 2 1 1 1 0 30)))) = 8 \<and>
   \<not> (fst (projr (ExternalGear_get_profile_points (\<lambda>f x0. x0)
      (projr (ExternalGear_init (PyInt 2) (PyInt 20) (PyInt 30) (PyInt 0) (PyInt 0) 1 (1/4) 0 0
                1 2 1 1 1 0 30))) ! 2)
        = - fst (projr (ExternalGear_get_profile_points (\<lambda>f x0. x0)
      (projr (ExternalGear_init (PyInt 2) (PyInt 20) (PyInt 30) (PyInt 0) (PyInt 0) 1 (1/4) 0 0
                1 2 1 1 1 0 30))) ! 1) \<and>
       snd (projr (ExternalGear_get_profile_points (\<lambda>f x0. x0)
      (projr (ExternalGear_init (PyInt 2) (PyInt 20) (PyInt 30) (PyInt 0) (PyInt 0) 1 (1/4) 0 0
                1 2 1 1 1 0 30))) ! 2)
        = snd (projr (ExternalGear_get_profile_points (\<lambda>f x0. x0)
      (projr (ExternalGear_init (PyInt 2) (PyInt 20) (PyInt 30) (PyInt 0) (PyInt 0) 1 (1/4) 0 0
                1 2 1 1 1 0 30))) ! 1)) \<and>
   \<not> (fst (projr (ExternalGear_get_profile_points (\<lambda>f x0. x0)
      (projr (ExternalGear_init (PyInt 2) (PyInt 20) (PyInt 30) (PyInt 0) (PyInt 0) 1 (1/4) 0 0
                1 2 1 1 1 0 30))) ! 6)
        = - fst (projr (ExternalGear_get_profile_points (\<lambda>f x0. x0)
      (projr (ExternalGear_init (PyInt 2) (PyInt 20) (PyInt 30) (PyInt 0) (PyInt 0) 1 (1/4) 0 0
                1 2 1 1 1 0 30))) ! 1) \<and>
       snd (projr (ExternalGear_get_profile_points (\<lambda>f x0. x0)
      (projr (ExternalGear_init (PyInt 2) (PyInt 20) (PyInt 30) (PyInt 0) (PyInt 0) 1 (1/4) 0 0
                1 2 1 1 1 0 30))) ! 6)
        = snd (projr (ExternalGear_get_profile_points (\<lambda>f x0. x0)
      (projr (ExternalGear_init (PyInt 2) (PyInt 20) (PyInt 30) (PyInt 0) (PyInt 0) 1 (1/4) 0 0
                1 2 1 1 1 0 30))) ! 1)) \<and>
   (fst ((projr (ExternalGear_get_profile_points (\<lambda>f x0. x0)
      (projr (ExternalGear_init (PyInt 2) (PyInt 20) (PyInt 30) (PyInt 0) (PyInt 0) 1 (1/4) 0 0
                1 2 1 1 1 0 30)))) ! 2))\<^sup>2 + (snd ((projr (ExternalGear_get_profile_points (\<lambda>f x0. x0)
      (projr (ExternalGear_init (PyInt 2) (PyInt 20) (PyInt 30) (PyInt 0) (PyInt 0) 1 (1/4) 0 0
                1 2 1 1 1 0 30)))) ! 2))\<^sup>2
     - ((fst ((projr (ExternalGear_get_profile_points (\<lambda>f x0. x0)
      (projr (ExternalGear_init (PyInt 2) (PyInt 20) (PyInt 30) (PyInt 0) (PyInt 0) 1 (1/4) 0 0
                1 2 1 1 1 0 30)))) ! 1))\<^sup>2 + (snd ((projr (ExternalGear_get_profile_points (\<lambda>f x0. x0)
      (projr (ExternalGear_init (PyInt 2) (PyInt 20) (PyInt 30) (PyInt 0) (PyInt 0) 1 (1/4) 0 0
                1 2 1 1 1 0 30)))) ! 1))\<^sup>2) = 50 / 3"
proof -
  obtain e where e: "ExternalGear_init (PyInt 2) (PyInt 20) (PyInt 30) (PyInt 0) (PyInt 0) 1 (1/4) 0 0
                1 2 1 1 1 0 30 = Inr e"
    by (simp add: ExternalGear_init_def Gear_init_def Let_def)
  from mirror_example_profile [OF e] obtain pts where
    p: "ExternalGear_get_profile_points (\<lambda>f x0. x0) e = Inr pts" and l: "length pts = 8"
    and p1: "pts ! 1 = ext_transition_point e (5 * pi / 3)"
    and p2: "pts ! 2 = ext_transition_point e (11 * pi / 6)"
    and p6: "pts ! 6 = (- fst (pts ! 2), snd (pts ! 2))"
    by blast
  note R = mirror_example_radii [OF e]
  have r1: "(fst (pts ! 1))\<^sup>2 + (snd (pts ! 1))\<^sup>2 = (35 / 2)\<^sup>2 + 25 / 12" unfolding p1 by (rule R(1))
  have r2: "(fst (pts ! 2))\<^sup>2 + (snd (pts ! 2))\<^sup>2 = (35 / 2)\<^sup>2 + 75 / 4" unfolding p2 by (rule R(2))
  have ne: "(fst (pts ! 2))\<^sup>2 + (snd (pts ! 2))\<^sup>2 \<noteq> (fst (pts ! 1))\<^sup>2 + (snd (pts ! 1))\<^sup>2"
    unfolding r1 r2 by simp
  have a: "\<not> (fst (pts ! 2) = - fst (pts ! 1) \<and> snd (pts ! 2) = snd (pts ! 1))"
  proof
    assume "fst (pts ! 2) = - fst (pts ! 1) \<and> snd (pts ! 2) = snd (pts ! 1)"
    then have "(fst (pts ! 2))\<^sup>2 + (snd (pts ! 2))\<^sup>2 = (fst (pts ! 1))\<^sup>2 + (snd (pts ! 1))\<^sup>2"
      by simp
    with ne show False by contradiction
  qed
  have b: "\<not> (fst (pts ! 6) = - fst (pts ! 1) \<and> snd (pts ! 6) = snd (pts ! 1))"
  proof
    assume "fst (pts ! 6) = - fst (pts ! 1) \<and> snd (pts ! 6) = snd (pts ! 1)"
    then have "fst (pts ! 2) = fst (pts ! 1) \<and> snd (pts ! 2) = snd (pts ! 1)"
      unfolding p6 by simp
    then have "(fst (pts ! 2))\<^sup>2 + (snd (pts ! 2))\<^sup>2 = (fst (pts ! 1))\<^sup>2 + (snd (pts ! 1))\<^sup>2"
      by simp
    with ne show False by contradiction
  qed
  have gap: "(fst (pts ! 2))\<^sup>2 + (snd (pts ! 2))\<^sup>2
     - ((fst (pts ! 1))\<^sup>2 + (snd (pts ! 1))\<^sup>2) = 50 / 3"
    unfolding r1 r2 by simp
  show ?thesis unfolding e sum.sel p by (intro conjI) (simp_all only: l a b gap sum.disc not_False_eq_True)
qed


end
